theory Spec2Isabelle
  imports Complex_Main "HOL-Library.AList"
begin

section \<open>JavaScript values\<close>

text \<open>
  A text is a list of characters with a code below 256, the first 256 code points of the
  language's strings (Latin-1). What the functions on texts below do, they do on
  these characters as the language does.
\<close>

text \<open>
  A JavaScript number is a finite double, an infinity or NaN. Every finite double is a
  rational, and the operations used by the evaluator (\<open>Math.round\<close>, \<open>Math.min\<close>,
  \<open>Math.max\<close>, \<open>>=\<close>) are exact on doubles, so a finite number is kept as the rational it
  denotes. The two zeros are not distinguished: no result below depends on the sign of zero.
\<close>

datatype jsnum = Fin rat | PosInf | NegInf | NaN

text \<open>\<open>Math.round\<close>: the nearest integer, a tie going towards plus infinity.\<close>

fun Math_round :: "jsnum \<Rightarrow> jsnum" where
  "Math_round (Fin q) = Fin (of_int \<lfloor>q + 1 / 2\<rfloor>)"
| "Math_round PosInf = PosInf"
| "Math_round NegInf = NegInf"
| "Math_round NaN = NaN"

fun Math_min :: "jsnum \<Rightarrow> jsnum \<Rightarrow> jsnum" where
  "Math_min NaN y = NaN"
| "Math_min x NaN = NaN"
| "Math_min NegInf y = NegInf"
| "Math_min x NegInf = NegInf"
| "Math_min PosInf y = y"
| "Math_min x PosInf = x"
| "Math_min (Fin a) (Fin b) = Fin (min a b)"

fun Math_max :: "jsnum \<Rightarrow> jsnum \<Rightarrow> jsnum" where
  "Math_max NaN y = NaN"
| "Math_max x NaN = NaN"
| "Math_max PosInf y = PosInf"
| "Math_max x PosInf = PosInf"
| "Math_max NegInf y = y"
| "Math_max x NegInf = x"
| "Math_max (Fin a) (Fin b) = Fin (max a b)"

text \<open>The comparison \<open>x >= y\<close>: false as soon as one side is NaN.\<close>

fun js_ge :: "jsnum \<Rightarrow> jsnum \<Rightarrow> bool" where
  "js_ge NaN y = False"
| "js_ge x NaN = False"
| "js_ge PosInf y = True"
| "js_ge x NegInf = True"
| "js_ge NegInf y = False"
| "js_ge x PosInf = False"
| "js_ge (Fin a) (Fin b) = (b \<le> a)"

text \<open>
  What \<open>JSON.parse\<close> can build. A property that an object does not have reads as
  \<open>undefined\<close>, which is \<open>None\<close> of \<open>jsval option\<close>. An object keeps its properties as an
  association list with one entry for each key.
\<close>

datatype jsval =
    JNull
  | JBool bool
  | JNum jsnum
  | JStr string
  | JArr "jsval list"
  | JObj "(string \<times> jsval) list"

type_synonym jsobject = "(string \<times> jsval) list"

text \<open>What the program can throw.\<close>

datatype error =
    ModelCallError
  | NoJsonInResponse
  | JsonSyntaxError
  | TypeError
  | BrowserLaunchError
  | BrowserContextError
  | PersistenceError
  | UniqueConstraintError

text \<open>
  The conversions of the language runtime between a number and its decimal text: the
  numeric value of a string (which rounds a decimal literal to a double) and the rendering
  of a number. They are parameters of the model; neither throws.
\<close>

record js_runtime =
  StringToNumber :: "string \<Rightarrow> jsnum"
  NumberToString :: "jsnum \<Rightarrow> string"

text \<open>
  \<open>ToString\<close> of a value built by \<open>JSON.parse\<close>. No property of such a value is a
  function. So an object with a property \<open>toString\<close> of its own cannot be converted: the
  conversion finds that property, which cannot be called, and besides it only a
  \<open>valueOf\<close> that cannot be called either or the inherited one, which returns the object
  itself; it throws a TypeError. Every other object is \<open>[object Object]\<close>. An array is
  the \<open>join\<close> of its elements with a comma; \<open>join\<close> takes \<open>null\<close> for the empty text and
  converts every other element.
\<close>

fun ToString :: "js_runtime \<Rightarrow> jsval \<Rightarrow> error + string"
  and Array_join :: "js_runtime \<Rightarrow> string \<Rightarrow> jsval list \<Rightarrow> error + string" where
  "ToString rt JNull = Inr ''null''"
| "ToString rt (JBool b) = Inr (if b then ''true'' else ''false'')"
| "ToString rt (JNum n) = Inr (NumberToString rt n)"
| "ToString rt (JStr s) = Inr s"
| "ToString rt (JArr xs) = Array_join rt '','' xs"
| "ToString rt (JObj kvs) =
     (if map_of kvs ''toString'' \<noteq> None then Inl TypeError else Inr ''[object Object]'')"
| "Array_join rt sep [] = Inr []"
| "Array_join rt sep (x # xs) =
     (case (if x = JNull then Inr [] else ToString rt x) of
        Inl e \<Rightarrow> Inl e
      | Inr s \<Rightarrow>
          (case Array_join rt sep xs of
             Inl e \<Rightarrow> Inl e
           | Inr rest \<Rightarrow> Inr (if xs = [] then s else s @ sep @ rest)))"

text \<open>
  \<open>ToNumber\<close>, applied by \<open>Math.round\<close> to its argument: \<open>undefined\<close> is NaN, \<open>null\<close> is 0,
  a boolean is 0 or 1, a string has its numeric value. An array and an object are first
  converted to a primitive, which is their string since their \<open>valueOf\<close> yields none: the
  conversion throws when that of the string does; the string of an array has its numeric
  value, and \<open>[object Object]\<close> is NaN.
\<close>

fun ToNumber :: "js_runtime \<Rightarrow> jsval option \<Rightarrow> error + jsnum" where
  "ToNumber rt None = Inr NaN"
| "ToNumber rt (Some JNull) = Inr (Fin 0)"
| "ToNumber rt (Some (JBool b)) = Inr (Fin (if b then 1 else 0))"
| "ToNumber rt (Some (JNum n)) = Inr n"
| "ToNumber rt (Some (JStr s)) = Inr (StringToNumber rt s)"
| "ToNumber rt (Some (JArr xs)) =
     (case ToString rt (JArr xs) of Inl e \<Rightarrow> Inl e | Inr s \<Rightarrow> Inr (StringToNumber rt s))"
| "ToNumber rt (Some (JObj kvs)) =
     (case ToString rt (JObj kvs) of Inl e \<Rightarrow> Inl e | Inr s \<Rightarrow> Inr NaN)"

text \<open>Truthiness, as tested by \<open>||\<close>, \<open>?:\<close>, \<open>if\<close> and \<open>filter(Boolean)\<close>.\<close>

fun truthy :: "jsval option \<Rightarrow> bool" where
  "truthy None = False"
| "truthy (Some JNull) = False"
| "truthy (Some (JBool b)) = b"
| "truthy (Some (JNum NaN)) = False"
| "truthy (Some (JNum (Fin q))) = (q \<noteq> 0)"
| "truthy (Some (JNum PosInf)) = True"
| "truthy (Some (JNum NegInf)) = True"
| "truthy (Some (JStr s)) = (s \<noteq> [])"
| "truthy (Some (JArr xs)) = True"
| "truthy (Some (JObj kvs)) = True"

section \<open>The evaluator (ai-evaluator.ts)\<close>

record DealEvaluation =
  score :: jsnum
  isGoodDeal :: bool
  reasoning :: "jsval option"
  identifiedProduct :: "jsval option"
  retailPriceRange :: "jsval option"
  condition :: "jsval option"
  marketComparison :: "jsval option"

record ListingForEvaluation =
  e_title :: string
  e_price :: "int option"
  e_description :: "string option"
  e_imageUrls :: "string list"
  e_query :: string
  e_preferences :: "string option"

record inlineData =
  i_data :: string
  i_mimeType :: string

record http_response =
  r_ok :: bool
  r_body :: string
  r_contentType :: "string option"

text \<open>
  The outside world of the evaluator. \<open>http_fetch\<close> is \<open>fetch\<close> followed by
  \<open>arrayBuffer\<close> (\<open>None\<close>: one of them throws). \<open>generateContent\<close> is the model call followed
  by \<open>result.response.text()\<close> (\<open>None\<close>: one of them throws); the prompt it sends is the
  template filled from the listing, so the reply is a function of the key, the listing and
  the attached images. \<open>JSON_parse\<close> is only ever applied to a text that starts with an
  opening brace, where a parse that succeeds yields an object (\<open>None\<close>: SyntaxError).
\<close>

record ai_env =
  http_fetch :: "string \<Rightarrow> http_response option"
  generateContent :: "string \<Rightarrow> ListingForEvaluation \<Rightarrow> inlineData list \<Rightarrow> string option"
  JSON_parse :: "string \<Rightarrow> jsobject option"
  runtime :: js_runtime

definition fetchImageAsBase64 :: "ai_env \<Rightarrow> string \<Rightarrow> inlineData option" where
  "fetchImageAsBase64 env u =
     (case http_fetch env u of
        None \<Rightarrow> None
      | Some response \<Rightarrow>
          if \<not> r_ok response then None
          else Some \<lparr> i_data = r_body response,
                      i_mimeType = (case r_contentType response of
                                      None \<Rightarrow> ''image/jpeg''
                                    | Some t \<Rightarrow> if t = [] then ''image/jpeg'' else t) \<rparr>)"

text \<open>
  \<open>String.prototype.trim\<close>: the white space and the line terminators with a code below
  256 are the tab, the line feed, the vertical tab, the form feed, the carriage return,
  the space and the no-break space.
\<close>

definition is_space :: "char \<Rightarrow> bool" where
  "is_space c = (c \<in> set [CHR 0x09, CHR 0x0A, CHR 0x0B, CHR 0x0C, CHR 0x0D, CHR 0x20, CHR 0xA0])"

definition trim :: "string \<Rightarrow> string" where
  "trim s = rev (dropWhile is_space (rev (dropWhile is_space s)))"

text \<open>
  \<open>text.match(/\{[\s\S]*\}/)\<close>: the match starts at the first opening brace and, the star
  being greedy, ends at the last closing brace after it; there is no match when no closing
  brace follows the first opening one.
\<close>

definition match_json :: "string \<Rightarrow> string option" where
  "match_json text =
     (let from_brace = dropWhile (\<lambda>c. c \<noteq> CHR ''{'') text
      in if from_brace = [] then None
         else if CHR ''}'' \<in> set (tl from_brace)
         then Some (rev (dropWhile (\<lambda>c. c \<noteq> CHR ''}'') (rev from_brace)))
         else None)"

definition fallbackEvaluation :: DealEvaluation where
  "fallbackEvaluation =
     \<lparr> score = Fin 50,
       isGoodDeal = False,
       reasoning = Some (JStr ''Unable to evaluate automatically.''),
       identifiedProduct = Some JNull,
       retailPriceRange = Some JNull,
       condition = Some (JStr ''unknown''),
       marketComparison = Some (JStr ''Unable to compare.'') \<rparr>"

text \<open>The reply of the model: the first statements of the \<open>try\<close> block.\<close>

definition responseText :: "ai_env \<Rightarrow> ListingForEvaluation \<Rightarrow> string \<Rightarrow> error + string" where
  "responseText env listing apiKey =
     (let images = List.map_filter (fetchImageAsBase64 env) (take 2 (e_imageUrls listing))
      in case generateContent env apiKey listing images of
           None \<Rightarrow> Inl ModelCallError
         | Some raw \<Rightarrow> Inr (trim raw))"

text \<open>The JSON object found in the reply, or the error thrown on the way to it.\<close>

definition extractJson :: "ai_env \<Rightarrow> string \<Rightarrow> error + jsobject" where
  "extractJson env text =
     (case match_json text of
        None \<Rightarrow> Inl NoJsonInResponse
      | Some jsonMatch \<Rightarrow>
          (case JSON_parse env jsonMatch of
             None \<Rightarrow> Inl JsonSyntaxError
           | Some evaluation \<Rightarrow> Inr evaluation))"

text \<open>
  The post-processing: the two assignments to \<open>evaluation.score\<close> and
  \<open>evaluation.isGoodDeal\<close>; every other property is returned as it was parsed.
  \<open>Math.round\<close> converts its argument to a number first, and throws when the conversion
  does.
\<close>

definition postProcess :: "js_runtime \<Rightarrow> jsobject \<Rightarrow> error + DealEvaluation" where
  "postProcess rt evaluation =
     (case ToNumber rt (map_of evaluation ''score'') of
        Inl e \<Rightarrow> Inl e
      | Inr n \<Rightarrow>
          (let score1 = Math_max (Fin 1) (Math_min (Fin 100) (Math_round n))
           in Inr \<lparr> score = score1,
                    isGoodDeal = js_ge score1 (Fin 70),
                    reasoning = map_of evaluation ''reasoning'',
                    identifiedProduct = map_of evaluation ''identifiedProduct'',
                    retailPriceRange = map_of evaluation ''retailPriceRange'',
                    condition = map_of evaluation ''condition'',
                    marketComparison = map_of evaluation ''marketComparison'' \<rparr>))"

text \<open>
  The \<open>try\<close> block. The statements before it, which build the client and fill the prompt,
  do not throw.
\<close>

definition evaluateListing_try :: "ai_env \<Rightarrow> ListingForEvaluation \<Rightarrow> string \<Rightarrow> error + DealEvaluation" where
  "evaluateListing_try env listing apiKey =
     (case responseText env listing apiKey of
        Inl e \<Rightarrow> Inl e
      | Inr text \<Rightarrow>
          (case extractJson env text of
             Inl e \<Rightarrow> Inl e
           | Inr evaluation \<Rightarrow> postProcess (runtime env) evaluation))"

text \<open>The \<open>catch\<close> clause turns every error of the \<open>try\<close> block into the fallback.\<close>

definition evaluateListing :: "ai_env \<Rightarrow> ListingForEvaluation \<Rightarrow> string \<Rightarrow> DealEvaluation" where
  "evaluateListing env listing apiKey =
     (case evaluateListing_try env listing apiKey of
        Inl e \<Rightarrow> fallbackEvaluation
      | Inr evaluation \<Rightarrow> evaluation)"

text \<open>The five labels that the prompt offers for \<open>condition\<close>.\<close>

definition condition_labels :: "string list" where
  "condition_labels = [''excellent'', ''good'', ''fair'', ''poor'', ''unknown'']"

definition is_condition_label :: "jsval option \<Rightarrow> bool" where
  "is_condition_label c = (case c of Some (JStr s) \<Rightarrow> s \<in> set condition_labels | _ \<Rightarrow> False)"

definition is_score_1_100 :: "jsnum \<Rightarrow> bool" where
  "is_score_1_100 n = (case n of Fin q \<Rightarrow> of_int \<lfloor>q\<rfloor> = q \<and> 1 \<le> q \<and> q \<le> 100 | _ \<Rightarrow> False)"

section \<open>The acquisition adapter (craigslist.ts)\<close>

definition ZIP_TO_REGION :: "(string \<times> string) list" where
  "ZIP_TO_REGION =
   [(''940'', ''sfbay''), (''941'', ''sfbay''), (''942'', ''sfbay''), (''943'', ''sfbay''), (''944'', ''sfbay''),
    (''945'', ''sfbay''), (''946'', ''sfbay''), (''947'', ''sfbay''), (''948'', ''sfbay''), (''949'', ''sfbay''),
    (''950'', ''sfbay''), (''951'', ''inlandempire''), (''952'', ''inlandempire''),
    (''900'', ''losangeles''), (''901'', ''losangeles''), (''902'', ''losangeles''), (''903'', ''losangeles''),
    (''904'', ''losangeles''), (''905'', ''losangeles''), (''906'', ''losangeles''), (''907'', ''losangeles''),
    (''908'', ''losangeles''), (''910'', ''losangeles''), (''911'', ''losangeles''), (''912'', ''losangeles''),
    (''913'', ''losangeles''), (''914'', ''losangeles''), (''915'', ''losangeles''), (''916'', ''losangeles''),
    (''917'', ''losangeles''), (''918'', ''losangeles''), (''920'', ''sandiego''), (''921'', ''sandiego''),
    (''922'', ''sandiego''), (''958'', ''sacramento''), (''959'', ''sacramento''), (''956'', ''sacramento''),
    (''100'', ''newyork''), (''101'', ''newyork''), (''102'', ''newyork''), (''103'', ''newyork''),
    (''104'', ''newyork''), (''110'', ''newyork''), (''111'', ''newyork''), (''112'', ''newyork''),
    (''113'', ''newyork''), (''114'', ''newyork''),
    (''750'', ''dallas''), (''751'', ''dallas''), (''752'', ''dallas''), (''753'', ''dallas''),
    (''770'', ''houston''), (''771'', ''houston''), (''772'', ''houston''), (''773'', ''houston''),
    (''774'', ''houston''), (''775'', ''houston''), (''787'', ''austin''), (''786'', ''austin''),
    (''606'', ''chicago''), (''607'', ''chicago''), (''608'', ''chicago''), (''600'', ''chicago''),
    (''980'', ''seattle''), (''981'', ''seattle''), (''982'', ''seattle''), (''983'', ''seattle''),
    (''984'', ''seattle''),
    (''802'', ''denver''), (''803'', ''denver''), (''804'', ''denver''), (''800'', ''denver''), (''801'', ''denver''),
    (''021'', ''boston''), (''022'', ''boston''), (''020'', ''boston''), (''024'', ''boston''),
    (''303'', ''atlanta''), (''300'', ''atlanta''), (''301'', ''atlanta''), (''302'', ''atlanta''),
    (''331'', ''miami''), (''330'', ''miami''), (''332'', ''miami''), (''333'', ''miami''),
    (''850'', ''phoenix''), (''851'', ''phoenix''), (''852'', ''phoenix''), (''853'', ''phoenix''),
    (''481'', ''detroit''), (''482'', ''detroit''), (''480'', ''detroit''), (''483'', ''detroit''),
    (''191'', ''philadelphia''), (''190'', ''philadelphia''), (''192'', ''philadelphia''),
    (''972'', ''portland''), (''970'', ''portland''), (''971'', ''portland''), (''973'', ''portland''),
    (''554'', ''minneapolis''), (''553'', ''minneapolis''), (''550'', ''minneapolis''), (''551'', ''minneapolis'')]"

definition CATEGORY_MAP :: "(string \<times> string) list" where
  "CATEGORY_MAP =
   [(''bicycle'', ''bia''), (''bike'', ''bia''), (''car'', ''cta''), (''auto'', ''cta''),
    (''furniture'', ''fua''), (''electronics'', ''ela''), (''computer'', ''sya''),
    (''laptop'', ''sya''), (''phone'', ''moa''), (''motorcycle'', ''mca''), (''default'', ''sss'')]"

definition getRegionFromZipcode :: "string \<Rightarrow> string" where
  "getRegionFromZipcode zipcode =
     (let prefix3 = take 3 zipcode
      in case map_of ZIP_TO_REGION prefix3 of None \<Rightarrow> ''sfbay'' | Some region \<Rightarrow> region)"

text \<open>
  \<open>toLowerCase\<close>: the capital letters with a code below 256 are \<open>A\<close> to \<open>Z\<close> and the
  accented capitals from code C0 to DE, the multiplication sign D7 apart; the small letter
  of each is 32 codes further. \<open>includes\<close> is the substring test.
\<close>

definition capitals :: string where
  "capitals = ''ABCDEFGHIJKLMNOPQRSTUVWXYZ''
     @ [CHR 0xC0, CHR 0xC1, CHR 0xC2, CHR 0xC3, CHR 0xC4, CHR 0xC5, CHR 0xC6, CHR 0xC7,
        CHR 0xC8, CHR 0xC9, CHR 0xCA, CHR 0xCB, CHR 0xCC, CHR 0xCD, CHR 0xCE, CHR 0xCF,
        CHR 0xD0, CHR 0xD1, CHR 0xD2, CHR 0xD3, CHR 0xD4, CHR 0xD5, CHR 0xD6, CHR 0xD8,
        CHR 0xD9, CHR 0xDA, CHR 0xDB, CHR 0xDC, CHR 0xDD, CHR 0xDE]"

definition smalls :: string where
  "smalls = ''abcdefghijklmnopqrstuvwxyz''
     @ [CHR 0xE0, CHR 0xE1, CHR 0xE2, CHR 0xE3, CHR 0xE4, CHR 0xE5, CHR 0xE6, CHR 0xE7,
        CHR 0xE8, CHR 0xE9, CHR 0xEA, CHR 0xEB, CHR 0xEC, CHR 0xED, CHR 0xEE, CHR 0xEF,
        CHR 0xF0, CHR 0xF1, CHR 0xF2, CHR 0xF3, CHR 0xF4, CHR 0xF5, CHR 0xF6, CHR 0xF8,
        CHR 0xF9, CHR 0xFA, CHR 0xFB, CHR 0xFC, CHR 0xFD, CHR 0xFE]"

definition lower_char :: "char \<Rightarrow> char" where
  "lower_char c = (case map_of (zip capitals smalls) c of Some l \<Rightarrow> l | None \<Rightarrow> c)"

definition toLowerCase :: "string \<Rightarrow> string" where
  "toLowerCase s = map lower_char s"

definition startsWith :: "string \<Rightarrow> string \<Rightarrow> bool" where
  "startsWith s k = (take (length k) s = k)"

fun str_includes :: "string \<Rightarrow> string \<Rightarrow> bool" where
  "str_includes [] k = (k = [])"
| "str_includes (c # cs) k = (startsWith (c # cs) k \<or> str_includes cs k)"

text \<open>The loop over the entries of the table, in the order they were written.\<close>

fun firstCategory :: "string \<Rightarrow> (string \<times> string) list \<Rightarrow> string option" where
  "firstCategory lowerQuery [] = None"
| "firstCategory lowerQuery ((keyword, category) # rest) =
     (if str_includes lowerQuery keyword then Some category else firstCategory lowerQuery rest)"

definition getCategoryFromQuery :: "string \<Rightarrow> string" where
  "getCategoryFromQuery query =
     (case firstCategory (toLowerCase query) CATEGORY_MAP of
        Some category \<Rightarrow> category
      | None \<Rightarrow> ''sss'')"

text \<open>
  The options object. The orchestrator passes prices in whole currency units, the stored
  subunits divided by 100, so a bound is a rational. \<open>None\<close> is \<open>undefined\<close>.
\<close>

record search_options =
  o_minPrice :: "rat option"
  o_maxPrice :: "rat option"
  o_radius :: "rat option"
  o_limit :: "nat option"

text \<open>
  A query parameter is a text, or the decimal rendering \<open>n.toString()\<close> of a number, kept
  as the number. The search URL is kept in its parts: it is rendered as
  \<open>https://{region}.craigslist.org/search/{category}?{params}\<close>.
\<close>

datatype param = Text string | Number rat

record search_url =
  u_region :: string
  u_category :: string
  u_params :: "(string \<times> param) list"

text \<open>A number under \<open>||\<close> or \<open>if\<close>: \<open>undefined\<close> and 0 are falsy.\<close>

definition given :: "rat option \<Rightarrow> bool" where
  "given x = (case x of None \<Rightarrow> False | Some q \<Rightarrow> q \<noteq> 0)"

definition buildSearchUrl :: "string \<Rightarrow> string \<Rightarrow> search_options option \<Rightarrow> search_url" where
  "buildSearchUrl query zipcode options =
     (let region = getRegionFromZipcode zipcode;
          category = getCategoryFromQuery query;
          radius = (case options of None \<Rightarrow> None | Some opts \<Rightarrow> o_radius opts);
          minPrice = (case options of None \<Rightarrow> None | Some opts \<Rightarrow> o_minPrice opts);
          maxPrice = (case options of None \<Rightarrow> None | Some opts \<Rightarrow> o_maxPrice opts);
          params0 = [(''query'', Text query),
                     (''postal'', Text zipcode),
                     (''search_distance'', Number (if given radius then the radius else 25)),
                     (''sort'', Text ''date''),
                     (''postedToday'', Text ''1'')];
          params1 = (if given minPrice
                     then AList.update ''min_price'' (Number (the minPrice)) params0 else params0);
          params2 = (if given maxPrice
                     then AList.update ''max_price'' (Number (the maxPrice)) params1 else params1)
      in \<lparr> u_region = region, u_category = category, u_params = params2 \<rparr>)"

text \<open>
  \<open>extractListingId\<close>: the first place where a slash is followed by digits and
  \<open>.html\<close> gives the digits; without such a place the URL itself is the identifier.
\<close>

definition is_digit :: "char \<Rightarrow> bool" where
  "is_digit c = (c \<in> set ''0123456789'')"

fun numericSegment :: "string \<Rightarrow> string option" where
  "numericSegment [] = None"
| "numericSegment (c # cs) =
     (if c = CHR ''/'' \<and> takeWhile is_digit cs \<noteq> []
         \<and> startsWith (dropWhile is_digit cs) ''.html''
      then Some (takeWhile is_digit cs)
      else numericSegment cs)"

definition extractListingId :: "string \<Rightarrow> string" where
  "extractListingId u = (case numericSegment u of Some d \<Rightarrow> d | None \<Rightarrow> u)"

record CraigslistListing =
  c_externalId :: string
  c_title :: string
  c_price :: "int option"
  c_url :: string
  c_description :: "string option"
  c_imageUrl :: "string option"
  c_imageUrls :: "string list"
  c_location :: "string option"
  c_postedAt :: "string option"

text \<open>
  A row as the callback of \<open>$$eval\<close> extracts it from the results page; the price is the
  parsed whole number of currency units (\<open>None\<close>: no price was found). Text that is missing
  is the empty string or \<open>null\<close>, as the callback leaves it. A price is kept as the integer
  it is: the numbers of the code are doubles, on which the conversion to subunits is exact
  as long as the result stays below \<open>2^53\<close>, and the results here are for such prices. The
  time of posting is kept as the text of the \<open>datetime\<close> attribute, from which the code
  builds its \<open>Date\<close>.
\<close>

record basic_listing =
  b_url :: string
  b_title :: string
  b_price :: "int option"
  b_imageUrl :: "string option"
  b_location :: "string option"
  b_dateStr :: "string option"

record listing_details =
  d_description :: string
  d_imageUrls :: "string list"

text \<open>
  The browser. \<open>launchFails\<close>: \<open>chromium.launch\<close> throws; \<open>newContextFails\<close>: creating the
  context or the page throws; \<open>gotoFails\<close> and \<open>selectorFails\<close>: the navigation to the search
  page times out, the results selector never appears; \<open>resultRows\<close>: the rows of the
  results page (\<open>None\<close>: the extraction throws); \<open>detailPage\<close>: the description and images
  of a posting (\<open>None\<close>: the detail page could not be loaded). Closing the context and the
  browser, and the pause after each posting, always succeed.
\<close>

record browser_env =
  launchFails :: bool
  newContextFails :: bool
  gotoFails :: "search_url \<Rightarrow> bool"
  selectorFails :: "search_url \<Rightarrow> bool"
  resultRows :: "search_url \<Rightarrow> basic_listing list option"
  detailPage :: "string \<Rightarrow> listing_details option"

definition fetchListingDetails :: "browser_env \<Rightarrow> string \<Rightarrow> listing_details" where
  "fetchListingDetails b listingUrl =
     (case detailPage b listingUrl of
        None \<Rightarrow> \<lparr> d_description = [], d_imageUrls = [] \<rparr>
      | Some details \<Rightarrow> details)"

text \<open>A text under \<open>||\<close>: \<open>null\<close>, \<open>undefined\<close> and the empty string are falsy.\<close>

definition nonempty :: "string option \<Rightarrow> bool" where
  "nonempty x = (case x of None \<Rightarrow> False | Some t \<Rightarrow> t \<noteq> [])"

definition firstImage :: "listing_details \<Rightarrow> string option" where
  "firstImage details = (case d_imageUrls details of [] \<Rightarrow> None | i # rest \<Rightarrow> Some i)"

text \<open>What one row of the results becomes, once its details are fetched.\<close>

definition toListing :: "browser_env \<Rightarrow> string \<Rightarrow> basic_listing \<Rightarrow> CraigslistListing" where
  "toListing b zipcode basic =
     (let fullUrl = (if startsWith (b_url basic) ''http'' then b_url basic
                     else ''https://'' @ getRegionFromZipcode zipcode @ ''.craigslist.org'' @ b_url basic);
          details = fetchListingDetails b fullUrl
      in \<lparr> c_externalId = extractListingId (b_url basic),
           c_title = b_title basic,
           c_price = (case b_price basic of None \<Rightarrow> None
                      | Some p \<Rightarrow> if p = 0 then None else Some (p * 100)),
           c_url = fullUrl,
           c_description = (if d_description details = [] then None else Some (d_description details)),
           c_imageUrl = (if nonempty (b_imageUrl basic) then b_imageUrl basic
                         else if nonempty (firstImage details) then firstImage details
                         else None),
           c_imageUrls = d_imageUrls details,
           c_location = b_location basic,
           c_postedAt = b_dateStr basic \<rparr>)"

fun collectListings :: "browser_env \<Rightarrow> string \<Rightarrow> basic_listing list \<Rightarrow> CraigslistListing list" where
  "collectListings b zipcode [] = []"
| "collectListings b zipcode (basic # rest) =
     (if b_url basic = [] \<or> b_title basic = [] then collectListings b zipcode rest
      else toListing b zipcode basic # collectListings b zipcode rest)"

text \<open>The statements of the \<open>try\<close> block up to the extraction of the rows.\<close>

datatype page_error = NavigationTimeout | SelectorTimeout | ExtractionError

definition searchPageRows :: "browser_env \<Rightarrow> search_url \<Rightarrow> nat \<Rightarrow> page_error + basic_listing list" where
  "searchPageRows b searchUrl limit =
     (if gotoFails b searchUrl then Inl NavigationTimeout
      else if selectorFails b searchUrl then Inl SelectorTimeout
      else case resultRows b searchUrl of
             None \<Rightarrow> Inl ExtractionError
           | Some elements \<Rightarrow> Inr (take limit elements))"
section \<open>Persistence, notifier and the world\<close>

record User =
  u_email :: string
  u_name :: "string option"

text \<open>A search as \<open>findUnique\<close> and \<open>findMany\<close> return it, with its user included.\<close>

record Search =
  s_id :: string
  s_query :: string
  s_zipcode :: string
  s_maxPrice :: "int option"
  s_minPrice :: "int option"
  s_isActive :: bool
  s_lastChecked :: "nat option"
  s_preferences :: "string option"
  s_user :: User

text \<open>
  A row of the \<open>Listing\<close> table, without the generated \<open>id\<close> and \<open>createdAt\<close>. The columns
  filled from the evaluation hold what the evaluation holds.
\<close>

record Listing =
  l_searchId :: string
  l_externalId :: string
  l_title :: string
  l_price :: "int option"
  l_url :: string
  l_description :: "string option"
  l_imageUrl :: "string option"
  l_location :: "string option"
  l_postedAt :: "string option"
  l_dealScore :: jsnum
  l_dealReason :: string
  l_isGoodDeal :: bool
  l_alertSent :: bool
  l_identifiedProduct :: "jsval option"
  l_retailPriceLow :: "jsval option"
  l_retailPriceHigh :: "jsval option"
  l_condition :: "jsval option"

record DealAlert =
  a_title :: string
  a_price :: "int option"
  a_url :: string
  a_dealScore :: jsnum
  a_reasoning :: "jsval option"
  a_imageUrl :: "string option"
  a_identifiedProduct :: "jsval option"
  a_retailPriceRange :: "jsval option"
  a_condition :: "jsval option"
  a_marketComparison :: "jsval option"

record AlertEmailParams =
  p_recipientEmail :: string
  p_recipientName :: "string option"
  p_searchQuery :: string
  p_zipcode :: string
  p_deals :: "DealAlert list"

datatype send_outcome = Delivered | ProviderError | SendThrows

datatype db_call =
    SearchFindUnique string
  | SearchFindMany
  | SearchUpdate string
  | ListingFindUnique string string
  | ListingCreate Listing
  | ListingUpdateMany string

text \<open>
  Everything outside the process. \<open>dbFault\<close> tells which calls of the persistence layer
  throw (a lost connection, a row rejected by the layer's validation). \<open>now\<close> is the
  reading of the clock when the \<open>lastChecked\<close> of a search is written.
\<close>

record env =
  GEMINI_API_KEY :: "string option"
  RESEND_API_KEY :: "string option"
  ai :: ai_env
  browser :: browser_env
  dbFault :: "db_call \<Rightarrow> bool"
  resend_send :: "AlertEmailParams \<Rightarrow> send_outcome"
  now :: "string \<Rightarrow> nat"

text \<open>What the process does to the outside, in the order it does it.\<close>

datatype event =
    Navigated search_url
  | Evaluated string string
  | Created Listing
  | LastCheckedSet string
  | Notified AlertEmailParams bool
  | ErrorLogged string error

record world =
  searches :: "Search list"
  listings :: "Listing list"
  browserInstance :: bool
  trace :: "event list"

definition emit :: "event \<Rightarrow> world \<Rightarrow> world" where
  "emit ev w = w\<lparr> trace := trace w @ [ev] \<rparr>"

subsection \<open>The browser singleton and the search page\<close>

definition getBrowser :: "browser_env \<Rightarrow> world \<Rightarrow> (error + unit) \<times> world" where
  "getBrowser b w =
     (if browserInstance w then (Inr (), w)
      else if launchFails b then (Inl BrowserLaunchError, w)
      else (Inr (), w\<lparr> browserInstance := True \<rparr>))"

definition closeBrowser :: "world \<Rightarrow> world" where
  "closeBrowser w = (if browserInstance w then w\<lparr> browserInstance := False \<rparr> else w)"

definition fetchCraigslistListings ::
  "browser_env \<Rightarrow> string \<Rightarrow> string \<Rightarrow> search_options option \<Rightarrow> world
     \<Rightarrow> (error + CraigslistListing list) \<times> world" where
  "fetchCraigslistListings b query zipcode options w =
     (let searchUrl = buildSearchUrl query zipcode options;
          limit = (case options of None \<Rightarrow> 20
                   | Some opts \<Rightarrow> (case o_limit opts of None \<Rightarrow> 20
                                  | Some n \<Rightarrow> if n = 0 then 20 else n))
      in case getBrowser b w of
           (Inl e, w1) \<Rightarrow> (Inl e, w1)
         | (Inr u, w1) \<Rightarrow>
             if newContextFails b then (Inl BrowserContextError, w1)
             else
               (case searchPageRows b searchUrl limit of
                  Inl e \<Rightarrow> (Inr [], emit (Navigated searchUrl) w1)
                | Inr basicListings \<Rightarrow>
                    (Inr (collectListings b zipcode
                            (take (min 10 (length basicListings)) basicListings)),
                     emit (Navigated searchUrl) w1)))"

subsection \<open>The notifier (email.ts)\<close>

definition unset :: "string option \<Rightarrow> bool" where
  "unset v = (case v of None \<Rightarrow> True | Some k \<Rightarrow> k = [])"

definition sendDealAlertEmail :: "env \<Rightarrow> AlertEmailParams \<Rightarrow> bool" where
  "sendDealAlertEmail env params =
     (if unset (RESEND_API_KEY env) then False
      else case resend_send env params of
             Delivered \<Rightarrow> True
           | ProviderError \<Rightarrow> False
           | SendThrows \<Rightarrow> False)"

subsection \<open>The persistence calls\<close>

definition sameKey :: "string \<Rightarrow> string \<Rightarrow> Listing \<Rightarrow> bool" where
  "sameKey searchId externalId l = (l_searchId l = searchId \<and> l_externalId l = externalId)"

text \<open>
  \<open>prisma.listing.create\<close>. The unique index on \<open>(searchId, externalId)\<close> rejects a second row
  for a pair.
\<close>

definition listing_create :: "env \<Rightarrow> Listing \<Rightarrow> world \<Rightarrow> (error + Listing) \<times> world" where
  "listing_create env row w =
     (if dbFault env (ListingCreate row) then (Inl PersistenceError, w)
      else if find (sameKey (l_searchId row) (l_externalId row)) (listings w) \<noteq> None
      then (Inl UniqueConstraintError, w)
      else (Inr row, emit (Created row) (w\<lparr> listings := listings w @ [row] \<rparr>)))"

definition setLastChecked :: "string \<Rightarrow> nat \<Rightarrow> Search \<Rightarrow> Search" where
  "setLastChecked searchId t s = (if s_id s = searchId then s\<lparr> s_lastChecked := Some t \<rparr> else s)"

text \<open>
  The bulk update: \<open>updateMany\<close> where \<open>searchId\<close> is this search, \<open>isGoodDeal\<close> is true and
  \<open>alertSent\<close> is false.
\<close>

definition markAlerted :: "string \<Rightarrow> Listing \<Rightarrow> Listing" where
  "markAlerted searchId l =
     (if l_searchId l = searchId \<and> l_isGoodDeal l \<and> \<not> l_alertSent l
      then l\<lparr> l_alertSent := True \<rparr> else l)"

section \<open>The scan orchestrator (scheduler.ts)\<close>

record scan_counts =
  newListings :: nat
  goodDeals :: nat
  alertsSent :: nat

record loop_state =
  n_newListings :: nat
  n_goodDeals :: nat
  dealsToAlert :: "DealAlert list"

definition zero_counts :: scan_counts where
  "zero_counts = \<lparr> newListings = 0, goodDeals = 0, alertsSent = 0 \<rparr>"

text \<open>The options that \<open>processSearch\<close> hands to the acquisition adapter.\<close>

definition fromCents :: "int option \<Rightarrow> rat option" where
  "fromCents p = (case p of None \<Rightarrow> None
                  | Some c \<Rightarrow> if c = 0 then None else Some (of_int c / 100))"

definition searchOptions :: "Search \<Rightarrow> search_options" where
  "searchOptions search =
     \<lparr> o_minPrice = fromCents (s_minPrice search),
       o_maxPrice = fromCents (s_maxPrice search),
       o_radius = None,
       o_limit = Some 15 \<rparr>"

text \<open>
  \<open>[evaluation.reasoning, evaluation.marketComparison].filter(Boolean).join(' ')\<close>: the
  values that are truthy, each converted to a string. The conversion of an object can
  throw.
\<close>

definition dealReasonOf :: "js_runtime \<Rightarrow> DealEvaluation \<Rightarrow> error + string" where
  "dealReasonOf rt evaluation =
     Array_join rt '' ''
       (List.map_filter (\<lambda>v. if truthy v then v else None)
          [reasoning evaluation, marketComparison evaluation])"

text \<open>\<open>evaluation.retailPriceRange?.low || null\<close>, and the same for \<open>high\<close>.\<close>

definition rangeBound :: "string \<Rightarrow> jsval option \<Rightarrow> jsval option" where
  "rangeBound k r =
     (case r of
        Some (JObj kvs) \<Rightarrow> if truthy (map_of kvs k) then map_of kvs k else Some JNull
      | _ \<Rightarrow> Some JNull)"

definition forEvaluation :: "Search \<Rightarrow> CraigslistListing \<Rightarrow> ListingForEvaluation" where
  "forEvaluation search listing =
     \<lparr> e_title = c_title listing,
       e_price = c_price listing,
       e_description = c_description listing,
       e_imageUrls = c_imageUrls listing,
       e_query = s_query search,
       e_preferences = (if nonempty (s_preferences search) then s_preferences search else None) \<rparr>"

definition newRow :: "Search \<Rightarrow> CraigslistListing \<Rightarrow> DealEvaluation \<Rightarrow> string \<Rightarrow> Listing" where
  "newRow search listing evaluation dealReason =
     \<lparr> l_searchId = s_id search,
       l_externalId = c_externalId listing,
       l_title = c_title listing,
       l_price = c_price listing,
       l_url = c_url listing,
       l_description = c_description listing,
       l_imageUrl = c_imageUrl listing,
       l_location = c_location listing,
       l_postedAt = c_postedAt listing,
       l_dealScore = score evaluation,
       l_dealReason = dealReason,
       l_isGoodDeal = isGoodDeal evaluation,
       l_alertSent = False,
       l_identifiedProduct = identifiedProduct evaluation,
       l_retailPriceLow = rangeBound ''low'' (retailPriceRange evaluation),
       l_retailPriceHigh = rangeBound ''high'' (retailPriceRange evaluation),
       l_condition = condition evaluation \<rparr>"

definition newAlert :: "Listing \<Rightarrow> DealEvaluation \<Rightarrow> DealAlert" where
  "newAlert savedListing evaluation =
     \<lparr> a_title = l_title savedListing,
       a_price = l_price savedListing,
       a_url = l_url savedListing,
       a_dealScore = l_dealScore savedListing,
       a_reasoning = reasoning evaluation,
       a_imageUrl = l_imageUrl savedListing,
       a_identifiedProduct = identifiedProduct evaluation,
       a_retailPriceRange = retailPriceRange evaluation,
       a_condition = condition evaluation,
       a_marketComparison = marketComparison evaluation \<rparr>"

text \<open>
  The body of the loop over the candidates, for one candidate. The wait that ends it does
  not throw.
\<close>

definition processListing ::
  "env \<Rightarrow> Search \<Rightarrow> string \<Rightarrow> CraigslistListing \<Rightarrow> loop_state \<Rightarrow> world
     \<Rightarrow> (error + loop_state) \<times> world" where
  "processListing env search apiKey listing st w =
     (if dbFault env (ListingFindUnique (s_id search) (c_externalId listing))
      then (Inl PersistenceError, w)
      else case find (sameKey (s_id search) (c_externalId listing)) (listings w) of
        Some existingListing \<Rightarrow> (Inr st, w)
      | None \<Rightarrow>
          (let evaluation = evaluateListing (ai env) (forEvaluation search listing) apiKey;
               w1 = emit (Evaluated (s_id search) (c_externalId listing)) w
           in case dealReasonOf (runtime (ai env)) evaluation of
                Inl e \<Rightarrow> (Inl e, w1)
              | Inr dealReason \<Rightarrow>
                  (case listing_create env (newRow search listing evaluation dealReason) w1 of
                     (Inl e, w2) \<Rightarrow> (Inl e, w2)
                   | (Inr savedListing, w2) \<Rightarrow>
                       (if l_isGoodDeal savedListing
                        then (Inr \<lparr> n_newListings = n_newListings st + 1,
                                    n_goodDeals = n_goodDeals st + 1,
                                    dealsToAlert = dealsToAlert st @ [newAlert savedListing evaluation] \<rparr>,
                              w2)
                        else (Inr (st\<lparr> n_newListings := n_newListings st + 1 \<rparr>), w2)))))"

fun processListings ::
  "env \<Rightarrow> Search \<Rightarrow> string \<Rightarrow> CraigslistListing list \<Rightarrow> loop_state \<Rightarrow> world
     \<Rightarrow> (error + loop_state) \<times> world" where
  "processListings env search apiKey [] st w = (Inr st, w)"
| "processListings env search apiKey (listing # rest) st w =
     (case processListing env search apiKey listing st w of
        (Inl e, w1) \<Rightarrow> (Inl e, w1)
      | (Inr st1, w1) \<Rightarrow> processListings env search apiKey rest st1 w1)"

text \<open>
  What follows the loop: the write of \<open>lastChecked\<close>, the notification and the bulk update.
\<close>

definition finishScan :: "env \<Rightarrow> Search \<Rightarrow> loop_state \<Rightarrow> world \<Rightarrow> (error + scan_counts) \<times> world" where
  "finishScan env search st w =
     (if dbFault env (SearchUpdate (s_id search)) then (Inl PersistenceError, w)
      else
        (let w1 = emit (LastCheckedSet (s_id search))
                    (w\<lparr> searches := map (setLastChecked (s_id search) (now env (s_id search))) (searches w) \<rparr>)
         in if dealsToAlert st \<noteq> []
            then
              (let params = \<lparr> p_recipientEmail = u_email (s_user search),
                              p_recipientName = u_name (s_user search),
                              p_searchQuery = s_query search,
                              p_zipcode = s_zipcode search,
                              p_deals = dealsToAlert st \<rparr>;
                   emailSent = sendDealAlertEmail env params;
                   w2 = emit (Notified params emailSent) w1
               in if emailSent
                  then
                    (if dbFault env (ListingUpdateMany (s_id search)) then (Inl PersistenceError, w2)
                     else (Inr \<lparr> newListings = n_newListings st, goodDeals = n_goodDeals st,
                                 alertsSent = length (dealsToAlert st) \<rparr>,
                           w2\<lparr> listings := map (markAlerted (s_id search)) (listings w2) \<rparr>))
                  else (Inr \<lparr> newListings = n_newListings st, goodDeals = n_goodDeals st,
                              alertsSent = 0 \<rparr>, w2))
            else (Inr \<lparr> newListings = n_newListings st, goodDeals = n_goodDeals st,
                        alertsSent = 0 \<rparr>, w1)))"

definition processSearch :: "env \<Rightarrow> string \<Rightarrow> world \<Rightarrow> (error + scan_counts) \<times> world" where
  "processSearch env searchId w =
     (if dbFault env (SearchFindUnique searchId) then (Inl PersistenceError, w)
      else case find (\<lambda>s. s_id s = searchId) (searches w) of
        None \<Rightarrow> (Inr zero_counts, w)
      | Some search \<Rightarrow>
          if \<not> s_isActive search then (Inr zero_counts, w)
          else
            (case fetchCraigslistListings (browser env) (s_query search) (s_zipcode search)
                    (Some (searchOptions search)) w of
               (Inl e, w1) \<Rightarrow> (Inl e, w1)
             | (Inr candidates, w1) \<Rightarrow>
                 if unset (GEMINI_API_KEY env) then (Inr zero_counts, w1)
                 else
                   (case processListings env search (the (GEMINI_API_KEY env)) candidates
                           \<lparr> n_newListings = 0, n_goodDeals = 0, dealsToAlert = [] \<rparr> w1 of
                      (Inl e, w2) \<Rightarrow> (Inl e, w2)
                    | (Inr st, w2) \<Rightarrow> finishScan env search st w2)))"

subsection \<open>The sweep over all active searches\<close>

record sweep_totals =
  searchesProcessed :: nat
  totalNewListings :: nat
  totalGoodDeals :: nat
  totalAlertsSent :: nat

record running_totals =
  t_newListings :: nat
  t_goodDeals :: nat
  t_alertsSent :: nat

definition addCounts :: "running_totals \<Rightarrow> scan_counts \<Rightarrow> running_totals" where
  "addCounts t result =
     \<lparr> t_newListings = t_newListings t + newListings result,
       t_goodDeals = t_goodDeals t + goodDeals result,
       t_alertsSent = t_alertsSent t + alertsSent result \<rparr>"

text \<open>The loop of \<open>processAllSearches\<close>, with its inner \<open>try\<close> and \<open>catch\<close>.\<close>

fun sweep :: "env \<Rightarrow> Search list \<Rightarrow> running_totals \<Rightarrow> world \<Rightarrow> running_totals \<times> world" where
  "sweep env [] t w = (t, w)"
| "sweep env (search # rest) t w =
     (case processSearch env (s_id search) w of
        (Inr result, w1) \<Rightarrow> sweep env rest (addCounts t result) w1
      | (Inl e, w1) \<Rightarrow> sweep env rest t (emit (ErrorLogged (s_id search) e) w1))"

definition processAllSearches :: "env \<Rightarrow> world \<Rightarrow> (error + sweep_totals) \<times> world" where
  "processAllSearches env w =
     (if dbFault env SearchFindMany then (Inl PersistenceError, w)
      else
        (let activeSearches = filter s_isActive (searches w)
         in case sweep env activeSearches
                   \<lparr> t_newListings = 0, t_goodDeals = 0, t_alertsSent = 0 \<rparr> w of
              (t, w1) \<Rightarrow>
                (Inr \<lparr> searchesProcessed = length activeSearches,
                       totalNewListings = t_newListings t,
                       totalGoodDeals = t_goodDeals t,
                       totalAlertsSent = t_alertsSent t \<rparr>,
                 closeBrowser w1)))"

text \<open>
  The outcome of every scan of a sweep, in order: what \<open>processSearch\<close> returned or threw
  for each search, each scan starting in the world that the scans before it left.
\<close>

fun sweepOutcomes :: "env \<Rightarrow> Search list \<Rightarrow> world \<Rightarrow> (error + scan_counts) list" where
  "sweepOutcomes env [] w = []"
| "sweepOutcomes env (search # rest) w =
     (case processSearch env (s_id search) w of
        (Inr result, w1) \<Rightarrow> Inr result # sweepOutcomes env rest w1
      | (Inl e, w1) \<Rightarrow> Inl e # sweepOutcomes env rest (emit (ErrorLogged (s_id search) e) w1))"

definition countsOf :: "error + scan_counts \<Rightarrow> scan_counts" where
  "countsOf r = (case r of Inl e \<Rightarrow> zero_counts | Inr result \<Rightarrow> result)"

section \<open>Observing a run\<close>

text \<open>The pairs \<open>(searchId, externalId)\<close> of rows: the key of the unique index.\<close>

definition keysOf :: "Listing list \<Rightarrow> (string \<times> string) list" where
  "keysOf rows = map (\<lambda>l. (l_searchId l, l_externalId l)) rows"

text \<open>The rows inserted, and the candidates sent to the evaluator, in a stretch of trace.\<close>

fun createdRows :: "event list \<Rightarrow> Listing list" where
  "createdRows [] = []"
| "createdRows (Created row # tr) = row # createdRows tr"
| "createdRows (Navigated u # tr) = createdRows tr"
| "createdRows (Evaluated s x # tr) = createdRows tr"
| "createdRows (LastCheckedSet s # tr) = createdRows tr"
| "createdRows (Notified p b # tr) = createdRows tr"
| "createdRows (ErrorLogged s e # tr) = createdRows tr"

fun evaluatedKeys :: "event list \<Rightarrow> (string \<times> string) list" where
  "evaluatedKeys [] = []"
| "evaluatedKeys (Evaluated s x # tr) = (s, x) # evaluatedKeys tr"
| "evaluatedKeys (Created row # tr) = evaluatedKeys tr"
| "evaluatedKeys (Navigated u # tr) = evaluatedKeys tr"
| "evaluatedKeys (LastCheckedSet s # tr) = evaluatedKeys tr"
| "evaluatedKeys (Notified p b # tr) = evaluatedKeys tr"
| "evaluatedKeys (ErrorLogged s e # tr) = evaluatedKeys tr"

text \<open>The events of one scan: what it appends to the trace.\<close>

definition scanEvents :: "env \<Rightarrow> string \<Rightarrow> world \<Rightarrow> event list" where
  "scanEvents env searchId w = drop (length (trace w)) (trace (snd (processSearch env searchId w)))"

definition hasParam :: "string \<Rightarrow> search_url \<Rightarrow> bool" where
  "hasParam k u = (map_of (u_params u) k \<noteq> None)"

definition isLoopEvent :: "event \<Rightarrow> bool" where
  "isLoopEvent ev = (case ev of Evaluated s x \<Rightarrow> True | Created row \<Rightarrow> True | _ \<Rightarrow> False)"

text \<open>What a row and the alert built from it have in common.\<close>

definition rowHead :: "Listing \<Rightarrow> string \<times> int option \<times> string \<times> jsnum \<times> string option" where
  "rowHead l = (l_title l, l_price l, l_url l, l_dealScore l, l_imageUrl l)"

definition alertHead :: "DealAlert \<Rightarrow> string \<times> int option \<times> string \<times> jsnum \<times> string option" where
  "alertHead a = (a_title a, a_price a, a_url a, a_dealScore a, a_imageUrl a)"

text \<open>
  What the loop over the candidates \<open>cs\<close> does between the world \<open>w\<close> and the world \<open>w'\<close>,
  \<open>tr\<close> being the events it appends: it only inserts rows, of this search and not yet
  alerted, for pairs that had no row, each pair once, and it evaluates no candidate whose
  pair had a row and no pair twice. When the loop ends without throwing, its counters count
  the rows inserted, and every candidate has a row.
\<close>

definition loopSummary ::
  "string \<Rightarrow> CraigslistListing list \<Rightarrow> loop_state \<Rightarrow> world \<Rightarrow> error + loop_state \<Rightarrow> world
     \<Rightarrow> event list \<Rightarrow> bool" where
  "loopSummary sid cs st w r w' tr =
     (trace w' = trace w @ tr \<and> listings w' = listings w @ createdRows tr
      \<and> searches w' = searches w \<and> browserInstance w' = browserInstance w
      \<and> distinct (keysOf (createdRows tr))
      \<and> set (keysOf (createdRows tr)) \<inter> set (keysOf (listings w)) = {}
      \<and> set (evaluatedKeys tr) \<inter> set (keysOf (listings w)) = {}
      \<and> (\<forall>row \<in> set (createdRows tr). l_searchId row = sid \<and> \<not> l_alertSent row)
      \<and> (\<forall>ev \<in> set tr. isLoopEvent ev)
      \<and> distinct (evaluatedKeys tr)
      \<and> (\<forall>st'. r = Inr st' \<longrightarrow>
             n_newListings st' = n_newListings st + length (createdRows tr)
           \<and> n_goodDeals st' = n_goodDeals st + length (filter l_isGoodDeal (createdRows tr))
           \<and> map alertHead (dealsToAlert st')
                = map alertHead (dealsToAlert st) @ map rowHead (filter l_isGoodDeal (createdRows tr))
           \<and> (\<forall>c \<in> set cs. (sid, c_externalId c) \<in> set (keysOf (listings w')))))"

section \<open>Sample worlds\<close>

subsection \<open>Of the evaluator\<close>

definition no_runtime :: js_runtime where
  "no_runtime = \<lparr> StringToNumber = (\<lambda>s. NaN), NumberToString = (\<lambda>n. []) \<rparr>"

text \<open>A model that answers \<open>reply\<close>, whose JSON text \<open>src\<close> parses to \<open>obj\<close>.\<close>

definition replying :: "string \<Rightarrow> string \<Rightarrow> jsobject \<Rightarrow> ai_env" where
  "replying reply src obj =
     \<lparr> http_fetch = (\<lambda>u. None),
       generateContent = (\<lambda>k l imgs. Some reply),
       JSON_parse = (\<lambda>s. if s = src then Some obj else None),
       runtime = no_runtime \<rparr>"

definition model_down :: ai_env where
  "model_down =
     \<lparr> http_fetch = (\<lambda>u. None),
       generateContent = (\<lambda>k l imgs. None),
       JSON_parse = (\<lambda>s. None),
       runtime = no_runtime \<rparr>"

definition sample_listing :: ListingForEvaluation where
  "sample_listing =
     \<lparr> e_title = ''Trek road bike'', e_price = Some 45000, e_description = None,
       e_imageUrls = [], e_query = ''bicycle'', e_preferences = None \<rparr>"

text \<open>Replies of the model used as examples, each with the object it parses to.\<close>

definition reply60 :: string where
  \<open>reply60 = ''{"score": 60, "isGoodDeal": true}''\<close>

definition obj60 :: jsobject where
  "obj60 = [(''score'', JNum (Fin 60)), (''isGoodDeal'', JBool True)]"

definition reply_no_score :: string where
  \<open>reply_no_score = ''{"isGoodDeal": true, "condition": "good"}''\<close>

definition obj_no_score :: jsobject where
  "obj_no_score = [(''isGoodDeal'', JBool True), (''condition'', JStr ''good'')]"

definition reply_mint :: string where
  \<open>reply_mint = ''Here you go: {"score": 80, "condition": "mint"} Hope it helps.''\<close>

definition src_mint :: string where
  \<open>src_mint = ''{"score": 80, "condition": "mint"}''\<close>

definition obj_mint :: jsobject where
  "obj_mint = [(''score'', JNum (Fin 80)), (''condition'', JStr ''mint'')]"


definition reply_odd :: string where
  \<open>reply_odd = ''{"score": {"toString": 1}, "isGoodDeal": true, "condition": "mint"}''\<close>

definition obj_odd :: jsobject where
  "obj_odd = [(''score'', JObj [(''toString'', JNum (Fin 1))]), (''isGoodDeal'', JBool True),
              (''condition'', JStr ''mint'')]"

subsection \<open>Of the orchestrator\<close>

definition reply80 :: string where
  \<open>reply80 = ''{"score": 80, "isGoodDeal": false, "condition": "good"}''\<close>

definition obj80 :: jsobject where
  "obj80 = [(''score'', JNum (Fin 80)), (''isGoodDeal'', JBool False), (''condition'', JStr ''good'')]"

definition sample_user :: User where
  "sample_user = \<lparr> u_email = ''ann@example.org'', u_name = None \<rparr>"

definition sample_search :: "string \<Rightarrow> Search" where
  "sample_search sid =
     \<lparr> s_id = sid, s_query = ''road bike'', s_zipcode = ''94110'', s_maxPrice = Some 80000,
       s_minPrice = Some 0, s_isActive = True, s_lastChecked = None, s_preferences = None,
       s_user = sample_user \<rparr>"

definition posting :: "string \<Rightarrow> string \<Rightarrow> basic_listing" where
  "posting u t =
     \<lparr> b_url = u, b_title = t, b_price = Some 450, b_imageUrl = None, b_location = None,
       b_dateStr = None \<rparr>"

text \<open>A browser that shows the given rows, and one whose navigation times out.\<close>

definition showing :: "basic_listing list \<Rightarrow> browser_env" where
  "showing rows =
     \<lparr> launchFails = False, newContextFails = False, gotoFails = (\<lambda>u. False),
       selectorFails = (\<lambda>u. False), resultRows = (\<lambda>u. Some rows), detailPage = (\<lambda>u. None) \<rparr>"

definition timing_out :: browser_env where
  "timing_out =
     \<lparr> launchFails = False, newContextFails = False, gotoFails = (\<lambda>u. True),
       selectorFails = (\<lambda>u. False), resultRows = (\<lambda>u. None), detailPage = (\<lambda>u. None) \<rparr>"

text \<open>
  An outside world: the credential of the model, the outcome of every send, the browser.
  The model finds every listing worth a score of 80. One persistence call fails: the
  lookup of the search \<open>s2\<close>.
\<close>

definition outside :: "string option \<Rightarrow> send_outcome \<Rightarrow> browser_env \<Rightarrow> env" where
  "outside key outcome b =
     \<lparr> GEMINI_API_KEY = key, RESEND_API_KEY = Some ''re_key'',
       ai = replying reply80 reply80 obj80, browser = b,
       dbFault = (\<lambda>c. c = SearchFindUnique ''s2''),
       resend_send = (\<lambda>p. outcome), now = (\<lambda>s. 1000) \<rparr>"

text \<open>An outside world with an empty results page where the update of the search \<open>s1\<close> fails.\<close>

definition update_refused :: env where
  "update_refused =
     (outside (Some ''g_key'') Delivered (showing []))\<lparr> dbFault := (\<lambda>c. c = SearchUpdate ''s1'') \<rparr>"

definition world0 :: world where
  "world0 = \<lparr> searches = [sample_search ''s1''], listings = [], browserInstance = False, trace = [] \<rparr>"

definition trek :: basic_listing where
  "trek = posting ''/sfo/bik/d/trek-520/7712345678.html'' ''Trek 520''"

definition fuji :: basic_listing where
  "fuji = posting ''/sfo/bik/d/fuji-touring/7700000001.html'' ''Fuji Touring''"

text \<open>The candidates and rows that the two postings become, for the search \<open>s1\<close>.\<close>

definition candidate :: "string \<Rightarrow> string \<Rightarrow> string \<Rightarrow> CraigslistListing" where
  "candidate x u t =
     \<lparr> c_externalId = x, c_title = t, c_price = Some 45000,
       c_url = ''https://sfbay.craigslist.org'' @ u,
       c_description = None, c_imageUrl = None, c_imageUrls = [], c_location = None,
       c_postedAt = None \<rparr>"

definition stored :: "string \<Rightarrow> string \<Rightarrow> string \<Rightarrow> string \<Rightarrow> bool \<Rightarrow> Listing" where
  "stored sid x u t sent =
     \<lparr> l_searchId = sid, l_externalId = x, l_title = t, l_price = Some 45000,
       l_url = ''https://sfbay.craigslist.org'' @ u,
       l_description = None, l_imageUrl = None, l_location = None, l_postedAt = None,
       l_dealScore = Fin 80, l_dealReason = [], l_isGoodDeal = True, l_alertSent = sent,
       l_identifiedProduct = None, l_retailPriceLow = Some JNull, l_retailPriceHigh = Some JNull,
       l_condition = Some (JStr ''good'') \<rparr>"

definition trek_row :: "bool \<Rightarrow> Listing" where
  "trek_row sent = stored ''s1'' ''7712345678'' ''/sfo/bik/d/trek-520/7712345678.html'' ''Trek 520'' sent"

definition fuji_row :: "bool \<Rightarrow> Listing" where
  "fuji_row sent = stored ''s1'' ''7700000001'' ''/sfo/bik/d/fuji-touring/7700000001.html'' ''Fuji Touring'' sent"

definition alertFor :: "Listing \<Rightarrow> DealAlert" where
  "alertFor l =
     \<lparr> a_title = l_title l, a_price = l_price l, a_url = l_url l, a_dealScore = l_dealScore l,
       a_reasoning = None, a_imageUrl = l_imageUrl l, a_identifiedProduct = None,
       a_retailPriceRange = None, a_condition = Some (JStr ''good''), a_marketComparison = None \<rparr>"

definition mailFor :: "Listing list \<Rightarrow> AlertEmailParams" where
  "mailFor rows =
     \<lparr> p_recipientEmail = ''ann@example.org'', p_recipientName = None,
       p_searchQuery = ''road bike'', p_zipcode = ''94110'', p_deals = map alertFor rows \<rparr>"

definition sample_url :: search_url where
  "sample_url =
     \<lparr> u_region = ''sfbay'', u_category = ''bia'',
       u_params = [(''query'', Text ''road bike''), (''postal'', Text ''94110''),
                   (''search_distance'', Number 25), (''sort'', Text ''date''),
                   (''postedToday'', Text ''1''), (''max_price'', Number 800)] \<rparr>"

text \<open>
  The world after a first scan that found the Trek (twice on the page) while the mail
  provider refused the message, and after a second scan that found the Fuji and the Trek
  and whose message was delivered.
\<close>

definition world1 :: world where
  "world1 =
     \<lparr> searches = [(sample_search ''s1'')\<lparr> s_lastChecked := Some 1000 \<rparr>],
       listings = [trek_row False],
       browserInstance = True,
       trace = [Navigated sample_url, Evaluated ''s1'' ''7712345678'', Created (trek_row False),
                LastCheckedSet ''s1'', Notified (mailFor [trek_row False]) False] \<rparr>"

definition world2 :: world where
  "world2 =
     \<lparr> searches = [(sample_search ''s1'')\<lparr> s_lastChecked := Some 1000 \<rparr>],
       listings = [trek_row True, fuji_row True],
       browserInstance = True,
       trace = trace world1
         @ [Navigated sample_url, Evaluated ''s1'' ''7700000001'', Created (fuji_row False),
            LastCheckedSet ''s1'', Notified (mailFor [fuji_row False]) True] \<rparr>"

text \<open>Three searches, of which the second cannot be looked up.\<close>

definition world3 :: world where
  "world3 =
     \<lparr> searches = [sample_search ''s1'', sample_search ''s2'', sample_search ''s3''],
       listings = [], browserInstance = False, trace = [] \<rparr>"

text \<open>The world after a scan that found the Trek for the search, and had its message delivered.\<close>

definition scanned :: "string \<Rightarrow> world \<Rightarrow> world" where
  "scanned sid w =
     w\<lparr> searches := map (setLastChecked sid 1000) (searches w),
        listings := map (markAlerted sid)
                      (listings w @ [stored sid ''7712345678'' ''/sfo/bik/d/trek-520/7712345678.html''
                                       ''Trek 520'' False]),
        browserInstance := True,
        trace := trace w
          @ [Navigated sample_url, Evaluated sid ''7712345678'',
             Created (stored sid ''7712345678'' ''/sfo/bik/d/trek-520/7712345678.html'' ''Trek 520'' False),
             LastCheckedSet sid,
             Notified (mailFor [stored sid ''7712345678'' ''/sfo/bik/d/trek-520/7712345678.html''
                                  ''Trek 520'' False]) True] \<rparr>"

section \<open>Properties of the text matching\<close>

lemma not_space_brace: "\<not> is_space CHR ''{''" "\<not> is_space CHR ''}''"
  by (simp_all add: is_space_def)

lemma dropWhile_spaces_open:
  "dropWhile (\<lambda>c. c \<noteq> CHR ''{'') (dropWhile is_space s) = dropWhile (\<lambda>c. c \<noteq> CHR ''{'') s"
  by (induction s) (auto simp: not_space_brace)

lemma match_json_leading: "match_json (dropWhile is_space s) = match_json s"
  by (simp add: match_json_def dropWhile_spaces_open)

lemma match_json_trailing:
  assumes sp: "\<forall>c \<in> set b. is_space c"
  shows "match_json (m @ b) = match_json m"
proof -
  have nb: "\<forall>c \<in> set b. c \<noteq> CHR ''{''" "\<forall>c \<in> set b. c \<noteq> CHR ''}''"
    using sp not_space_brace by auto
  let ?f = "dropWhile (\<lambda>c. c \<noteq> CHR ''{'') m"
  show ?thesis
  proof (cases "?f = []")
    case True
    then have "\<forall>c \<in> set m. c \<noteq> CHR ''{''" by (simp add: dropWhile_eq_Nil_conv)
    with nb(1) have "dropWhile (\<lambda>c. c \<noteq> CHR ''{'') (m @ b) = []"
      by (auto simp: dropWhile_eq_Nil_conv)
    with True show ?thesis by (simp add: match_json_def)
  next
    case False
    then obtain x where "x \<in> set m" "\<not> x \<noteq> CHR ''{''"
      by (auto simp: dropWhile_eq_Nil_conv)
    then have d: "dropWhile (\<lambda>c. c \<noteq> CHR ''{'') (m @ b) = ?f @ b"
      by (rule dropWhile_append1)
    have t: "tl (?f @ b) = tl ?f @ b" using False by simp
    show ?thesis
    proof (cases "CHR ''}'' \<in> set (tl ?f)")
      case True
      have "dropWhile (\<lambda>c. c \<noteq> CHR ''}'') (rev b @ rev ?f)
              = dropWhile (\<lambda>c. c \<noteq> CHR ''}'') (rev ?f)"
        using nb(2) by (intro dropWhile_append2) simp
      then have "dropWhile (\<lambda>c. c \<noteq> CHR ''}'') (rev (?f @ b))
              = dropWhile (\<lambda>c. c \<noteq> CHR ''}'') (rev ?f)"
        by simp
      with True False t show ?thesis
        by (simp add: match_json_def d Let_def del: dropWhile_append)
    next
      case no: False
      with nb(2) have "CHR ''}'' \<notin> set (tl (?f @ b))" unfolding t by auto
      with no False show ?thesis
        by (simp add: match_json_def d Let_def)
    qed
  qed
qed

text \<open>
  The match does not depend on the trimming: white space holds no brace, so whatever
  \<open>trim\<close> removes at the two ends, the first opening and the last closing brace stay.
\<close>

lemma match_json_trim: "match_json (trim s) = match_json s"
proof -
  let ?t = "dropWhile is_space s"
  have a: "takeWhile is_space (rev ?t) @ dropWhile is_space (rev ?t) = rev ?t"
    by (rule takeWhile_dropWhile_id)
  have "rev (takeWhile is_space (rev ?t) @ dropWhile is_space (rev ?t)) = ?t"
    unfolding a by simp
  then have split: "trim s @ rev (takeWhile is_space (rev ?t)) = ?t"
    unfolding rev_append trim_def .
  have "\<forall>c \<in> set (rev (takeWhile is_space (rev ?t))). is_space c"
    by (auto dest: set_takeWhileD)
  from match_json_trailing [OF this, of "trim s"]
  have "match_json ?t = match_json (trim s)" unfolding split .
  then show ?thesis by (simp add: match_json_leading)
qed

section \<open>Properties of the evaluator\<close>

lemma evaluateListing_try_Inl:
  "evaluateListing_try env listing apiKey = Inl e \<Longrightarrow>
   evaluateListing env listing apiKey = fallbackEvaluation"
  by (simp add: evaluateListing_def)

lemma evaluateListing_parsed:
  assumes "responseText env listing apiKey = Inr text"
    and "extractJson env text = Inr obj"
  shows "evaluateListing_try env listing apiKey = postProcess (runtime env) obj"
  using assms by (simp add: evaluateListing_try_def)

lemma evaluateListing_success:
  assumes "responseText env listing apiKey = Inr text"
    and "extractJson env text = Inr obj"
    and "postProcess (runtime env) obj = Inr ev"
  shows "evaluateListing env listing apiKey = ev"
  using assms by (simp add: evaluateListing_def evaluateListing_try_def)

lemma postProcess_Inr:
  assumes "ToNumber rt (map_of obj ''score'') = Inr n"
  shows "postProcess rt obj
     = Inr \<lparr> score = Math_max (Fin 1) (Math_min (Fin 100) (Math_round n)),
             isGoodDeal = js_ge (Math_max (Fin 1) (Math_min (Fin 100) (Math_round n))) (Fin 70),
             reasoning = map_of obj ''reasoning'',
             identifiedProduct = map_of obj ''identifiedProduct'',
             retailPriceRange = map_of obj ''retailPriceRange'',
             condition = map_of obj ''condition'',
             marketComparison = map_of obj ''marketComparison'' \<rparr>"
  using assms by (simp add: postProcess_def Let_def)

lemma postProcess_Inl:
  "ToNumber rt (map_of obj ''score'') = Inl e \<Longrightarrow> postProcess rt obj = Inl e"
  by (simp add: postProcess_def)

lemma postProcess_flag:
  "postProcess rt obj = Inr ev \<Longrightarrow> isGoodDeal ev = js_ge (score ev) (Fin 70)"
  by (auto simp: postProcess_def Let_def split: sum.splits)

text \<open>
  C4. When the model call throws, or when the reply holds no JSON object that parses,
  \<open>evaluateListing\<close> returns the neutral fallback assessment: score 50, not a good deal,
  condition \<open>unknown\<close>, product and price range \<open>null\<close>. The error stays inside: the
  function has a result, and it is this one.
\<close>

theorem evaluateListing_fallback_on_failure:
  assumes "(\<exists>e. responseText env listing apiKey = Inl e)
         \<or> (\<exists>text e. responseText env listing apiKey = Inr text \<and> extractJson env text = Inl e)"
  shows "evaluateListing env listing apiKey = fallbackEvaluation
       \<and> score (evaluateListing env listing apiKey) = Fin 50
       \<and> isGoodDeal (evaluateListing env listing apiKey) = False
       \<and> condition (evaluateListing env listing apiKey) = Some (JStr ''unknown'')
       \<and> identifiedProduct (evaluateListing env listing apiKey) = Some JNull
       \<and> retailPriceRange (evaluateListing env listing apiKey) = Some JNull"
proof -
  from assms obtain e where "evaluateListing_try env listing apiKey = Inl e"
    by (auto simp: evaluateListing_try_def)
  then have "evaluateListing env listing apiKey = fallbackEvaluation"
    by (rule evaluateListing_try_Inl)
  then show ?thesis
    by (simp add: fallbackEvaluation_def)
qed

theorem evaluateListing_fallback_on_failure_witness:
  \<open>((\<exists>e. responseText model_down sample_listing ''key'' = Inl e)
     \<or> (\<exists>text e. responseText model_down sample_listing ''key'' = Inr text
                 \<and> extractJson model_down text = Inl e))
   \<and> evaluateListing model_down sample_listing ''key'' = fallbackEvaluation
   \<and> ((\<exists>e. responseText (replying ''Sorry, no idea.'' [] []) sample_listing ''key'' = Inl e)
     \<or> (\<exists>text e. responseText (replying ''Sorry, no idea.'' [] []) sample_listing ''key'' = Inr text
                 \<and> extractJson (replying ''Sorry, no idea.'' [] []) text = Inl e))
   \<and> score (evaluateListing (replying ''Sorry, no idea.'' [] []) sample_listing ''key'') = Fin 50\<close>
proof -
  have a: "responseText model_down sample_listing ''key'' = Inl ModelCallError"
    by (simp add: responseText_def model_down_def)
  have b: "responseText (replying ''Sorry, no idea.'' [] []) sample_listing ''key''
             = Inr ''Sorry, no idea.''"
    by (simp add: responseText_def replying_def trim_def is_space_def)
  have c: "extractJson (replying ''Sorry, no idea.'' [] []) ''Sorry, no idea.''
             = Inl NoJsonInResponse"
    by (simp add: extractJson_def match_json_def)
  show ?thesis
    using a b c
      evaluateListing_fallback_on_failure [of model_down sample_listing "''key''"]
      evaluateListing_fallback_on_failure
        [of "replying ''Sorry, no idea.'' [] []" sample_listing "''key''"]
    by blast
qed

lemma good_deal_threshold:
  "(70 \<le> max 1 (min 100 (of_int \<lfloor>q + 1 / 2\<rfloor> :: rat))) = (139 / 2 \<le> q)"
proof -
  have "(70 \<le> max 1 (min 100 (of_int \<lfloor>q + 1 / 2\<rfloor> :: rat))) = (70 \<le> \<lfloor>q + 1 / 2\<rfloor>)"
    by (simp add: le_max_iff_disj)
  also have "\<dots> = (139 / 2 \<le> q)"
    by (simp add: le_floor_iff) linarith
  finally show ?thesis .
qed

text \<open>
  C2. The flag \<open>isGoodDeal\<close> of the result is the comparison of the score of the result
  with 70, whatever flag the model reported. Whenever a JSON object is parsed from the
  reply of the model: if the conversion of its \<open>score\<close> to a number gives \<open>n\<close>, the score of
  the result is \<open>n\<close> rounded and clamped to the interval from 1 to 100, so that for a finite
  score \<open>q\<close> the flag is \<open>q \<ge> 69.5\<close>; if that conversion throws, the result is the fallback
  (score 50, not a good deal).
\<close>

theorem evaluateListing_good_deal_from_score:
  "isGoodDeal (evaluateListing env listing apiKey)
     = js_ge (score (evaluateListing env listing apiKey)) (Fin 70)
   \<and> (\<forall>text obj.
        responseText env listing apiKey = Inr text \<and> extractJson env text = Inr obj \<longrightarrow>
          (\<forall>n. ToNumber (runtime env) (map_of obj ''score'') = Inr n \<longrightarrow>
             score (evaluateListing env listing apiKey)
               = Math_max (Fin 1) (Math_min (Fin 100) (Math_round n)))
        \<and> (\<forall>e. ToNumber (runtime env) (map_of obj ''score'') = Inl e \<longrightarrow>
             evaluateListing env listing apiKey = fallbackEvaluation)
        \<and> (\<forall>q. map_of obj ''score'' = Some (JNum (Fin q)) \<longrightarrow>
             isGoodDeal (evaluateListing env listing apiKey) = (139 / 2 \<le> q)))"
proof (intro conjI allI impI)
  show "isGoodDeal (evaluateListing env listing apiKey)
          = js_ge (score (evaluateListing env listing apiKey)) (Fin 70)"
  proof (cases "evaluateListing_try env listing apiKey")
    case (Inl e)
    then have "evaluateListing env listing apiKey = fallbackEvaluation"
      by (rule evaluateListing_try_Inl)
    then show ?thesis by (simp add: fallbackEvaluation_def)
  next
    case (Inr ev)
    then have ev: "evaluateListing env listing apiKey = ev"
      by (simp add: evaluateListing_def)
    from Inr obtain obj where "postProcess (runtime env) obj = Inr ev"
      by (auto simp: evaluateListing_try_def split: sum.splits)
    then show ?thesis unfolding ev by (rule postProcess_flag)
  qed
next
  fix reply obj n
  assume parsed: "responseText env listing apiKey = Inr reply \<and> extractJson env reply = Inr obj"
    and n: "ToNumber (runtime env) (map_of obj ''score'') = Inr n"
  from parsed have "evaluateListing_try env listing apiKey = postProcess (runtime env) obj"
    by (simp add: evaluateListing_parsed)
  then show "score (evaluateListing env listing apiKey)
               = Math_max (Fin 1) (Math_min (Fin 100) (Math_round n))"
    by (simp add: evaluateListing_def postProcess_Inr [OF n])
next
  fix reply obj e
  assume parsed: "responseText env listing apiKey = Inr reply \<and> extractJson env reply = Inr obj"
    and e: "ToNumber (runtime env) (map_of obj ''score'') = Inl e"
  from parsed have "evaluateListing_try env listing apiKey = postProcess (runtime env) obj"
    by (simp add: evaluateListing_parsed)
  then show "evaluateListing env listing apiKey = fallbackEvaluation"
    by (simp add: evaluateListing_def postProcess_Inl [OF e])
next
  fix reply obj q
  assume parsed: "responseText env listing apiKey = Inr reply \<and> extractJson env reply = Inr obj"
    and q: "map_of obj ''score'' = Some (JNum (Fin q))"
  from q have n: "ToNumber (runtime env) (map_of obj ''score'') = Inr (Fin q)" by simp
  from parsed have "evaluateListing_try env listing apiKey = postProcess (runtime env) obj"
    by (simp add: evaluateListing_parsed)
  then show "isGoodDeal (evaluateListing env listing apiKey) = (139 / 2 \<le> q)"
    using good_deal_threshold [of q]
    by (simp add: evaluateListing_def postProcess_Inr [OF n])
qed

lemma reply60_text:
  "responseText (replying reply60 reply60 obj60) sample_listing ''key'' = Inr reply60"
  by (simp add: responseText_def replying_def trim_def is_space_def reply60_def)

lemma reply60_json: "extractJson (replying reply60 reply60 obj60) reply60 = Inr obj60"
  by (simp add: extractJson_def match_json_def replying_def reply60_def)

lemma reply_odd_text:
  "responseText (replying reply_odd reply_odd obj_odd) sample_listing ''key'' = Inr reply_odd"
  by (simp add: responseText_def replying_def trim_def is_space_def reply_odd_def)

lemma reply_odd_json: "extractJson (replying reply_odd reply_odd obj_odd) reply_odd = Inr obj_odd"
  by (simp add: extractJson_def match_json_def replying_def reply_odd_def)

lemma reply_odd_score: "ToNumber rt (map_of obj_odd ''score'') = Inl TypeError"
  by (simp add: obj_odd_def)

theorem evaluateListing_good_deal_from_score_witness:
  "responseText (replying reply60 reply60 obj60) sample_listing ''key'' = Inr reply60
   \<and> extractJson (replying reply60 reply60 obj60) reply60 = Inr obj60
   \<and> map_of obj60 ''isGoodDeal'' = Some (JBool True)
   \<and> map_of obj60 ''score'' = Some (JNum (Fin 60))
   \<and> score (evaluateListing (replying reply60 reply60 obj60) sample_listing ''key'') = Fin 60
   \<and> isGoodDeal (evaluateListing (replying reply60 reply60 obj60) sample_listing ''key'') = False
   \<and> responseText (replying reply_odd reply_odd obj_odd) sample_listing ''key'' = Inr reply_odd
   \<and> extractJson (replying reply_odd reply_odd obj_odd) reply_odd = Inr obj_odd
   \<and> ToNumber (runtime (replying reply_odd reply_odd obj_odd)) (map_of obj_odd ''score'')
       = Inl TypeError
   \<and> evaluateListing (replying reply_odd reply_odd obj_odd) sample_listing ''key''
       = fallbackEvaluation"
proof -
  note a = evaluateListing_good_deal_from_score
      [of "replying reply60 reply60 obj60" sample_listing "''key''",
       THEN conjunct2, rule_format, OF conjI, OF reply60_text reply60_json]
  note b = evaluateListing_good_deal_from_score
      [of "replying reply_odd reply_odd obj_odd" sample_listing "''key''",
       THEN conjunct2, rule_format, OF conjI, OF reply_odd_text reply_odd_json]
  have s: "map_of obj60 ''score'' = Some (JNum (Fin 60))"
    "map_of obj60 ''isGoodDeal'' = Some (JBool True)"
    by (simp_all add: obj60_def)
  have n: "ToNumber (runtime (replying reply60 reply60 obj60)) (map_of obj60 ''score'')
             = Inr (Fin 60)"
    by (simp add: s)
  have sc: "score (evaluateListing (replying reply60 reply60 obj60) sample_listing ''key'') = Fin 60"
    using a [THEN conjunct1, rule_format, OF n] by (simp add: floor_eq_iff)
  have fl: "isGoodDeal (evaluateListing (replying reply60 reply60 obj60) sample_listing ''key'') = False"
    using a [THEN conjunct2, THEN conjunct2, rule_format, OF s(1)] by simp
  have fb: "evaluateListing (replying reply_odd reply_odd obj_odd) sample_listing ''key''
       = fallbackEvaluation"
    using b [THEN conjunct2, THEN conjunct1, rule_format, OF reply_odd_score] .
  from reply60_text reply60_json s(2) s(1) sc fl reply_odd_text reply_odd_json reply_odd_score fb
  show ?thesis by (intro conjI)
qed

text \<open>
  The score is an integer between 1 and 100 as soon as the score of the parsed object
  converts to a number that is not NaN.
\<close>

lemma clamp_score_in_range:
  assumes "n \<noteq> NaN"
  shows "is_score_1_100 (Math_max (Fin 1) (Math_min (Fin 100) (Math_round n)))"
  using assms by (cases n) (simp_all add: is_score_1_100_def min_def max_def)

lemma postProcess_score_in_range:
  assumes "postProcess rt obj = Inr ev" and "ToNumber rt (map_of obj ''score'') \<noteq> Inr NaN"
  shows "is_score_1_100 (score ev)"
  using assms
  by (auto simp: postProcess_def Let_def clamp_score_in_range split: sum.splits)

lemma postProcess_score_150:
  "map_sum id score (postProcess rt [(''score'', JNum (Fin 150))]) = Inr (Fin 100)"
  by (simp add: postProcess_def)

lemma postProcess_score_0:
  "map_sum id score (postProcess rt [(''score'', JNum (Fin 0))]) = Inr (Fin 1)"
  by (simp add: postProcess_def)

lemma reply_no_score_text:
  "responseText (replying reply_no_score reply_no_score obj_no_score) sample_listing ''key''
     = Inr reply_no_score"
  by (simp add: responseText_def replying_def trim_def is_space_def reply_no_score_def)

lemma reply_no_score_json:
  "extractJson (replying reply_no_score reply_no_score obj_no_score) reply_no_score
     = Inr obj_no_score"
  by (simp add: extractJson_def match_json_def replying_def reply_no_score_def)

text \<open>
  C3. The score of the result is meant to be an integer between 1 and 100 for every reply
  of the model. It is not when the parsed object has no \<open>score\<close>: the clamp keeps NaN, and
  the score of the result is NaN.
\<close>

theorem evaluateListing_score_missing_is_NaN:
  "score (evaluateListing (replying reply_no_score reply_no_score obj_no_score)
            sample_listing ''key'') = NaN
   \<and> \<not> is_score_1_100 (score (evaluateListing
            (replying reply_no_score reply_no_score obj_no_score) sample_listing ''key''))"
proof -
  have "ToNumber (runtime (replying reply_no_score reply_no_score obj_no_score))
          (map_of obj_no_score ''score'') = Inr NaN"
    by (simp add: obj_no_score_def)
  from evaluateListing_success [OF reply_no_score_text reply_no_score_json postProcess_Inr [OF this]]
  show ?thesis
    by (simp add: is_score_1_100_def)
qed

lemma reply_mint_text:
  "responseText (replying reply_mint src_mint obj_mint) sample_listing ''key'' = Inr reply_mint"
  by (simp add: responseText_def replying_def trim_def is_space_def reply_mint_def)

lemma reply_mint_json:
  "extractJson (replying reply_mint src_mint obj_mint) reply_mint = Inr obj_mint"
  by (simp add: extractJson_def match_json_def replying_def reply_mint_def src_mint_def)

text \<open>
  C9, as stated, fails: the model answers with the condition \<open>mint\<close>, the reply parses, and
  the condition of the result is \<open>mint\<close>, which is none of the five labels.
\<close>

theorem evaluateListing_condition_counterexample:
  "\<not> is_condition_label (condition (evaluateListing (replying reply_mint src_mint obj_mint)
                                        sample_listing ''key''))"
proof -
  have "ToNumber (runtime (replying reply_mint src_mint obj_mint)) (map_of obj_mint ''score'')
          = Inr (Fin 80)"
    by (simp add: obj_mint_def)
  from evaluateListing_success [OF reply_mint_text reply_mint_json postProcess_Inr [OF this]]
  show ?thesis
    by (simp add: obj_mint_def is_condition_label_def condition_labels_def)
qed

text \<open>
  C9, amended. Whenever the \<open>try\<close> block throws (the model call fails, the reply holds no
  JSON object that parses, or the conversion of the parsed \<open>score\<close> to a number throws) the
  condition of the result is \<open>unknown\<close>, one of the five labels. Otherwise the condition is
  the \<open>condition\<close> property of the parsed object, as the model wrote it: it is one of the
  five labels exactly when the model's own value is.
\<close>

theorem evaluateListing_condition_passthrough:
  "((\<exists>e. evaluateListing_try env listing apiKey = Inl e) \<longrightarrow>
      condition (evaluateListing env listing apiKey) = Some (JStr ''unknown'')
      \<and> is_condition_label (condition (evaluateListing env listing apiKey)))
   \<and> (\<forall>text obj. responseText env listing apiKey = Inr text \<and> extractJson env text = Inr obj \<longrightarrow>
        (\<forall>n. ToNumber (runtime env) (map_of obj ''score'') = Inr n \<longrightarrow>
           condition (evaluateListing env listing apiKey) = map_of obj ''condition''
           \<and> is_condition_label (condition (evaluateListing env listing apiKey))
                = is_condition_label (map_of obj ''condition''))
      \<and> (\<forall>e. ToNumber (runtime env) (map_of obj ''score'') = Inl e \<longrightarrow>
           evaluateListing_try env listing apiKey = Inl e
           \<and> condition (evaluateListing env listing apiKey) = Some (JStr ''unknown'')))"
proof (intro conjI impI allI)
  assume "\<exists>e. evaluateListing_try env listing apiKey = Inl e"
  then have fb: "evaluateListing env listing apiKey = fallbackEvaluation"
    by (auto dest: evaluateListing_try_Inl)
  show "condition (evaluateListing env listing apiKey) = Some (JStr ''unknown'')"
    unfolding fb by (simp add: fallbackEvaluation_def)
  show "is_condition_label (condition (evaluateListing env listing apiKey))"
    unfolding fb by (simp add: fallbackEvaluation_def is_condition_label_def condition_labels_def)
next
  fix reply obj n
  assume parsed: "responseText env listing apiKey = Inr reply \<and> extractJson env reply = Inr obj"
    and n: "ToNumber (runtime env) (map_of obj ''score'') = Inr n"
  from parsed have "evaluateListing_try env listing apiKey = postProcess (runtime env) obj"
    by (simp add: evaluateListing_parsed)
  then show c: "condition (evaluateListing env listing apiKey) = map_of obj ''condition''"
    by (simp add: evaluateListing_def postProcess_Inr [OF n])
  show "is_condition_label (condition (evaluateListing env listing apiKey))
          = is_condition_label (map_of obj ''condition'')"
    unfolding c ..
next
  fix reply obj e
  assume parsed: "responseText env listing apiKey = Inr reply \<and> extractJson env reply = Inr obj"
    and e: "ToNumber (runtime env) (map_of obj ''score'') = Inl e"
  from parsed have "evaluateListing_try env listing apiKey = postProcess (runtime env) obj"
    by (simp add: evaluateListing_parsed)
  then show t: "evaluateListing_try env listing apiKey = Inl e"
    by (simp add: postProcess_Inl [OF e])
  then have "evaluateListing env listing apiKey = fallbackEvaluation"
    by (rule evaluateListing_try_Inl)
  then show "condition (evaluateListing env listing apiKey) = Some (JStr ''unknown'')"
    by (simp add: fallbackEvaluation_def)
qed

theorem evaluateListing_condition_passthrough_witness:
  "(\<exists>e. evaluateListing_try model_down sample_listing ''key'' = Inl e)
   \<and> condition (evaluateListing model_down sample_listing ''key'') = Some (JStr ''unknown'')
   \<and> responseText (replying reply_no_score reply_no_score obj_no_score) sample_listing ''key''
       = Inr reply_no_score
   \<and> extractJson (replying reply_no_score reply_no_score obj_no_score) reply_no_score
       = Inr obj_no_score
   \<and> ToNumber (runtime (replying reply_no_score reply_no_score obj_no_score))
         (map_of obj_no_score ''score'') = Inr NaN
   \<and> condition (evaluateListing (replying reply_no_score reply_no_score obj_no_score)
                  sample_listing ''key'') = Some (JStr ''good'')
   \<and> responseText (replying reply_odd reply_odd obj_odd) sample_listing ''key'' = Inr reply_odd
   \<and> extractJson (replying reply_odd reply_odd obj_odd) reply_odd = Inr obj_odd
   \<and> ToNumber (runtime (replying reply_odd reply_odd obj_odd)) (map_of obj_odd ''score'')
       = Inl TypeError
   \<and> map_of obj_odd ''condition'' = Some (JStr ''mint'')
   \<and> condition (evaluateListing (replying reply_odd reply_odd obj_odd) sample_listing ''key'')
       = Some (JStr ''unknown'')"
proof -
  have a: "evaluateListing_try model_down sample_listing ''key'' = Inl ModelCallError"
    by (simp add: evaluateListing_try_def responseText_def model_down_def)
  then have a': "\<exists>e. evaluateListing_try model_down sample_listing ''key'' = Inl e" ..
  have b: "map_of obj_no_score ''condition'' = Some (JStr ''good'')"
    "map_of obj_odd ''condition'' = Some (JStr ''mint'')"
    by (simp_all add: obj_no_score_def obj_odd_def)
  have n: "ToNumber (runtime (replying reply_no_score reply_no_score obj_no_score))
         (map_of obj_no_score ''score'') = Inr NaN"
    by (simp add: obj_no_score_def)
  note down = evaluateListing_condition_passthrough
      [of model_down sample_listing "''key''", THEN conjunct1, rule_format, OF a']
  note good = evaluateListing_condition_passthrough
      [of "replying reply_no_score reply_no_score obj_no_score" sample_listing "''key''",
       THEN conjunct2, rule_format, OF conjI, OF reply_no_score_text reply_no_score_json]
  note odd = evaluateListing_condition_passthrough
      [of "replying reply_odd reply_odd obj_odd" sample_listing "''key''",
       THEN conjunct2, rule_format, OF conjI, OF reply_odd_text reply_odd_json]
  have c1: "condition (evaluateListing model_down sample_listing ''key'') = Some (JStr ''unknown'')"
    using down by (rule conjunct1)
  have c2: "condition (evaluateListing (replying reply_no_score reply_no_score obj_no_score)
                  sample_listing ''key'') = Some (JStr ''good'')"
    using good [THEN conjunct1, rule_format, OF n] b(1) by simp
  have c3: "condition (evaluateListing (replying reply_odd reply_odd obj_odd) sample_listing ''key'')
       = Some (JStr ''unknown'')"
    using odd [THEN conjunct2, rule_format, OF reply_odd_score] by (rule conjunct2)
  from a' c1 reply_no_score_text reply_no_score_json n c2 reply_odd_text reply_odd_json
    reply_odd_score b(2) c3
  show ?thesis by (intro conjI)
qed
section \<open>What the calls of the orchestrator do to the world\<close>

lemma find_sameKey_None:
  "(find (sameKey s x) rows = None) = ((s, x) \<notin> set (keysOf rows))"
  by (auto simp: find_None_iff keysOf_def sameKey_def)

lemma createdRows_append: "createdRows (a @ b) = createdRows a @ createdRows b"
  by (induction a rule: createdRows.induct) simp_all

lemma evaluatedKeys_append: "evaluatedKeys (a @ b) = evaluatedKeys a @ evaluatedKeys b"
  by (induction a rule: evaluatedKeys.induct) simp_all

lemma keysOf_Nil [simp]: "keysOf [] = []"
  by (simp add: keysOf_def)

lemma keysOf_Cons [simp]: "keysOf (l # rows) = (l_searchId l, l_externalId l) # keysOf rows"
  by (simp add: keysOf_def)

lemma keysOf_append [simp]: "keysOf (a @ b) = keysOf a @ keysOf b"
  by (simp add: keysOf_def)

lemma keysOf_markAlerted: "keysOf (map (markAlerted s) rows) = keysOf rows"
  by (simp add: keysOf_def markAlerted_def)

lemma fetch_effect:
  assumes "fetchCraigslistListings b q z opts w = (r, w')"
  shows "listings w' = listings w \<and> searches w' = searches w
       \<and> (trace w' = trace w \<or> trace w' = trace w @ [Navigated (buildSearchUrl q z opts)])"
  using assms
  by (auto simp: fetchCraigslistListings_def getBrowser_def emit_def Let_def
           split: if_splits sum.splits)

lemma listing_create_effect:
  assumes "listing_create env row w = (r, w')"
  shows "(r = Inr row \<and> (l_searchId row, l_externalId row) \<notin> set (keysOf (listings w))
          \<and> trace w' = trace w @ [Created row] \<and> listings w' = listings w @ [row]
          \<and> searches w' = searches w \<and> browserInstance w' = browserInstance w)
       \<or> ((\<exists>e. r = Inl e) \<and> w' = w)"
  using assms
  by (auto simp: listing_create_def emit_def find_sameKey_None split: if_splits)

lemma newRow_key:
  "l_searchId (newRow search c ev reason) = s_id search"
  "l_externalId (newRow search c ev reason) = c_externalId c"
  "l_alertSent (newRow search c ev reason) = False"
  by (simp_all add: newRow_def)

text \<open>
  One candidate: skipped, or evaluated and then inserted unless the conversion of the
  reason or the insert throws.
\<close>

lemma processListing_effect:
  assumes "processListing env search apiKey c st w = (r, w')"
  shows "searches w' = searches w \<and> browserInstance w' = browserInstance w \<and>
     ((w' = w \<and> ((\<exists>e. r = Inl e) \<or> (r = Inr st \<and> (s_id search, c_externalId c) \<in> set (keysOf (listings w)))))
    \<or> ((s_id search, c_externalId c) \<notin> set (keysOf (listings w))
        \<and> trace w' = trace w @ [Evaluated (s_id search) (c_externalId c)]
        \<and> listings w' = listings w \<and> (\<exists>e. r = Inl e))
    \<or> ((s_id search, c_externalId c) \<notin> set (keysOf (listings w))
        \<and> (\<exists>row st'. r = Inr st' \<and> l_searchId row = s_id search \<and> l_externalId row = c_externalId c
              \<and> \<not> l_alertSent row
              \<and> n_newListings st' = n_newListings st + 1
              \<and> n_goodDeals st' = n_goodDeals st + length (filter l_isGoodDeal [row])
              \<and> map alertHead (dealsToAlert st')
                    = map alertHead (dealsToAlert st) @ map rowHead (filter l_isGoodDeal [row])
              \<and> trace w' = trace w @ [Evaluated (s_id search) (c_externalId c), Created row]
              \<and> listings w' = listings w @ [row])))"
proof (cases "dbFault env (ListingFindUnique (s_id search) (c_externalId c))")
  case True
  with assms show ?thesis by (auto simp: processListing_def)
next
  case nofault: False
  show ?thesis
  proof (cases "find (sameKey (s_id search) (c_externalId c)) (listings w)")
    case (Some existing)
    then have "(s_id search, c_externalId c) \<in> set (keysOf (listings w))"
      using find_sameKey_None [of "s_id search" "c_externalId c" "listings w"] by simp
    with assms nofault Some show ?thesis by (auto simp: processListing_def)
  next
    case None
    then have fresh: "(s_id search, c_externalId c) \<notin> set (keysOf (listings w))"
      by (simp add: find_sameKey_None)
    define ev where "ev = evaluateListing (ai env) (forEvaluation search c) apiKey"
    define w1 where "w1 = emit (Evaluated (s_id search) (c_externalId c)) w"
    have w1: "trace w1 = trace w @ [Evaluated (s_id search) (c_externalId c)]"
      "listings w1 = listings w" "searches w1 = searches w" "browserInstance w1 = browserInstance w"
      by (simp_all add: w1_def emit_def)
    show ?thesis
    proof (cases "dealReasonOf (runtime (ai env)) ev")
      case (Inl e)
      with assms nofault None have "w' = w1 \<and> r = Inl e"
        by (auto simp: processListing_def Let_def ev_def [symmetric] w1_def [symmetric])
      with w1 fresh show ?thesis by auto
    next
      case (Inr reason)
      define row where "row = newRow search c ev reason"
      obtain r2 w2 where cr: "listing_create env row w1 = (r2, w2)"
        by (cases "listing_create env row w1") auto
      from listing_create_effect [OF cr] show ?thesis
      proof
        assume ok: "r2 = Inr row \<and> (l_searchId row, l_externalId row) \<notin> set (keysOf (listings w1))
            \<and> trace w2 = trace w1 @ [Created row] \<and> listings w2 = listings w1 @ [row]
            \<and> searches w2 = searches w1 \<and> browserInstance w2 = browserInstance w1"
        with assms nofault None Inr cr have "w' = w2 \<and> (\<exists>st'. r = Inr st'
                \<and> n_newListings st' = n_newListings st + 1
                \<and> n_goodDeals st' = n_goodDeals st + length (filter l_isGoodDeal [row])
                \<and> map alertHead (dealsToAlert st')
                      = map alertHead (dealsToAlert st) @ map rowHead (filter l_isGoodDeal [row]))"
          by (auto simp: processListing_def Let_def ev_def [symmetric] row_def [symmetric]
                   w1_def [symmetric] alertHead_def rowHead_def newAlert_def split: if_splits)
        with ok w1 fresh show ?thesis
          by (auto simp: row_def newRow_key)
      next
        assume bad: "(\<exists>e. r2 = Inl e) \<and> w2 = w1"
        with assms nofault None Inr cr have "w' = w1 \<and> (\<exists>e. r = Inl e)"
          by (auto simp: processListing_def Let_def ev_def [symmetric] row_def [symmetric]
                   w1_def [symmetric])
        with w1 fresh show ?thesis by auto
      qed
    qed
  qed
qed


lemma loopSummary_none: "loopSummary sid [] st w (Inr st) w []"
  by (simp add: loopSummary_def)

lemma loopSummary_thrown: "loopSummary sid cs st w (Inl e) w []"
  by (simp add: loopSummary_def)

lemma loopSummary_rejected:
  assumes "(sid, x) \<notin> set (keysOf (listings w))"
    and "trace w1 = trace w @ [Evaluated sid x]" and "listings w1 = listings w"
    and "searches w1 = searches w" and "browserInstance w1 = browserInstance w"
  shows "loopSummary sid cs st w (Inl e) w1 [Evaluated sid x]"
  using assms by (simp add: loopSummary_def isLoopEvent_def)

lemma loopSummary_skipped:
  assumes sum: "loopSummary sid cs st w r w' tr"
    and key: "(sid, c_externalId c) \<in> set (keysOf (listings w))"
  shows "loopSummary sid (c # cs) st w r w' tr"
proof -
  from sum have tr:
    "trace w' = trace w @ tr" "listings w' = listings w @ createdRows tr"
    "searches w' = searches w" "browserInstance w' = browserInstance w"
    "distinct (keysOf (createdRows tr))"
    "set (keysOf (createdRows tr)) \<inter> set (keysOf (listings w)) = {}"
    "set (evaluatedKeys tr) \<inter> set (keysOf (listings w)) = {}"
    "\<forall>row \<in> set (createdRows tr). l_searchId row = sid \<and> \<not> l_alertSent row"
    "\<forall>ev \<in> set tr. isLoopEvent ev"
    "distinct (evaluatedKeys tr)"
    unfolding loopSummary_def by blast+
  have k: "(sid, c_externalId c) \<in> set (keysOf (listings w'))"
    using key by (simp add: tr(2))
  have "n_newListings st' = n_newListings st + length (createdRows tr)
         \<and> n_goodDeals st' = n_goodDeals st + length (filter l_isGoodDeal (createdRows tr))
         \<and> map alertHead (dealsToAlert st')
              = map alertHead (dealsToAlert st) @ map rowHead (filter l_isGoodDeal (createdRows tr))
         \<and> (\<forall>c \<in> set (c # cs). (sid, c_externalId c) \<in> set (keysOf (listings w')))"
    if r: "r = Inr st'" for st'
  proof -
    from sum r have t:
      "n_newListings st' = n_newListings st + length (createdRows tr)"
      "n_goodDeals st' = n_goodDeals st + length (filter l_isGoodDeal (createdRows tr))"
      "map alertHead (dealsToAlert st')
         = map alertHead (dealsToAlert st) @ map rowHead (filter l_isGoodDeal (createdRows tr))"
      "\<forall>c \<in> set cs. (sid, c_externalId c) \<in> set (keysOf (listings w'))"
      unfolding loopSummary_def by blast+
    have ca: "\<forall>c \<in> set (c # cs). (sid, c_externalId c) \<in> set (keysOf (listings w'))"
      using t(4) k by simp
    from t(1,2,3) ca show ?thesis by (intro conjI)
  qed
  then have last: "\<forall>st'. r = Inr st' \<longrightarrow>
           n_newListings st' = n_newListings st + length (createdRows tr)
         \<and> n_goodDeals st' = n_goodDeals st + length (filter l_isGoodDeal (createdRows tr))
         \<and> map alertHead (dealsToAlert st')
              = map alertHead (dealsToAlert st) @ map rowHead (filter l_isGoodDeal (createdRows tr))
         \<and> (\<forall>c \<in> set (c # cs). (sid, c_externalId c) \<in> set (keysOf (listings w')))"
    by (intro allI impI)
  show ?thesis
    unfolding loopSummary_def
    by (intro conjI; fact)
qed

lemma loopSummary_stored:
  assumes sum: "loopSummary sid cs st1 w1 r w' tr"
    and fresh: "(sid, c_externalId c) \<notin> set (keysOf (listings w))"
    and row: "l_searchId row = sid" "l_externalId row = c_externalId c" "\<not> l_alertSent row"
    and st1: "n_newListings st1 = n_newListings st + 1"
      "n_goodDeals st1 = n_goodDeals st + length (filter l_isGoodDeal [row])"
      "map alertHead (dealsToAlert st1)
         = map alertHead (dealsToAlert st) @ map rowHead (filter l_isGoodDeal [row])"
    and w1: "trace w1 = trace w @ [Evaluated sid (c_externalId c), Created row]"
      "listings w1 = listings w @ [row]"
      "searches w1 = searches w" "browserInstance w1 = browserInstance w"
  shows "loopSummary sid (c # cs) st w r w'
           ([Evaluated sid (c_externalId c), Created row] @ tr)"
proof -
  let ?k = "(sid, c_externalId c)"
  let ?tr = "[Evaluated sid (c_externalId c), Created row] @ tr"
  from sum have tr:
    "trace w' = trace w1 @ tr" "listings w' = listings w1 @ createdRows tr"
    "searches w' = searches w1" "browserInstance w' = browserInstance w1"
    "distinct (keysOf (createdRows tr))"
    "set (keysOf (createdRows tr)) \<inter> set (keysOf (listings w1)) = {}"
    "set (evaluatedKeys tr) \<inter> set (keysOf (listings w1)) = {}"
    "\<forall>row \<in> set (createdRows tr). l_searchId row = sid \<and> \<not> l_alertSent row"
    "\<forall>ev \<in> set tr. isLoopEvent ev"
    "distinct (evaluatedKeys tr)"
    unfolding loopSummary_def by blast+
  have k1: "keysOf (listings w1) = keysOf (listings w) @ [?k]"
    using w1(2) row(1,2) by simp
  have kc: "keysOf (createdRows ?tr) = ?k # keysOf (createdRows tr)"
    using row(1,2) by simp
  have a: "trace w' = trace w @ ?tr" using tr(1) w1(1) by simp
  have b: "listings w' = listings w @ createdRows ?tr" using tr(2) w1(2) by simp
  have c: "searches w' = searches w" "browserInstance w' = browserInstance w"
    using tr(3,4) w1(3,4) by simp_all
  have d: "distinct (keysOf (createdRows ?tr))"
    using tr(5,6) unfolding kc k1 by auto
  have e: "set (keysOf (createdRows ?tr)) \<inter> set (keysOf (listings w)) = {}"
    using tr(6) fresh unfolding kc k1 by auto
  have f: "set (evaluatedKeys ?tr) \<inter> set (keysOf (listings w)) = {}"
    using tr(7) fresh unfolding k1 by auto
  have g: "\<forall>row \<in> set (createdRows ?tr). l_searchId row = sid \<and> \<not> l_alertSent row"
    using tr(8) row(1,3) by simp
  have h: "\<forall>ev \<in> set ?tr. isLoopEvent ev"
    using tr(9) by (simp add: isLoopEvent_def)
  have j: "distinct (evaluatedKeys ?tr)"
    using tr(7,10) unfolding k1 by auto
  have i: "n_newListings st' = n_newListings st + length (createdRows ?tr)
         \<and> n_goodDeals st' = n_goodDeals st + length (filter l_isGoodDeal (createdRows ?tr))
         \<and> map alertHead (dealsToAlert st')
              = map alertHead (dealsToAlert st) @ map rowHead (filter l_isGoodDeal (createdRows ?tr))
         \<and> (\<forall>c \<in> set (c # cs). (sid, c_externalId c) \<in> set (keysOf (listings w')))"
    if r: "r = Inr st'" for st'
  proof -
    from sum r have t:
      "n_newListings st' = n_newListings st1 + length (createdRows tr)"
      "n_goodDeals st' = n_goodDeals st1 + length (filter l_isGoodDeal (createdRows tr))"
      "map alertHead (dealsToAlert st')
         = map alertHead (dealsToAlert st1) @ map rowHead (filter l_isGoodDeal (createdRows tr))"
      "\<forall>c \<in> set cs. (sid, c_externalId c) \<in> set (keysOf (listings w'))"
      unfolding loopSummary_def by blast+
    have k: "?k \<in> set (keysOf (listings w'))"
      using k1 by (simp add: tr(2))
    have n: "n_newListings st' = n_newListings st + length (createdRows ?tr)"
      unfolding t(1) st1(1) by simp
    have gd: "n_goodDeals st' = n_goodDeals st + length (filter l_isGoodDeal (createdRows ?tr))"
      unfolding t(2) st1(2) by simp
    have al: "map alertHead (dealsToAlert st')
              = map alertHead (dealsToAlert st) @ map rowHead (filter l_isGoodDeal (createdRows ?tr))"
      unfolding t(3) st1(3) by simp
    have ca: "\<forall>c \<in> set (c # cs). (sid, c_externalId c) \<in> set (keysOf (listings w'))"
      using t(4) k by simp
    from n gd al ca show ?thesis by (intro conjI)
  qed
  from i have i': "\<forall>st'. r = Inr st' \<longrightarrow>
           n_newListings st' = n_newListings st + length (createdRows ?tr)
         \<and> n_goodDeals st' = n_goodDeals st + length (filter l_isGoodDeal (createdRows ?tr))
         \<and> map alertHead (dealsToAlert st')
              = map alertHead (dealsToAlert st) @ map rowHead (filter l_isGoodDeal (createdRows ?tr))
         \<and> (\<forall>c \<in> set (c # cs). (sid, c_externalId c) \<in> set (keysOf (listings w')))"
    by (intro allI impI)
  show ?thesis
    unfolding loopSummary_def
    by (intro conjI; fact)
qed

lemma processListings_effect:
  assumes "processListings env search apiKey cs st w = (r, w')"
  shows "\<exists>tr. loopSummary (s_id search) cs st w r w' tr"
  using assms
proof (induction cs arbitrary: st w)
  case Nil
  then have "r = Inr st" "w' = w" by simp_all
  then show ?case using loopSummary_none by blast
next
  case (Cons c cs)
  obtain r1 w1 where step: "processListing env search apiKey c st w = (r1, w1)"
    by (cases "processListing env search apiKey c st w") auto
  let ?k = "(s_id search, c_externalId c)"
  from processListing_effect [OF step]
  have frame: "searches w1 = searches w" "browserInstance w1 = browserInstance w"
    and cases3:
     "(w1 = w \<and> ((\<exists>e. r1 = Inl e) \<or> (r1 = Inr st \<and> ?k \<in> set (keysOf (listings w)))))
    \<or> (?k \<notin> set (keysOf (listings w))
        \<and> trace w1 = trace w @ [Evaluated (s_id search) (c_externalId c)]
        \<and> listings w1 = listings w \<and> (\<exists>e. r1 = Inl e))
    \<or> (?k \<notin> set (keysOf (listings w))
        \<and> (\<exists>row st'. r1 = Inr st' \<and> l_searchId row = s_id search \<and> l_externalId row = c_externalId c
              \<and> \<not> l_alertSent row
              \<and> n_newListings st' = n_newListings st + 1
              \<and> n_goodDeals st' = n_goodDeals st + length (filter l_isGoodDeal [row])
              \<and> map alertHead (dealsToAlert st')
                    = map alertHead (dealsToAlert st) @ map rowHead (filter l_isGoodDeal [row])
              \<and> trace w1 = trace w @ [Evaluated (s_id search) (c_externalId c), Created row]
              \<and> listings w1 = listings w @ [row]))"
    by blast+
  from cases3 consider
      (thrown) e where "w1 = w" "r1 = Inl e"
    | (skipped) "w1 = w" "r1 = Inr st" "?k \<in> set (keysOf (listings w))"
    | (rejected) e where "?k \<notin> set (keysOf (listings w))"
        "trace w1 = trace w @ [Evaluated (s_id search) (c_externalId c)]"
        "listings w1 = listings w" "r1 = Inl e"
    | (stored) row st1 where "?k \<notin> set (keysOf (listings w))"
        "r1 = Inr st1" "l_searchId row = s_id search" "l_externalId row = c_externalId c"
        "\<not> l_alertSent row"
        "n_newListings st1 = n_newListings st + 1"
        "n_goodDeals st1 = n_goodDeals st + length (filter l_isGoodDeal [row])"
        "map alertHead (dealsToAlert st1)
           = map alertHead (dealsToAlert st) @ map rowHead (filter l_isGoodDeal [row])"
        "trace w1 = trace w @ [Evaluated (s_id search) (c_externalId c), Created row]"
        "listings w1 = listings w @ [row]"
    by (elim disjE conjE exE) blast+
  then show ?case
  proof cases
    case thrown
    with Cons.prems step have "r = Inl e" "w' = w" by simp_all
    then show ?thesis using loopSummary_thrown by blast
  next
    case skipped
    with Cons.prems step have rest: "processListings env search apiKey cs st w = (r, w')"
      by simp
    from Cons.IH [OF rest] obtain tr where "loopSummary (s_id search) cs st w r w' tr" ..
    from loopSummary_skipped [OF this skipped(3)] show ?thesis ..
  next
    case rejected
    with Cons.prems step have "r = Inl e" "w' = w1" by simp_all
    with loopSummary_rejected [OF rejected(1,2,3) frame] show ?thesis by blast
  next
    case stored
    with Cons.prems step have rest: "processListings env search apiKey cs st1 w1 = (r, w')"
      by simp
    from Cons.IH [OF rest] obtain tr where "loopSummary (s_id search) cs st1 w1 r w' tr" ..
    from loopSummary_stored [OF this stored(1,3,4,5,6,7,8,9,10) frame] show ?thesis ..
  qed
qed

lemma find_id: "find (\<lambda>s. s_id s = sid) ss = Some search \<Longrightarrow> s_id search = sid"
  by (auto simp: find_Some_iff)

text \<open>The ways a scan can go, with the world each one leaves.\<close>

lemma processSearch_cases:
  assumes run: "processSearch env sid w = (r, w')"
  obtains
    (early) "w' = w" "r = Inr zero_counts \<or> r = Inl PersistenceError"
  | (fetch_thrown) search e where
      "\<not> dbFault env (SearchFindUnique sid)"
      "find (\<lambda>s. s_id s = sid) (searches w) = Some search" "s_isActive search"
      "fetchCraigslistListings (browser env) (s_query search) (s_zipcode search)
         (Some (searchOptions search)) w = (Inl e, w')"
      "r = Inl e"
  | (no_key) search cands where
      "\<not> dbFault env (SearchFindUnique sid)"
      "find (\<lambda>s. s_id s = sid) (searches w) = Some search" "s_isActive search"
      "fetchCraigslistListings (browser env) (s_query search) (s_zipcode search)
         (Some (searchOptions search)) w = (Inr cands, w')"
      "unset (GEMINI_API_KEY env)" "r = Inr zero_counts"
  | (loop_thrown) search cands w1 e where
      "\<not> dbFault env (SearchFindUnique sid)"
      "find (\<lambda>s. s_id s = sid) (searches w) = Some search" "s_isActive search"
      "fetchCraigslistListings (browser env) (s_query search) (s_zipcode search)
         (Some (searchOptions search)) w = (Inr cands, w1)"
      "\<not> unset (GEMINI_API_KEY env)"
      "processListings env search (the (GEMINI_API_KEY env)) cands
         \<lparr> n_newListings = 0, n_goodDeals = 0, dealsToAlert = [] \<rparr> w1 = (Inl e, w')"
      "r = Inl e"
  | (finished) search cands w1 st w2 where
      "\<not> dbFault env (SearchFindUnique sid)"
      "find (\<lambda>s. s_id s = sid) (searches w) = Some search" "s_isActive search"
      "fetchCraigslistListings (browser env) (s_query search) (s_zipcode search)
         (Some (searchOptions search)) w = (Inr cands, w1)"
      "\<not> unset (GEMINI_API_KEY env)"
      "processListings env search (the (GEMINI_API_KEY env)) cands
         \<lparr> n_newListings = 0, n_goodDeals = 0, dealsToAlert = [] \<rparr> w1 = (Inr st, w2)"
      "finishScan env search st w2 = (r, w')"
proof (cases "dbFault env (SearchFindUnique sid)")
  case True
  with run have "w' = w" "r = Inl PersistenceError" by (simp_all add: processSearch_def)
  then show ?thesis using early by blast
next
  case nofault: False
  show ?thesis
  proof (cases "find (\<lambda>s. s_id s = sid) (searches w)")
    case None
    with run nofault have "w' = w" "r = Inr zero_counts" by (simp_all add: processSearch_def)
    then show ?thesis using early by blast
  next
    case (Some search)
    show ?thesis
    proof (cases "s_isActive search")
      case False
      with run nofault Some have "w' = w" "r = Inr zero_counts"
        by (simp_all add: processSearch_def)
      then show ?thesis using early by blast
    next
      case active: True
      obtain rf w1 where f: "fetchCraigslistListings (browser env) (s_query search)
          (s_zipcode search) (Some (searchOptions search)) w = (rf, w1)"
        by (cases "fetchCraigslistListings (browser env) (s_query search)
          (s_zipcode search) (Some (searchOptions search)) w") auto
      show ?thesis
      proof (cases rf)
        case (Inl e)
        with run nofault Some active f have "w' = w1" "r = Inl e"
          by (simp_all add: processSearch_def)
        with f Inl show ?thesis using fetch_thrown [OF nofault Some active] by blast
      next
        case (Inr cands)
        show ?thesis
        proof (cases "unset (GEMINI_API_KEY env)")
          case True
          with run nofault Some active f Inr have "w' = w1" "r = Inr zero_counts"
            by (simp_all add: processSearch_def)
          with f Inr True show ?thesis using no_key [OF nofault Some active] by blast
        next
          case key: False
          obtain rl w2 where l: "processListings env search (the (GEMINI_API_KEY env)) cands
              \<lparr> n_newListings = 0, n_goodDeals = 0, dealsToAlert = [] \<rparr> w1 = (rl, w2)"
            by (cases "processListings env search (the (GEMINI_API_KEY env)) cands
              \<lparr> n_newListings = 0, n_goodDeals = 0, dealsToAlert = [] \<rparr> w1") auto
          show ?thesis
          proof (cases rl)
            case (Inl e)
            with run nofault Some active f Inr key l have "w' = w2" "r = Inl e"
              by (simp_all add: processSearch_def)
            with f Inr l Inl show ?thesis
              using loop_thrown [OF nofault Some active _ key] by blast
          next
            case (Inr st)
            with run nofault Some active f \<open>rf = Inr cands\<close> key l
            have "finishScan env search st w2 = (r, w')"
              by (simp add: processSearch_def)
            with f \<open>rf = Inr cands\<close> l Inr show ?thesis
              using finished [OF nofault Some active _ key] by blast
          qed
        qed
      qed
    qed
  qed
qed

text \<open>What follows the loop.\<close>

lemma finishScan_effect:
  assumes fin: "finishScan env search st w = (r, w')"
  shows "(dbFault env (SearchUpdate (s_id search)) \<and> r = Inl PersistenceError \<and> w' = w)
       \<or> (searches w' = map (setLastChecked (s_id search) (now env (s_id search))) (searches w)
          \<and> browserInstance w' = browserInstance w
          \<and> ((dealsToAlert st = [] \<and> trace w' = trace w @ [LastCheckedSet (s_id search)]
                \<and> listings w' = listings w
                \<and> r = Inr \<lparr> newListings = n_newListings st, goodDeals = n_goodDeals st, alertsSent = 0 \<rparr>)
            \<or> (dealsToAlert st \<noteq> []
                \<and> (\<exists>params sent. p_deals params = dealsToAlert st
                      \<and> sent = sendDealAlertEmail env params
                      \<and> trace w' = trace w @ [LastCheckedSet (s_id search), Notified params sent]
                      \<and> ((\<not> sent \<and> listings w' = listings w
                            \<and> r = Inr \<lparr> newListings = n_newListings st, goodDeals = n_goodDeals st,
                                         alertsSent = 0 \<rparr>)
                        \<or> (sent \<and> listings w' = listings w \<and> r = Inl PersistenceError)
                        \<or> (sent \<and> listings w' = map (markAlerted (s_id search)) (listings w)
                            \<and> r = Inr \<lparr> newListings = n_newListings st, goodDeals = n_goodDeals st,
                                         alertsSent = length (dealsToAlert st) \<rparr>))))))"
proof (cases "dbFault env (SearchUpdate (s_id search))")
  case True
  with fin show ?thesis by (simp add: finishScan_def)
next
  case upd: False
  let ?w1 = "emit (LastCheckedSet (s_id search))
               (w\<lparr> searches := map (setLastChecked (s_id search) (now env (s_id search))) (searches w) \<rparr>)"
  have w1: "searches ?w1 = map (setLastChecked (s_id search) (now env (s_id search))) (searches w)"
    "browserInstance ?w1 = browserInstance w" "listings ?w1 = listings w"
    "trace ?w1 = trace w @ [LastCheckedSet (s_id search)]"
    by (simp_all add: emit_def)
  show ?thesis
  proof (cases "dealsToAlert st = []")
    case True
    with upd have "finishScan env search st w
        = (Inr \<lparr> newListings = n_newListings st, goodDeals = n_goodDeals st, alertsSent = 0 \<rparr>, ?w1)"
      by (simp add: finishScan_def Let_def)
    with fin have "r = Inr \<lparr> newListings = n_newListings st, goodDeals = n_goodDeals st, alertsSent = 0 \<rparr>"
      "w' = ?w1" by simp_all
    with True w1 show ?thesis by simp
  next
    case deals: False
    let ?params = "\<lparr> p_recipientEmail = u_email (s_user search),
                      p_recipientName = u_name (s_user search),
                      p_searchQuery = s_query search,
                      p_zipcode = s_zipcode search,
                      p_deals = dealsToAlert st \<rparr>"
    let ?sent = "sendDealAlertEmail env ?params"
    let ?w2 = "emit (Notified ?params ?sent) ?w1"
    have pd: "p_deals ?params = dealsToAlert st" by simp
    have w2: "searches ?w2 = map (setLastChecked (s_id search) (now env (s_id search))) (searches w)"
      "browserInstance ?w2 = browserInstance w" "listings ?w2 = listings w"
      "trace ?w2 = trace w @ [LastCheckedSet (s_id search), Notified ?params ?sent]"
      by (simp_all add: emit_def)
    let ?w3 = "?w2\<lparr> listings := map (markAlerted (s_id search)) (listings ?w2) \<rparr>"
    have w3: "searches ?w3 = map (setLastChecked (s_id search) (now env (s_id search))) (searches w)"
      "browserInstance ?w3 = browserInstance w"
      "listings ?w3 = map (markAlerted (s_id search)) (listings w)"
      "trace ?w3 = trace w @ [LastCheckedSet (s_id search), Notified ?params ?sent]"
      by (simp_all add: emit_def)
    consider (unsent) "\<not> ?sent"
      | (lost) "?sent" "dbFault env (ListingUpdateMany (s_id search))"
      | (marked) "?sent" "\<not> dbFault env (ListingUpdateMany (s_id search))"
      by blast
    then show ?thesis
    proof cases
      case unsent
      with upd deals have "finishScan env search st w
          = (Inr \<lparr> newListings = n_newListings st, goodDeals = n_goodDeals st, alertsSent = 0 \<rparr>, ?w2)"
        by (simp add: finishScan_def Let_def)
      with fin have rw: "r = Inr \<lparr> newListings = n_newListings st, goodDeals = n_goodDeals st, alertsSent = 0 \<rparr>"
        "w' = ?w2" by simp_all
      have "\<exists>params sent. p_deals params = dealsToAlert st
                      \<and> sent = sendDealAlertEmail env params
                      \<and> trace w' = trace w @ [LastCheckedSet (s_id search), Notified params sent]
                      \<and> \<not> sent \<and> listings w' = listings w"
        using pd unsent w2(3,4) unfolding rw(2) by blast
      with deals rw(1) w2(1,2) show ?thesis unfolding rw(2) by blast
    next
      case lost
      with upd deals have "finishScan env search st w = (Inl PersistenceError, ?w2)"
        by (simp add: finishScan_def Let_def)
      with fin have rw: "r = Inl PersistenceError" "w' = ?w2" by simp_all
      have "\<exists>params sent. p_deals params = dealsToAlert st
                      \<and> sent = sendDealAlertEmail env params
                      \<and> trace w' = trace w @ [LastCheckedSet (s_id search), Notified params sent]
                      \<and> sent \<and> listings w' = listings w"
        using pd lost(1) w2(3,4) unfolding rw(2) by blast
      with deals rw(1) w2(1,2) show ?thesis unfolding rw(2) by blast
    next
      case marked
      with upd deals have "finishScan env search st w
          = (Inr \<lparr> newListings = n_newListings st, goodDeals = n_goodDeals st,
                     alertsSent = length (dealsToAlert st) \<rparr>, ?w3)"
        by (simp add: finishScan_def Let_def)
      with fin have rw: "r = Inr \<lparr> newListings = n_newListings st, goodDeals = n_goodDeals st,
                     alertsSent = length (dealsToAlert st) \<rparr>"
        "w' = ?w3" by simp_all
      have "\<exists>params sent. p_deals params = dealsToAlert st
                      \<and> sent = sendDealAlertEmail env params
                      \<and> trace w' = trace w @ [LastCheckedSet (s_id search), Notified params sent]
                      \<and> sent \<and> listings w' = map (markAlerted (s_id search)) (listings w)"
        using pd marked(1) w3(3,4) unfolding rw(2) by blast
      with deals rw(1) w3(1,2) show ?thesis unfolding rw(2) by blast
    qed
  qed
qed

lemma fetch_segment:
  assumes "fetchCraigslistListings b q z opts w = (r, w1)"
  shows "\<exists>trf. trace w1 = trace w @ trf \<and> createdRows trf = [] \<and> evaluatedKeys trf = []
           \<and> listings w1 = listings w \<and> searches w1 = searches w
           \<and> (\<forall>ev \<in> set trf. ev = Navigated (buildSearchUrl q z opts))"
proof -
  from fetch_effect [OF assms] have l: "listings w1 = listings w" "searches w1 = searches w"
    and t: "trace w1 = trace w \<or> trace w1 = trace w @ [Navigated (buildSearchUrl q z opts)]"
    by blast+
  from t show ?thesis
  proof
    assume "trace w1 = trace w"
    with l show ?thesis by (intro exI [of _ "[]"]) simp
  next
    assume "trace w1 = trace w @ [Navigated (buildSearchUrl q z opts)]"
    with l show ?thesis by (intro exI [of _ "[Navigated (buildSearchUrl q z opts)]"]) simp
  qed
qed

lemma finish_segment:
  assumes "finishScan env search st w2 = (r, w')"
  shows "\<exists>trz. trace w' = trace w2 @ trz \<and> createdRows trz = [] \<and> evaluatedKeys trz = []
           \<and> keysOf (listings w') = keysOf (listings w2)
           \<and> (\<forall>ev \<in> set trz. \<forall>u. ev \<noteq> Navigated u)"
proof -
  from finishScan_effect [OF assms] consider
      (a) "w' = w2"
    | (b) "trace w' = trace w2 @ [LastCheckedSet (s_id search)]" "listings w' = listings w2"
    | (c) params sent where
        "trace w' = trace w2 @ [LastCheckedSet (s_id search), Notified params sent]"
        "listings w' = listings w2 \<or> listings w' = map (markAlerted (s_id search)) (listings w2)"
    by blast
  then show ?thesis
  proof cases
    case a
    then show ?thesis by (intro exI [of _ "[]"]) simp
  next
    case b
    then show ?thesis by (intro exI [of _ "[LastCheckedSet (s_id search)]"]) simp
  next
    case c
    from c(2) have "keysOf (listings w') = keysOf (listings w2)"
      by (auto simp: keysOf_markAlerted)
    with c(1) show ?thesis
      by (intro exI [of _ "[LastCheckedSet (s_id search), Notified params sent]"]) simp
  qed
qed

text \<open>
  One scan, whatever its outcome: the rows it inserts are rows of this search for pairs that
  had no row, one for each pair, and it sends to the evaluator no candidate whose pair had
  a row, and no pair twice.
\<close>

lemma processSearch_effect:
  assumes run: "processSearch env sid w = (r, w')"
  shows "\<exists>tr. trace w' = trace w @ tr
       \<and> keysOf (listings w') = keysOf (listings w) @ keysOf (createdRows tr)
       \<and> distinct (keysOf (createdRows tr))
       \<and> set (keysOf (createdRows tr)) \<inter> set (keysOf (listings w)) = {}
       \<and> set (evaluatedKeys tr) \<inter> set (keysOf (listings w)) = {}
       \<and> (\<forall>row \<in> set (createdRows tr). l_searchId row = sid \<and> \<not> l_alertSent row)
       \<and> distinct (evaluatedKeys tr)"
  using run
proof (cases rule: processSearch_cases)
  case early
  then show ?thesis by (intro exI [of _ "[]"]) simp
next
  case (fetch_thrown search e)
  from fetch_segment [OF fetch_thrown(4)] obtain trf where
    "trace w' = trace w @ trf" "createdRows trf = []" "evaluatedKeys trf = []"
    "listings w' = listings w" by blast
  then show ?thesis by (intro exI [of _ trf]) simp
next
  case (no_key search cands)
  from fetch_segment [OF no_key(4)] obtain trf where
    "trace w' = trace w @ trf" "createdRows trf = []" "evaluatedKeys trf = []"
    "listings w' = listings w" by blast
  then show ?thesis by (intro exI [of _ trf]) simp
next
  case (loop_thrown search cands w1 e)
  have sid: "s_id search = sid" using loop_thrown(2) by (rule find_id)
  from fetch_segment [OF loop_thrown(4)] obtain trf where f:
    "trace w1 = trace w @ trf" "createdRows trf = []" "evaluatedKeys trf = []"
    "listings w1 = listings w" by blast
  from processListings_effect [OF loop_thrown(6)] obtain trl where
    "loopSummary (s_id search) cands \<lparr> n_newListings = 0, n_goodDeals = 0, dealsToAlert = [] \<rparr>
       w1 (Inl e) w' trl" ..
  then have l: "trace w' = trace w1 @ trl" "listings w' = listings w1 @ createdRows trl"
    "distinct (keysOf (createdRows trl))"
    "set (keysOf (createdRows trl)) \<inter> set (keysOf (listings w1)) = {}"
    "set (evaluatedKeys trl) \<inter> set (keysOf (listings w1)) = {}"
    "\<forall>row \<in> set (createdRows trl). l_searchId row = s_id search \<and> \<not> l_alertSent row"
    "distinct (evaluatedKeys trl)"
    unfolding loopSummary_def by blast+
  have c: "createdRows (trf @ trl) = createdRows trl" "evaluatedKeys (trf @ trl) = evaluatedKeys trl"
    using f(2,3) by (simp_all add: createdRows_append evaluatedKeys_append)
  show ?thesis
    apply (rule exI [of _ "trf @ trl"])
    unfolding c
    using f(1,4) l sid by simp
next
  case (finished search cands w1 st w2)
  have sid: "s_id search = sid" using finished(2) by (rule find_id)
  from fetch_segment [OF finished(4)] obtain trf where f:
    "trace w1 = trace w @ trf" "createdRows trf = []" "evaluatedKeys trf = []"
    "listings w1 = listings w" by blast
  from processListings_effect [OF finished(6)] obtain trl where
    "loopSummary (s_id search) cands \<lparr> n_newListings = 0, n_goodDeals = 0, dealsToAlert = [] \<rparr>
       w1 (Inr st) w2 trl" ..
  then have l: "trace w2 = trace w1 @ trl" "listings w2 = listings w1 @ createdRows trl"
    "distinct (keysOf (createdRows trl))"
    "set (keysOf (createdRows trl)) \<inter> set (keysOf (listings w1)) = {}"
    "set (evaluatedKeys trl) \<inter> set (keysOf (listings w1)) = {}"
    "\<forall>row \<in> set (createdRows trl). l_searchId row = s_id search \<and> \<not> l_alertSent row"
    "distinct (evaluatedKeys trl)"
    unfolding loopSummary_def by blast+
  from finish_segment [OF finished(7)] obtain trz where z:
    "trace w' = trace w2 @ trz" "createdRows trz = []" "evaluatedKeys trz = []"
    "keysOf (listings w') = keysOf (listings w2)" by blast
  have c: "createdRows (trf @ trl @ trz) = createdRows trl"
    "evaluatedKeys (trf @ trl @ trz) = evaluatedKeys trl"
    using f(2,3) z(2,3) by (simp_all add: createdRows_append evaluatedKeys_append)
  show ?thesis
    apply (rule exI [of _ "trf @ trl @ trz"])
    unfolding c
    using f(1,4) l z(1,4) sid by simp
qed

lemma scanEvents_eq:
  assumes "processSearch env sid w = (r, w')" and "trace w' = trace w @ tr"
  shows "scanEvents env sid w = tr"
  using assms by (simp add: scanEvents_def)

subsection \<open>The sample worlds, computed\<close>

lemma sample_url_built:
  "buildSearchUrl ''road bike'' ''94110'' (Some (searchOptions (sample_search sid))) = sample_url"
  by (simp add: buildSearchUrl_def searchOptions_def sample_search_def fromCents_def given_def
        getRegionFromZipcode_def ZIP_TO_REGION_def getCategoryFromQuery_def CATEGORY_MAP_def
        toLowerCase_def lower_char_def capitals_def smalls_def startsWith_def sample_url_def)

lemma trek_listing:
  "toListing (showing rows) ''94110'' trek
     = candidate ''7712345678'' ''/sfo/bik/d/trek-520/7712345678.html'' ''Trek 520''"
  by (simp add: toListing_def trek_def posting_def showing_def fetchListingDetails_def
        extractListingId_def is_digit_def startsWith_def getRegionFromZipcode_def
        ZIP_TO_REGION_def nonempty_def firstImage_def candidate_def)

lemma fuji_listing:
  "toListing (showing rows) ''94110'' fuji
     = candidate ''7700000001'' ''/sfo/bik/d/fuji-touring/7700000001.html'' ''Fuji Touring''"
  by (simp add: toListing_def fuji_def posting_def showing_def fetchListingDetails_def
        extractListingId_def is_digit_def startsWith_def getRegionFromZipcode_def
        ZIP_TO_REGION_def nonempty_def firstImage_def candidate_def)

lemma eval80:
  "evaluateListing (replying reply80 reply80 obj80) l k
   = \<lparr> score = Fin 80, isGoodDeal = True, reasoning = None, identifiedProduct = None,
       retailPriceRange = None, condition = Some (JStr ''good''), marketComparison = None \<rparr>"
proof -
  have a: "responseText (replying reply80 reply80 obj80) l k = Inr reply80"
    by (simp add: responseText_def replying_def trim_def is_space_def reply80_def)
  have b: "extractJson (replying reply80 reply80 obj80) reply80 = Inr obj80"
    by (simp add: extractJson_def match_json_def replying_def reply80_def)
  have c: "ToNumber (runtime (replying reply80 reply80 obj80)) (map_of obj80 ''score'')
             = Inr (Fin 80)"
    by (simp add: obj80_def)
  show ?thesis
    unfolding evaluateListing_success [OF a b postProcess_Inr [OF c]]
    by (simp add: obj80_def floor_eq_iff)
qed

lemma sample_reason:
  "dealReasonOf rt (evaluateListing (replying reply80 reply80 obj80) l k) = Inr []"
  unfolding eval80 by (simp add: dealReasonOf_def List.map_filter_simps)

lemma sample_newRow:
  "newRow search (candidate x u t) (evaluateListing (replying reply80 reply80 obj80) l k) []
     = stored (s_id search) x u t False"
  unfolding eval80
  by (simp add: newRow_def stored_def candidate_def rangeBound_def)

lemma sample_newAlert:
  "newAlert (stored sid x u t False) (evaluateListing (replying reply80 reply80 obj80) l k)
     = alertFor (stored sid x u t False)"
  unfolding eval80
  by (simp add: newAlert_def alertFor_def)

lemma showing_rows:
  "searchPageRows (showing rows) u 15 = Inr (take 15 rows)"
  by (simp add: searchPageRows_def showing_def)

lemma sample_limit: "o_limit (searchOptions s) = Some 15"
  by (simp add: searchOptions_def)

lemma sample_fields:
  "b_url trek \<noteq> []" "b_title trek \<noteq> []" "b_url fuji \<noteq> []" "b_title fuji \<noteq> []"
  by (simp_all add: trek_def fuji_def posting_def)

lemma showing_fetch:
  "fetchCraigslistListings (showing rows) ''road bike'' ''94110''
     (Some (searchOptions (sample_search sid))) w
   = (Inr (collectListings (showing rows) ''94110'' (take (min 10 (length (take 15 rows))) (take 15 rows))),
      emit (Navigated sample_url) (w\<lparr> browserInstance := True \<rparr>))"
proof -
  have b: "\<not> launchFails (showing rows)" "\<not> newContextFails (showing rows)"
    by (simp_all add: showing_def)
  have same: "w\<lparr> browserInstance := True \<rparr> = w" if "browserInstance w"
    using that by (cases w) simp
  show ?thesis
    by (cases "browserInstance w")
       (simp_all add: fetchCraigslistListings_def Let_def getBrowser_def sample_limit showing_rows b
          sample_url_built same)
qed

text \<open>One step of the loop in the sample worlds: a candidate without a row, and one with.\<close>

lemma sample_step_new:
  assumes "find (sameKey sid x) (listings w) = None" and s: "s_id search = sid"
  shows "processListing (outside (Some key) outcome b) search key (candidate x u t) st w
     = (Inr \<lparr> n_newListings = n_newListings st + 1, n_goodDeals = n_goodDeals st + 1,
               dealsToAlert = dealsToAlert st @ [alertFor (stored sid x u t False)] \<rparr>,
        w\<lparr> listings := listings w @ [stored sid x u t False],
           trace := trace w @ [Evaluated sid x, Created (stored sid x u t False)] \<rparr>)"
proof -
  have e: "ai (outside (Some key) outcome b) = replying reply80 reply80 obj80"
    "dbFault (outside (Some key) outcome b) = (\<lambda>c. c = SearchFindUnique ''s2'')"
    by (simp_all add: outside_def)
  have c: "c_externalId (candidate x u t) = x" by (simp add: candidate_def)
  have k: "l_searchId (stored sid x u t False) = sid" "l_externalId (stored sid x u t False) = x"
    "l_isGoodDeal (stored sid x u t False)"
    by (simp_all add: stored_def)
  show ?thesis
    using assms(1)
    by (simp add: processListing_def Let_def e s c sample_reason sample_newRow sample_newAlert
          listing_create_def emit_def k)
qed

lemma sample_step_old:
  assumes "find (sameKey sid x) (listings w) = Some l" and s: "s_id search = sid"
  shows "processListing (outside (Some key) outcome b) search key (candidate x u t) st w
     = (Inr st, w)"
proof -
  have e: "dbFault (outside (Some key) outcome b) = (\<lambda>c. c = SearchFindUnique ''s2'')"
    by (simp add: outside_def)
  have c: "c_externalId (candidate x u t) = x" by (simp add: candidate_def)
  show ?thesis
    using assms(1) by (simp add: processListing_def e s c)
qed


lemma sample_search_found:
  "find (\<lambda>s. s_id s = ''s1'') (searches world0) = Some (sample_search ''s1'')"
  "find (\<lambda>s. s_id s = ''s1'') (searches world1)
     = Some ((sample_search ''s1'')\<lparr> s_lastChecked := Some 1000 \<rparr>)"
  by (simp_all add: world0_def world1_def sample_search_def)

lemma outside_fields:
  "GEMINI_API_KEY (outside key outcome b) = key"
  "RESEND_API_KEY (outside key outcome b) = Some ''re_key''"
  "browser (outside key outcome b) = b"
  "dbFault (outside key outcome b) c = (c = SearchFindUnique ''s2'')"
  "resend_send (outside key outcome b) p = outcome"
  "now (outside key outcome b) s = 1000"
  by (simp_all add: outside_def)

lemma sample_search_fields:
  "s_id (sample_search sid) = sid" "s_query (sample_search sid) = ''road bike''"
  "s_zipcode (sample_search sid) = ''94110''" "s_isActive (sample_search sid)"
  "s_user (sample_search sid) = sample_user"
  by (simp_all add: sample_search_def)

lemma run1_loop:
  "processListings (outside (Some ''g_key'') ProviderError (showing [trek, trek]))
     (sample_search ''s1'') ''g_key''
     [candidate ''7712345678'' ''/sfo/bik/d/trek-520/7712345678.html'' ''Trek 520'',
      candidate ''7712345678'' ''/sfo/bik/d/trek-520/7712345678.html'' ''Trek 520'']
     \<lparr> n_newListings = 0, n_goodDeals = 0, dealsToAlert = [] \<rparr>
     (emit (Navigated sample_url) (world0\<lparr> browserInstance := True \<rparr>))
   = (Inr \<lparr> n_newListings = 1, n_goodDeals = 1, dealsToAlert = [alertFor (trek_row False)] \<rparr>,
      world0\<lparr> browserInstance := True, listings := [trek_row False],
              trace := [Navigated sample_url, Evaluated ''s1'' ''7712345678'',
                        Created (trek_row False)] \<rparr>)"
proof -
  let ?wa = "emit (Navigated sample_url) (world0\<lparr> browserInstance := True \<rparr>)"
  let ?wb = "?wa\<lparr> listings := listings ?wa @ [trek_row False],
                 trace := trace ?wa @ [Evaluated ''s1'' ''7712345678'', Created (trek_row False)] \<rparr>"
  have s: "s_id (sample_search ''s1'') = ''s1''" by (simp add: sample_search_def)
  have a: "find (sameKey ''s1'' ''7712345678'') (listings ?wa) = None"
    by (simp add: emit_def world0_def)
  have b: "find (sameKey ''s1'' ''7712345678'') (listings ?wb) = Some (trek_row False)"
    by (simp add: emit_def world0_def sameKey_def trek_row_def stored_def)
  show ?thesis
    by (simp add: sample_step_new [OF a s] sample_step_old [OF b s] trek_row_def [symmetric])
       (simp add: emit_def world0_def)
qed


lemma run1:
  "processSearch (outside (Some ''g_key'') ProviderError (showing [trek, trek])) ''s1'' world0
   = (Inr \<lparr> newListings = 1, goodDeals = 1, alertsSent = 0 \<rparr>, world1)"
proof -
  let ?env = "outside (Some ''g_key'') ProviderError (showing [trek, trek])"
  let ?c = "candidate ''7712345678'' ''/sfo/bik/d/trek-520/7712345678.html'' ''Trek 520''"
  let ?wa = "emit (Navigated sample_url) (world0\<lparr> browserInstance := True \<rparr>)"
  let ?wb = "world0\<lparr> browserInstance := True, listings := [trek_row False],
              trace := [Navigated sample_url, Evaluated ''s1'' ''7712345678'',
                        Created (trek_row False)] \<rparr>"
  have f: "fetchCraigslistListings (showing [trek, trek]) ''road bike'' ''94110''
             (Some (searchOptions (sample_search ''s1''))) world0 = (Inr [?c, ?c], ?wa)"
    by (simp add: showing_fetch sample_fields trek_listing)
  have fin: "finishScan ?env (sample_search ''s1'')
               \<lparr> n_newListings = 1, n_goodDeals = 1, dealsToAlert = [alertFor (trek_row False)] \<rparr> ?wb
             = (Inr \<lparr> newListings = 1, goodDeals = 1, alertsSent = 0 \<rparr>, world1)"
    by (simp add: finishScan_def Let_def outside_fields sample_search_fields sendDealAlertEmail_def
          unset_def emit_def world0_def world1_def setLastChecked_def mailFor_def sample_user_def)
  have "processSearch ?env ''s1'' world0
          = finishScan ?env (sample_search ''s1'')
              \<lparr> n_newListings = 1, n_goodDeals = 1, dealsToAlert = [alertFor (trek_row False)] \<rparr> ?wb"
    by (simp add: processSearch_def outside_fields sample_search_found sample_search_fields f
          unset_def run1_loop del: processListings.simps)
  with fin show ?thesis by simp
qed

lemma run2_loop:
  "processListings (outside (Some ''g_key'') Delivered (showing [fuji, trek]))
     ((sample_search ''s1'')\<lparr> s_lastChecked := Some 1000 \<rparr>) ''g_key''
     [candidate ''7700000001'' ''/sfo/bik/d/fuji-touring/7700000001.html'' ''Fuji Touring'',
      candidate ''7712345678'' ''/sfo/bik/d/trek-520/7712345678.html'' ''Trek 520'']
     \<lparr> n_newListings = 0, n_goodDeals = 0, dealsToAlert = [] \<rparr>
     (emit (Navigated sample_url) (world1\<lparr> browserInstance := True \<rparr>))
   = (Inr \<lparr> n_newListings = 1, n_goodDeals = 1, dealsToAlert = [alertFor (fuji_row False)] \<rparr>,
      world1\<lparr> listings := [trek_row False, fuji_row False],
              trace := trace world1 @ [Navigated sample_url, Evaluated ''s1'' ''7700000001'',
                        Created (fuji_row False)] \<rparr>)"
proof -
  let ?wa = "emit (Navigated sample_url) (world1\<lparr> browserInstance := True \<rparr>)"
  let ?wb = "?wa\<lparr> listings := listings ?wa @ [fuji_row False],
                 trace := trace ?wa @ [Evaluated ''s1'' ''7700000001'', Created (fuji_row False)] \<rparr>"
  have s: "s_id ((sample_search ''s1'')\<lparr> s_lastChecked := Some 1000 \<rparr>) = ''s1''"
    by (simp add: sample_search_def)
  have a: "find (sameKey ''s1'' ''7700000001'') (listings ?wa) = None"
    by (simp add: emit_def world1_def sameKey_def trek_row_def stored_def)
  have b: "find (sameKey ''s1'' ''7712345678'') (listings ?wb) = Some (trek_row False)"
    by (simp add: emit_def world1_def sameKey_def trek_row_def stored_def)
  show ?thesis
    by (simp add: sample_step_new [OF a s] sample_step_old [OF b s] fuji_row_def [symmetric])
       (simp add: emit_def world1_def)
qed


lemma run2:
  "processSearch (outside (Some ''g_key'') Delivered (showing [fuji, trek])) ''s1'' world1
   = (Inr \<lparr> newListings = 1, goodDeals = 1, alertsSent = 1 \<rparr>, world2)"
proof -
  let ?env = "outside (Some ''g_key'') Delivered (showing [fuji, trek])"
  let ?search = "(sample_search ''s1'')\<lparr> s_lastChecked := Some 1000 \<rparr>"
  let ?cf = "candidate ''7700000001'' ''/sfo/bik/d/fuji-touring/7700000001.html'' ''Fuji Touring''"
  let ?ct = "candidate ''7712345678'' ''/sfo/bik/d/trek-520/7712345678.html'' ''Trek 520''"
  let ?wa = "emit (Navigated sample_url) (world1\<lparr> browserInstance := True \<rparr>)"
  let ?wb = "world1\<lparr> listings := [trek_row False, fuji_row False],
              trace := trace world1 @ [Navigated sample_url, Evaluated ''s1'' ''7700000001'',
                        Created (fuji_row False)] \<rparr>"
  have o: "searchOptions ?search = searchOptions (sample_search ''s1'')"
    by (simp add: searchOptions_def)
  have f: "fetchCraigslistListings (showing [fuji, trek]) ''road bike'' ''94110''
             (Some (searchOptions ?search)) world1 = (Inr [?cf, ?ct], ?wa)"
    unfolding o by (simp add: showing_fetch sample_fields trek_listing fuji_listing)
  have fin: "finishScan ?env ?search
               \<lparr> n_newListings = 1, n_goodDeals = 1, dealsToAlert = [alertFor (fuji_row False)] \<rparr> ?wb
             = (Inr \<lparr> newListings = 1, goodDeals = 1, alertsSent = 1 \<rparr>, world2)"
    by (simp add: finishScan_def Let_def outside_fields sample_search_fields sendDealAlertEmail_def
          unset_def emit_def world1_def world2_def setLastChecked_def mailFor_def sample_user_def
          markAlerted_def trek_row_def fuji_row_def stored_def)
  have "processSearch ?env ''s1'' world1
          = finishScan ?env ?search
              \<lparr> n_newListings = 1, n_goodDeals = 1, dealsToAlert = [alertFor (fuji_row False)] \<rparr> ?wb"
    by (simp add: processSearch_def outside_fields sample_search_found sample_search_fields f
          unset_def run2_loop del: processListings.simps)
  with fin show ?thesis by simp
qed

section \<open>Properties of the orchestrator\<close>

text \<open>
  C1. Two scans of one search, one after the other, whatever the acquisition adapter
  returns to each and in whatever order: the rows inserted by the two scans together have
  pairwise different external ids, none is inserted for a pair that had a row before the
  first scan, and neither scan inserts a row for, or sends to the evaluator, a candidate
  whose pair had a row when that scan began; the rows of the first scan are among those,
  so the second scan evaluates none of the pairs that the first one inserted. Within one
  scan no pair is sent to the evaluator twice: a candidate that comes again on the same
  page finds the row that its first occurrence inserted.
\<close>

theorem scan_twice_inserts_each_id_once:
  assumes run1: "processSearch env1 sid w0 = (r1, w1)"
    and run2: "processSearch env2 sid w1 = (r2, w2)"
  shows "distinct (map l_externalId (createdRows (scanEvents env1 sid w0 @ scanEvents env2 sid w1)))
       \<and> (\<forall>row \<in> set (createdRows (scanEvents env1 sid w0 @ scanEvents env2 sid w1)).
             l_searchId row = sid)
       \<and> set (keysOf (createdRows (scanEvents env1 sid w0 @ scanEvents env2 sid w1)))
             \<inter> set (keysOf (listings w0)) = {}
       \<and> set (keysOf (createdRows (scanEvents env2 sid w1))) \<inter> set (keysOf (listings w1)) = {}
       \<and> set (evaluatedKeys (scanEvents env1 sid w0)) \<inter> set (keysOf (listings w0)) = {}
       \<and> set (evaluatedKeys (scanEvents env2 sid w1)) \<inter> set (keysOf (listings w1)) = {}
       \<and> keysOf (listings w1) = keysOf (listings w0) @ keysOf (createdRows (scanEvents env1 sid w0))
       \<and> keysOf (listings w2) = keysOf (listings w1) @ keysOf (createdRows (scanEvents env2 sid w1))
       \<and> distinct (evaluatedKeys (scanEvents env1 sid w0))
       \<and> distinct (evaluatedKeys (scanEvents env2 sid w1))
       \<and> set (evaluatedKeys (scanEvents env2 sid w1))
             \<inter> set (keysOf (createdRows (scanEvents env1 sid w0))) = {}"
proof -
  from processSearch_effect [OF run1] obtain tr1 where t1:
    "trace w1 = trace w0 @ tr1"
    "keysOf (listings w1) = keysOf (listings w0) @ keysOf (createdRows tr1)"
    "distinct (keysOf (createdRows tr1))"
    "set (keysOf (createdRows tr1)) \<inter> set (keysOf (listings w0)) = {}"
    "set (evaluatedKeys tr1) \<inter> set (keysOf (listings w0)) = {}"
    "\<forall>row \<in> set (createdRows tr1). l_searchId row = sid \<and> \<not> l_alertSent row"
    "distinct (evaluatedKeys tr1)"
    by blast
  from processSearch_effect [OF run2] obtain tr2 where t2:
    "trace w2 = trace w1 @ tr2"
    "keysOf (listings w2) = keysOf (listings w1) @ keysOf (createdRows tr2)"
    "distinct (keysOf (createdRows tr2))"
    "set (keysOf (createdRows tr2)) \<inter> set (keysOf (listings w1)) = {}"
    "set (evaluatedKeys tr2) \<inter> set (keysOf (listings w1)) = {}"
    "\<forall>row \<in> set (createdRows tr2). l_searchId row = sid \<and> \<not> l_alertSent row"
    "distinct (evaluatedKeys tr2)"
    by blast
  have e1: "scanEvents env1 sid w0 = tr1" using run1 t1(1) by (rule scanEvents_eq)
  have e2: "scanEvents env2 sid w1 = tr2" using run2 t2(1) by (rule scanEvents_eq)
  let ?rows = "createdRows (tr1 @ tr2)"
  have rows: "?rows = createdRows tr1 @ createdRows tr2" by (rule createdRows_append)
  have sid: "\<forall>row \<in> set ?rows. l_searchId row = sid"
    unfolding rows using t1(6) t2(6) by auto
  have dk: "distinct (keysOf ?rows)"
    unfolding rows using t1(3) t2(3,4) unfolding t1(2) by auto
  have keys: "keysOf ?rows = map (Pair sid) (map l_externalId ?rows)"
    using sid by (simp add: keysOf_def)
  from dk have "distinct (map (Pair sid) (map l_externalId ?rows))"
    unfolding keys .
  then have dx: "distinct (map l_externalId ?rows)"
    by (rule distinct_map [THEN iffD1, THEN conjunct1])
  have old: "set (keysOf ?rows) \<inter> set (keysOf (listings w0)) = {}"
    unfolding rows using t1(4) t2(4) unfolding t1(2) by auto
  have again: "set (evaluatedKeys tr2) \<inter> set (keysOf (createdRows tr1)) = {}"
    using t2(5) unfolding t1(2) by auto
  show ?thesis
    unfolding e1 e2
    using dx sid old t2(4) t1(5) t2(5) t1(2) t2(2) t1(7) t2(7) again by (intro conjI)
qed


lemma run1_events:
  "scanEvents (outside (Some ''g_key'') ProviderError (showing [trek, trek])) ''s1'' world0
     = trace world1"
  by (simp add: scanEvents_def run1) (simp add: world0_def)

lemma run2_events:
  "scanEvents (outside (Some ''g_key'') Delivered (showing [fuji, trek])) ''s1'' world1
     = [Navigated sample_url, Evaluated ''s1'' ''7700000001'', Created (fuji_row False),
        LastCheckedSet ''s1'', Notified (mailFor [fuji_row False]) True]"
  by (simp add: scanEvents_def run2) (simp add: world2_def)

lemma world1_trace: "createdRows (trace world1) = [trek_row False]"
  by (simp add: world1_def)

lemma sample_row_ids:
  "l_externalId (trek_row b) = ''7712345678''" "l_externalId (fuji_row b) = ''7700000001''"
  "l_searchId (trek_row b) = ''s1''" "l_searchId (fuji_row b) = ''s1''"
  "l_isGoodDeal (trek_row b)" "l_isGoodDeal (fuji_row b)"
  "l_alertSent (trek_row b) = b" "l_alertSent (fuji_row b) = b"
  by (simp_all add: trek_row_def fuji_row_def stored_def)

theorem scan_twice_inserts_each_id_once_witness:
  "processSearch (outside (Some ''g_key'') ProviderError (showing [trek, trek])) ''s1'' world0
     = (Inr \<lparr> newListings = 1, goodDeals = 1, alertsSent = 0 \<rparr>, world1)
   \<and> processSearch (outside (Some ''g_key'') Delivered (showing [fuji, trek])) ''s1'' world1
     = (Inr \<lparr> newListings = 1, goodDeals = 1, alertsSent = 1 \<rparr>, world2)
   \<and> map l_externalId (createdRows
         (scanEvents (outside (Some ''g_key'') ProviderError (showing [trek, trek])) ''s1'' world0
          @ scanEvents (outside (Some ''g_key'') Delivered (showing [fuji, trek])) ''s1'' world1))
       = [''7712345678'', ''7700000001'']
   \<and> distinct (map l_externalId (createdRows
         (scanEvents (outside (Some ''g_key'') ProviderError (showing [trek, trek])) ''s1'' world0
          @ scanEvents (outside (Some ''g_key'') Delivered (showing [fuji, trek])) ''s1'' world1)))
   \<and> keysOf (listings world1) = [(''s1'', ''7712345678'')]
   \<and> evaluatedKeys
         (scanEvents (outside (Some ''g_key'') ProviderError (showing [trek, trek])) ''s1'' world0)
       = [(''s1'', ''7712345678'')]
   \<and> evaluatedKeys
         (scanEvents (outside (Some ''g_key'') Delivered (showing [fuji, trek])) ''s1'' world1)
       = [(''s1'', ''7700000001'')]
   \<and> keysOf (listings world2) = [(''s1'', ''7712345678''), (''s1'', ''7700000001'')]"
proof -
  note both = scan_twice_inserts_each_id_once [OF run1 run2]
  have ids: "map l_externalId (createdRows
         (scanEvents (outside (Some ''g_key'') ProviderError (showing [trek, trek])) ''s1'' world0
          @ scanEvents (outside (Some ''g_key'') Delivered (showing [fuji, trek])) ''s1'' world1))
       = [''7712345678'', ''7700000001'']"
    by (simp add: run1_events run2_events createdRows_append world1_trace sample_row_ids)
  have k1: "keysOf (listings world1) = [(''s1'', ''7712345678'')]"
    by (simp add: world1_def sample_row_ids)
  have ev1: "evaluatedKeys
         (scanEvents (outside (Some ''g_key'') ProviderError (showing [trek, trek])) ''s1'' world0)
       = [(''s1'', ''7712345678'')]"
    by (simp add: run1_events world1_def)
  have ev: "evaluatedKeys
         (scanEvents (outside (Some ''g_key'') Delivered (showing [fuji, trek])) ''s1'' world1)
       = [(''s1'', ''7700000001'')]"
    by (simp add: run2_events)
  have k2: "keysOf (listings world2) = [(''s1'', ''7712345678''), (''s1'', ''7700000001'')]"
    using both k1 by (simp add: run2_events sample_row_ids)
  from both have d: "distinct (map l_externalId (createdRows
         (scanEvents (outside (Some ''g_key'') ProviderError (showing [trek, trek])) ''s1'' world0
          @ scanEvents (outside (Some ''g_key'') Delivered (showing [fuji, trek])) ''s1'' world1)))"
    by (rule conjunct1)
  from run1 run2 ids d k1 ev1 ev k2 show ?thesis by (intro conjI)
qed


lemma markAlerted_other: "l_searchId l \<noteq> sid \<Longrightarrow> markAlerted sid l = l"
  by (simp add: markAlerted_def)

lemma markAlerted_poor: "\<not> l_isGoodDeal l \<Longrightarrow> markAlerted sid l = l"
  by (simp add: markAlerted_def)






lemma find_setLastChecked:
  assumes "find (\<lambda>s. s_id s = sid) ss = Some search"
  shows "find (\<lambda>s. s_id s = sid) (map (setLastChecked sid t) ss)
           = Some (search\<lparr> s_lastChecked := Some t \<rparr>)"
  using assms
proof (induction ss)
  case Nil
  then show ?case by simp
next
  case (Cons a ss)
  then show ?case
    by (cases "s_id a = sid") (simp_all add: setLastChecked_def)
qed

text \<open>
  C6, as stated, fails: without the credential of the model the scan of an existing, active
  search returns zero counts and leaves \<open>lastChecked\<close> as it was, here never set.
\<close>

theorem lastChecked_missing_credential_counterexample:
  "find (\<lambda>s. s_id s = ''s1'') (searches world0) = Some (sample_search ''s1'')
   \<and> s_isActive (sample_search ''s1'')
   \<and> s_lastChecked (sample_search ''s1'') = None
   \<and> fst (processSearch (outside None Delivered (showing [trek])) ''s1'' world0) = Inr zero_counts
   \<and> searches (snd (processSearch (outside None Delivered (showing [trek])) ''s1'' world0))
       = [sample_search ''s1'']
   \<and> LastCheckedSet ''s1''
       \<notin> set (scanEvents (outside None Delivered (showing [trek])) ''s1'' world0)"
proof -
  let ?c = "candidate ''7712345678'' ''/sfo/bik/d/trek-520/7712345678.html'' ''Trek 520''"
  have f: "fetchCraigslistListings (showing [trek]) ''road bike'' ''94110''
             (Some (searchOptions (sample_search ''s1''))) world0
           = (Inr [?c], emit (Navigated sample_url) (world0\<lparr> browserInstance := True \<rparr>))"
    by (simp add: showing_fetch sample_fields trek_listing)
  have run: "processSearch (outside None Delivered (showing [trek])) ''s1'' world0
           = (Inr zero_counts, emit (Navigated sample_url) (world0\<lparr> browserInstance := True \<rparr>))"
    by (simp add: processSearch_def outside_fields sample_search_found sample_search_fields f
          unset_def del: processListings.simps)
  have a: "s_lastChecked (sample_search ''s1'') = None" by (simp add: sample_search_def)
  have b: "fst (processSearch (outside None Delivered (showing [trek])) ''s1'' world0)
             = Inr zero_counts"
    by (simp add: run)
  have c: "searches (snd (processSearch (outside None Delivered (showing [trek])) ''s1'' world0))
       = [sample_search ''s1'']"
    by (simp add: run) (simp add: emit_def world0_def)
  have d: "LastCheckedSet ''s1''
       \<notin> set (scanEvents (outside None Delivered (showing [trek])) ''s1'' world0)"
    by (simp add: scanEvents_def run) (simp add: emit_def world0_def)
  from sample_search_found(1) sample_search_fields(4) a b c d show ?thesis by (intro conjI)
qed

text \<open>
  C6, amended. For a scan of an existing, active search whose acquisition returns: when
  the credential of the model is set, the loop over the candidates ends without throwing
  and the update of the search does not throw, \<open>lastChecked\<close> is written with the current
  time, whatever the candidates were and whatever the notification and the bulk update do
  afterwards. It is not written in the three other cases: when the credential is missing
  the scan returns zero counts; when the loop throws, and when the update of the search
  itself throws, the error reaches the caller.
\<close>

theorem lastChecked_written_after_loop:
  assumes found: "find (\<lambda>s. s_id s = sid) (searches w) = Some search"
    and active: "s_isActive search"
    and lookup: "\<not> dbFault env (SearchFindUnique sid)"
    and fetched: "fetchCraigslistListings (browser env) (s_query search) (s_zipcode search)
                    (Some (searchOptions search)) w = (Inr cands, w1)"
    and loop: "processListings env search (the (GEMINI_API_KEY env)) cands
                 \<lparr> n_newListings = 0, n_goodDeals = 0, dealsToAlert = [] \<rparr> w1 = (rl, w2)"
  shows "(\<not> unset (GEMINI_API_KEY env) \<and> (\<exists>st. rl = Inr st) \<and> \<not> dbFault env (SearchUpdate sid)
            \<longrightarrow> find (\<lambda>s. s_id s = sid) (searches (snd (processSearch env sid w)))
                  = Some (search\<lparr> s_lastChecked := Some (now env sid) \<rparr>)
                \<and> LastCheckedSet sid \<in> set (scanEvents env sid w))
       \<and> (unset (GEMINI_API_KEY env)
            \<longrightarrow> fst (processSearch env sid w) = Inr zero_counts
                \<and> searches (snd (processSearch env sid w)) = searches w
                \<and> LastCheckedSet sid \<notin> set (scanEvents env sid w))
       \<and> (\<forall>e. \<not> unset (GEMINI_API_KEY env) \<and> rl = Inl e
            \<longrightarrow> fst (processSearch env sid w) = Inl e
                \<and> searches (snd (processSearch env sid w)) = searches w
                \<and> LastCheckedSet sid \<notin> set (scanEvents env sid w))
       \<and> (\<not> unset (GEMINI_API_KEY env) \<and> (\<exists>st. rl = Inr st) \<and> dbFault env (SearchUpdate sid)
            \<longrightarrow> fst (processSearch env sid w) = Inl PersistenceError
                \<and> searches (snd (processSearch env sid w)) = searches w
                \<and> LastCheckedSet sid \<notin> set (scanEvents env sid w))"
proof -
  have sid: "s_id search = sid" using found by (rule find_id)
  from fetch_segment [OF fetched] obtain trf where f:
    "trace w1 = trace w @ trf" "searches w1 = searches w"
    "\<forall>ev \<in> set trf. ev = Navigated (buildSearchUrl (s_query search) (s_zipcode search)
                                   (Some (searchOptions search)))"
    by blast
  from processListings_effect [OF loop] obtain trl where
    "loopSummary (s_id search) cands \<lparr> n_newListings = 0, n_goodDeals = 0, dealsToAlert = [] \<rparr>
       w1 rl w2 trl" ..
  then have l: "trace w2 = trace w1 @ trl" "searches w2 = searches w1"
    "\<forall>ev \<in> set trl. isLoopEvent ev"
    unfolding loopSummary_def by blast+
  have nf: "LastCheckedSet sid \<notin> set trf" using f(3) by auto
  have nl: "LastCheckedSet sid \<notin> set trl" using l(3) by (auto simp: isLoopEvent_def)
  have A: "find (\<lambda>s. s_id s = sid) (searches (snd (processSearch env sid w)))
                  = Some (search\<lparr> s_lastChecked := Some (now env sid) \<rparr>)
                \<and> LastCheckedSet sid \<in> set (scanEvents env sid w)"
    if key: "\<not> unset (GEMINI_API_KEY env)" and st: "rl = Inr st"
      and upd: "\<not> dbFault env (SearchUpdate sid)" for st
  proof -
    obtain r w' where fin: "finishScan env search st w2 = (r, w')"
      by (cases "finishScan env search st w2") auto
    have run: "processSearch env sid w = (r, w')"
      using found active lookup fetched loop key st fin by (simp add: processSearch_def)
    from finishScan_effect [OF fin] upd sid
    have s: "searches w' = map (setLastChecked sid (now env sid)) (searches w2)"
      and t: "\<exists>trz. trace w' = trace w2 @ LastCheckedSet sid # trz"
      by auto
    from t obtain trz where trz: "trace w' = trace w2 @ LastCheckedSet sid # trz" ..
    have "searches w' = map (setLastChecked sid (now env sid)) (searches w)"
      using s l(2) f(2) by simp
    then have a: "find (\<lambda>s. s_id s = sid) (searches w')
                    = Some (search\<lparr> s_lastChecked := Some (now env sid) \<rparr>)"
      using find_setLastChecked [OF found] by simp
    have "trace w' = trace w @ (trf @ trl @ LastCheckedSet sid # trz)"
      using trz l(1) f(1) by simp
    with run have "scanEvents env sid w = trf @ trl @ LastCheckedSet sid # trz"
      by (rule scanEvents_eq)
    then have b: "LastCheckedSet sid \<in> set (scanEvents env sid w)" by simp
    from a b show ?thesis by (simp add: run)
  qed
  have B: "fst (processSearch env sid w) = Inr zero_counts
                \<and> searches (snd (processSearch env sid w)) = searches w
                \<and> LastCheckedSet sid \<notin> set (scanEvents env sid w)"
    if key: "unset (GEMINI_API_KEY env)"
  proof -
    have run: "processSearch env sid w = (Inr zero_counts, w1)"
      using found active lookup fetched key by (simp add: processSearch_def)
    from run f(1) have "scanEvents env sid w = trf" by (rule scanEvents_eq)
    with nf f(2) show ?thesis by (simp add: run)
  qed
  have C: "fst (processSearch env sid w) = Inl e
                \<and> searches (snd (processSearch env sid w)) = searches w
                \<and> LastCheckedSet sid \<notin> set (scanEvents env sid w)"
    if key: "\<not> unset (GEMINI_API_KEY env)" and e: "rl = Inl e" for e
  proof -
    have run: "processSearch env sid w = (Inl e, w2)"
      using found active lookup fetched loop key e by (simp add: processSearch_def)
    have "trace w2 = trace w @ (trf @ trl)" using l(1) f(1) by simp
    with run have "scanEvents env sid w = trf @ trl" by (rule scanEvents_eq)
    with nf nl l(2) f(2) e show ?thesis by (simp add: run)
  qed
  have D: "fst (processSearch env sid w) = Inl PersistenceError
                \<and> searches (snd (processSearch env sid w)) = searches w
                \<and> LastCheckedSet sid \<notin> set (scanEvents env sid w)"
    if key: "\<not> unset (GEMINI_API_KEY env)" and st: "rl = Inr st"
      and upd: "dbFault env (SearchUpdate sid)" for st
  proof -
    have fin: "finishScan env search st w2 = (Inl PersistenceError, w2)"
      using upd sid by (simp add: finishScan_def)
    have run: "processSearch env sid w = (Inl PersistenceError, w2)"
      using found active lookup fetched loop key st fin by (simp add: processSearch_def)
    have "trace w2 = trace w @ (trf @ trl)" using l(1) f(1) by simp
    with run have "scanEvents env sid w = trf @ trl" by (rule scanEvents_eq)
    with nf nl l(2) f(2) show ?thesis by (simp add: run)
  qed
  from A B C D show ?thesis by blast
qed

theorem lastChecked_written_after_loop_witness:
  "find (\<lambda>s. s_id s = ''s1'') (searches world0) = Some (sample_search ''s1'')
   \<and> s_isActive (sample_search ''s1'')
   \<and> \<not> dbFault (outside (Some ''g_key'') ProviderError (showing [trek, trek])) (SearchFindUnique ''s1'')
   \<and> \<not> unset (GEMINI_API_KEY (outside (Some ''g_key'') ProviderError (showing [trek, trek])))
   \<and> \<not> dbFault (outside (Some ''g_key'') ProviderError (showing [trek, trek])) (SearchUpdate ''s1'')
   \<and> fst (processSearch (outside (Some ''g_key'') ProviderError (showing [trek, trek])) ''s1'' world0)
       = Inr \<lparr> newListings = 1, goodDeals = 1, alertsSent = 0 \<rparr>
   \<and> find (\<lambda>s. s_id s = ''s1'')
         (searches (snd (processSearch (outside (Some ''g_key'') ProviderError (showing [trek, trek]))
                          ''s1'' world0)))
       = Some ((sample_search ''s1'')\<lparr> s_lastChecked := Some 1000 \<rparr>)
   \<and> LastCheckedSet ''s1''
       \<in> set (scanEvents (outside (Some ''g_key'') ProviderError (showing [trek, trek])) ''s1'' world0)
   \<and> \<not> dbFault update_refused (SearchFindUnique ''s1'')
   \<and> \<not> unset (GEMINI_API_KEY update_refused)
   \<and> dbFault update_refused (SearchUpdate ''s1'')
   \<and> fst (processSearch update_refused ''s1'' world0) = Inl PersistenceError
   \<and> searches (snd (processSearch update_refused ''s1'' world0)) = [sample_search ''s1'']
   \<and> LastCheckedSet ''s1'' \<notin> set (scanEvents update_refused ''s1'' world0)"
proof -
  let ?env = "outside (Some ''g_key'') ProviderError (showing [trek, trek])"
  let ?c = "candidate ''7712345678'' ''/sfo/bik/d/trek-520/7712345678.html'' ''Trek 520''"
  have k: "\<not> unset (GEMINI_API_KEY ?env)" by (simp add: outside_fields unset_def)
  have l: "\<not> dbFault ?env (SearchFindUnique ''s1'')" by (simp add: outside_fields)
  have u: "\<not> dbFault ?env (SearchUpdate ''s1'')" by (simp add: outside_fields)
  have f: "fetchCraigslistListings (browser ?env) (s_query (sample_search ''s1''))
             (s_zipcode (sample_search ''s1'')) (Some (searchOptions (sample_search ''s1''))) world0
           = (Inr [?c, ?c], emit (Navigated sample_url) (world0\<lparr> browserInstance := True \<rparr>))"
    by (simp add: outside_fields sample_search_fields showing_fetch sample_fields trek_listing)
  have p: "processListings ?env (sample_search ''s1'') (the (GEMINI_API_KEY ?env)) [?c, ?c]
             \<lparr> n_newListings = 0, n_goodDeals = 0, dealsToAlert = [] \<rparr>
             (emit (Navigated sample_url) (world0\<lparr> browserInstance := True \<rparr>))
           = (Inr \<lparr> n_newListings = 1, n_goodDeals = 1, dealsToAlert = [alertFor (trek_row False)] \<rparr>,
              world0\<lparr> browserInstance := True, listings := [trek_row False],
                      trace := [Navigated sample_url, Evaluated ''s1'' ''7712345678'',
                                Created (trek_row False)] \<rparr>)"
    by (simp add: outside_fields run1_loop del: processListings.simps)
  note written = lastChecked_written_after_loop
    [OF sample_search_found(1) sample_search_fields(4) l f p]
  have r: "fst (processSearch ?env ''s1'' world0)
             = Inr \<lparr> newListings = 1, goodDeals = 1, alertsSent = 0 \<rparr>"
    by (simp add: run1)
  from written k u have a: "find (\<lambda>s. s_id s = ''s1'') (searches (snd (processSearch ?env ''s1'' world0)))
       = Some ((sample_search ''s1'')\<lparr> s_lastChecked := Some 1000 \<rparr>)"
    by (simp add: outside_fields)
  from written k u have b: "LastCheckedSet ''s1'' \<in> set (scanEvents ?env ''s1'' world0)"
    by simp
  have k': "\<not> unset (GEMINI_API_KEY update_refused)"
    by (simp add: update_refused_def outside_fields unset_def)
  have l': "\<not> dbFault update_refused (SearchFindUnique ''s1'')"
    by (simp add: update_refused_def)
  have u': "dbFault update_refused (SearchUpdate ''s1'')"
    by (simp add: update_refused_def)
  have f': "fetchCraigslistListings (browser update_refused) (s_query (sample_search ''s1''))
             (s_zipcode (sample_search ''s1'')) (Some (searchOptions (sample_search ''s1''))) world0
           = (Inr [], emit (Navigated sample_url) (world0\<lparr> browserInstance := True \<rparr>))"
    by (simp add: update_refused_def outside_fields sample_search_fields showing_fetch)
  have p': "processListings update_refused (sample_search ''s1'') (the (GEMINI_API_KEY update_refused)) []
             \<lparr> n_newListings = 0, n_goodDeals = 0, dealsToAlert = [] \<rparr>
             (emit (Navigated sample_url) (world0\<lparr> browserInstance := True \<rparr>))
           = (Inr \<lparr> n_newListings = 0, n_goodDeals = 0, dealsToAlert = [] \<rparr>,
              emit (Navigated sample_url) (world0\<lparr> browserInstance := True \<rparr>))"
    by simp
  note refused = lastChecked_written_after_loop
    [OF sample_search_found(1) sample_search_fields(4) l' f' p',
     THEN conjunct2, THEN conjunct2, THEN conjunct2, rule_format]
  have st: "\<exists>st. (Inr \<lparr> n_newListings = 0, n_goodDeals = 0, dealsToAlert = [] \<rparr>
                   :: error + loop_state) = Inr st"
    by blast
  from refused [OF conjI [OF k' conjI [OF st u']]]
  have c: "fst (processSearch update_refused ''s1'' world0) = Inl PersistenceError"
    and d0: "searches (snd (processSearch update_refused ''s1'' world0)) = searches world0"
    and e: "LastCheckedSet ''s1'' \<notin> set (scanEvents update_refused ''s1'' world0)"
    by blast+
  from d0 have d: "searches (snd (processSearch update_refused ''s1'' world0)) = [sample_search ''s1'']"
    by (simp add: world0_def)
  from sample_search_found(1) sample_search_fields(4) l k u r a b l' k' u' c d e show ?thesis
    by (intro conjI)
qed

subsection \<open>The sweep\<close>

lemma countsOf_simps [simp]:
  "countsOf (Inl e) = zero_counts" "countsOf (Inr c) = c"
  by (simp_all add: countsOf_def)

lemma sweepOutcomes_length: "length (sweepOutcomes env ss w) = length ss"
  by (induction ss arbitrary: w) (auto split: prod.splits sum.splits)

lemma sweep_totals:
  "fst (sweep env ss t w)
     = \<lparr> t_newListings = t_newListings t + (\<Sum>r\<leftarrow>sweepOutcomes env ss w. newListings (countsOf r)),
         t_goodDeals = t_goodDeals t + (\<Sum>r\<leftarrow>sweepOutcomes env ss w. goodDeals (countsOf r)),
         t_alertsSent = t_alertsSent t + (\<Sum>r\<leftarrow>sweepOutcomes env ss w. alertsSent (countsOf r)) \<rparr>"
proof (induction ss arbitrary: t w)
  case Nil
  show ?case by simp
next
  case (Cons a ss)
  obtain r w1 where step: "processSearch env (s_id a) w = (r, w1)"
    by (cases "processSearch env (s_id a) w") auto
  show ?case
  proof (cases r)
    case (Inl e)
    with step show ?thesis
      by (simp add: Cons.IH zero_counts_def)
  next
    case (Inr c)
    with step show ?thesis
      by (simp add: Cons.IH addCounts_def)
  qed
qed

lemma sweep_world: "snd (sweep env ss t w) = snd (sweep env ss t' w)"
proof (induction ss arbitrary: t t' w)
  case Nil
  show ?case by simp
next
  case (Cons a ss)
  obtain r w1 where step: "processSearch env (s_id a) w = (r, w1)"
    by (cases "processSearch env (s_id a) w") auto
  show ?case
  proof (cases r)
    case (Inl e)
    with step show ?thesis using Cons.IH [of t "emit (ErrorLogged (s_id a) e) w1" t'] by simp
  next
    case (Inr c)
    with step show ?thesis using Cons.IH [of "addCounts t c" w1 "addCounts t' c"] by simp
  qed
qed

lemma processSearch_trace:
  "processSearch env sid w = (r, w') \<Longrightarrow> set (trace w) \<subseteq> set (trace w')"
  using processSearch_effect [of env sid w r w'] by auto

lemma sweep_trace: "set (trace w) \<subseteq> set (trace (snd (sweep env ss t w)))"
proof (induction ss arbitrary: t w)
  case Nil
  show ?case by simp
next
  case (Cons a ss)
  obtain r w1 where step: "processSearch env (s_id a) w = (r, w1)"
    by (cases "processSearch env (s_id a) w") auto
  note sub = processSearch_trace [OF step]
  show ?case
  proof (cases r)
    case (Inl e)
    have "set (trace w1) \<subseteq> set (trace (emit (ErrorLogged (s_id a) e) w1))"
      by (auto simp: emit_def)
    with sub Cons.IH [of "emit (ErrorLogged (s_id a) e) w1" t] step Inl show ?thesis
      by auto
  next
    case (Inr c)
    with sub Cons.IH [of w1 "addCounts t c"] step show ?thesis by auto
  qed
qed

text \<open>Each scan of a sweep runs in the world that the scans before it left.\<close>

lemma sweepOutcomes_nth:
  "i < length ss \<Longrightarrow>
   sweepOutcomes env ss w ! i
     = fst (processSearch env (s_id (ss ! i)) (snd (sweep env (take i ss) t w)))"
proof (induction ss arbitrary: i t w)
  case Nil
  then show ?case by simp
next
  case (Cons a ss)
  obtain r w1 where step: "processSearch env (s_id a) w = (r, w1)"
    by (cases "processSearch env (s_id a) w") auto
  show ?case
  proof (cases i)
    case 0
    with step show ?thesis by (cases r) simp_all
  next
    case (Suc j)
    with Cons.prems have j: "j < length ss" by simp
    show ?thesis
    proof (cases r)
      case (Inl e)
      with step Suc Cons.IH [OF j, of "emit (ErrorLogged (s_id a) e) w1" t] show ?thesis
        by simp
    next
      case (Inr c)
      with step Suc Cons.IH [OF j, of w1 "addCounts t c"] show ?thesis
        by simp
    qed
  qed
qed

lemma sweep_logged:
  "i < length ss \<Longrightarrow> sweepOutcomes env ss w ! i = Inl e \<Longrightarrow>
   ErrorLogged (s_id (ss ! i)) e \<in> set (trace (snd (sweep env ss t w)))"
proof (induction ss arbitrary: i t w)
  case Nil
  then show ?case by simp
next
  case (Cons a ss)
  obtain r w1 where step: "processSearch env (s_id a) w = (r, w1)"
    by (cases "processSearch env (s_id a) w") auto
  show ?case
  proof (cases i)
    case 0
    with Cons.prems(2) step have r: "r = Inl e" by (cases r) simp_all
    have "ErrorLogged (s_id a) e \<in> set (trace (emit (ErrorLogged (s_id a) e) w1))"
      by (simp add: emit_def)
    with sweep_trace [of "emit (ErrorLogged (s_id a) e) w1" env ss t]
    have "ErrorLogged (s_id a) e \<in> set (trace (snd (sweep env ss t (emit (ErrorLogged (s_id a) e) w1))))"
      by blast
    with step r 0 show ?thesis by simp
  next
    case (Suc j)
    with Cons.prems have j: "j < length ss" by simp
    show ?thesis
    proof (cases r)
      case (Inl e')
      with step Suc Cons.prems(2)
      have "sweepOutcomes env ss (emit (ErrorLogged (s_id a) e') w1) ! j = Inl e" by simp
      from Cons.IH [OF j this, of t] step Inl Suc show ?thesis by simp
    next
      case (Inr c)
      with step Suc Cons.prems(2) have "sweepOutcomes env ss w1 ! j = Inl e" by simp
      from Cons.IH [OF j this, of "addCounts t c"] step Inr Suc show ?thesis by simp
    qed
  qed
qed

lemma closeBrowser_trace: "trace (closeBrowser w) = trace w"
  by (simp add: closeBrowser_def)

text \<open>
  C7. In a sweep, every active search is scanned, each in the world left by the scans
  before it, whether those returned or threw; a scan that throws is logged and counts for
  nothing; the totals are the sums over the scans that returned, and \<open>searchesProcessed\<close>
  is the number of active searches.
\<close>

theorem sweep_isolates_failures:
  assumes list: "\<not> dbFault env SearchFindMany"
    and active: "active = filter s_isActive (searches w)"
    and outcomes: "outcomes = sweepOutcomes env active w"
  shows "fst (processAllSearches env w)
           = Inr \<lparr> searchesProcessed = length active,
                   totalNewListings = (\<Sum>r\<leftarrow>outcomes. newListings (countsOf r)),
                   totalGoodDeals = (\<Sum>r\<leftarrow>outcomes. goodDeals (countsOf r)),
                   totalAlertsSent = (\<Sum>r\<leftarrow>outcomes. alertsSent (countsOf r)) \<rparr>
       \<and> length outcomes = length active
       \<and> (\<forall>i < length active.
             outcomes ! i
               = fst (processSearch env (s_id (active ! i))
                        (snd (sweep env (take i active)
                                \<lparr> t_newListings = 0, t_goodDeals = 0, t_alertsSent = 0 \<rparr> w))))
       \<and> (\<forall>i < length active. \<forall>e. outcomes ! i = Inl e \<longrightarrow>
             countsOf (outcomes ! i) = zero_counts
             \<and> ErrorLogged (s_id (active ! i)) e \<in> set (trace (snd (processAllSearches env w))))"
proof -
  let ?t0 = "\<lparr> t_newListings = 0, t_goodDeals = 0, t_alertsSent = 0 \<rparr>"
  obtain t w1 where sw: "sweep env active ?t0 w = (t, w1)"
    by (cases "sweep env active ?t0 w") auto
  have all: "processAllSearches env w
           = (Inr \<lparr> searchesProcessed = length active, totalNewListings = t_newListings t,
                     totalGoodDeals = t_goodDeals t, totalAlertsSent = t_alertsSent t \<rparr>,
              closeBrowser w1)"
    using list sw by (simp add: processAllSearches_def active Let_def)
  have t: "t = fst (sweep env active ?t0 w)" using sw by simp
  have a: "fst (processAllSearches env w)
           = Inr \<lparr> searchesProcessed = length active,
                   totalNewListings = (\<Sum>r\<leftarrow>outcomes. newListings (countsOf r)),
                   totalGoodDeals = (\<Sum>r\<leftarrow>outcomes. goodDeals (countsOf r)),
                   totalAlertsSent = (\<Sum>r\<leftarrow>outcomes. alertsSent (countsOf r)) \<rparr>"
    unfolding all t sweep_totals outcomes by simp
  have b: "length outcomes = length active"
    unfolding outcomes by (rule sweepOutcomes_length)
  have c: "\<forall>i < length active.
             outcomes ! i
               = fst (processSearch env (s_id (active ! i))
                        (snd (sweep env (take i active) ?t0 w)))"
    unfolding outcomes by (intro allI impI sweepOutcomes_nth)
  have w1: "w1 = snd (sweep env active ?t0 w)" using sw by simp
  have d: "\<forall>i < length active. \<forall>e. outcomes ! i = Inl e \<longrightarrow>
             countsOf (outcomes ! i) = zero_counts
             \<and> ErrorLogged (s_id (active ! i)) e \<in> set (trace (snd (processAllSearches env w)))"
  proof (intro allI impI)
    fix i e assume i: "i < length active" and o: "outcomes ! i = Inl e"
    from o have "sweepOutcomes env active w ! i = Inl e" by (simp add: outcomes)
    from sweep_logged [OF i this, of ?t0]
    have "ErrorLogged (s_id (active ! i)) e \<in> set (trace (snd (processAllSearches env w)))"
      by (simp add: all closeBrowser_trace w1)
    with o show "countsOf (outcomes ! i) = zero_counts
             \<and> ErrorLogged (s_id (active ! i)) e \<in> set (trace (snd (processAllSearches env w)))"
      by simp
  qed
  from a b c d show ?thesis by (intro conjI)
qed

text \<open>A scan of the sample search in a world that has no row for the Trek yet.\<close>

lemma sample_scan:
  assumes found: "find (\<lambda>s. s_id s = sid) (searches w) = Some (sample_search sid)"
    and ok: "sid \<noteq> ''s2''"
    and fresh: "find (sameKey sid ''7712345678'') (listings w) = None"
  shows "processSearch (outside (Some ''g_key'') Delivered (showing [trek])) sid w
           = (Inr \<lparr> newListings = 1, goodDeals = 1, alertsSent = 1 \<rparr>, scanned sid w)"
proof -
  let ?env = "outside (Some ''g_key'') Delivered (showing [trek])"
  let ?c = "candidate ''7712345678'' ''/sfo/bik/d/trek-520/7712345678.html'' ''Trek 520''"
  let ?row = "stored sid ''7712345678'' ''/sfo/bik/d/trek-520/7712345678.html'' ''Trek 520'' False"
  let ?wa = "emit (Navigated sample_url) (w\<lparr> browserInstance := True \<rparr>)"
  let ?wb = "?wa\<lparr> listings := listings ?wa @ [?row],
                 trace := trace ?wa @ [Evaluated sid ''7712345678'', Created ?row] \<rparr>"
  have f: "fetchCraigslistListings (showing [trek]) ''road bike'' ''94110''
             (Some (searchOptions (sample_search sid))) w = (Inr [?c], ?wa)"
    by (simp add: showing_fetch sample_fields trek_listing)
  have a: "find (sameKey sid ''7712345678'') (listings ?wa) = None"
    using fresh by (simp add: emit_def)
  have l: "processListings ?env (sample_search sid) ''g_key'' [?c]
             \<lparr> n_newListings = 0, n_goodDeals = 0, dealsToAlert = [] \<rparr> ?wa
           = (Inr \<lparr> n_newListings = 1, n_goodDeals = 1, dealsToAlert = [alertFor ?row] \<rparr>, ?wb)"
    by (simp add: sample_step_new [OF a sample_search_fields(1)])
  have fin: "finishScan ?env (sample_search sid)
               \<lparr> n_newListings = 1, n_goodDeals = 1, dealsToAlert = [alertFor ?row] \<rparr> ?wb
             = (Inr \<lparr> newListings = 1, goodDeals = 1, alertsSent = 1 \<rparr>, scanned sid w)"
    by (simp add: finishScan_def Let_def outside_fields sample_search_fields sendDealAlertEmail_def
          unset_def emit_def scanned_def mailFor_def sample_user_def)
  have "processSearch ?env sid w
          = finishScan ?env (sample_search sid)
              \<lparr> n_newListings = 1, n_goodDeals = 1, dealsToAlert = [alertFor ?row] \<rparr> ?wb"
    using ok
    by (simp add: processSearch_def outside_fields found sample_search_fields f
          unset_def l del: processListings.simps)
  with fin show ?thesis by simp
qed

lemma sample_scan_refused:
  "processSearch (outside key outcome b) ''s2'' w = (Inl PersistenceError, w)"
  by (simp add: processSearch_def outside_fields)

lemma world3_outcomes:
  "sweepOutcomes (outside (Some ''g_key'') Delivered (showing [trek]))
     [sample_search ''s1'', sample_search ''s2'', sample_search ''s3''] world3
   = [Inr \<lparr> newListings = 1, goodDeals = 1, alertsSent = 1 \<rparr>, Inl PersistenceError,
      Inr \<lparr> newListings = 1, goodDeals = 1, alertsSent = 1 \<rparr>]"
proof -
  let ?env = "outside (Some ''g_key'') Delivered (showing [trek])"
  let ?wa = "scanned ''s1'' world3"
  let ?wb = "emit (ErrorLogged ''s2'' PersistenceError) ?wa"
  have s1: "processSearch ?env ''s1'' world3
              = (Inr \<lparr> newListings = 1, goodDeals = 1, alertsSent = 1 \<rparr>, ?wa)"
    by (rule sample_scan) (simp_all add: world3_def sample_search_def)
  have s3: "processSearch ?env ''s3'' ?wb
              = (Inr \<lparr> newListings = 1, goodDeals = 1, alertsSent = 1 \<rparr>, scanned ''s3'' ?wb)"
    by (rule sample_scan)
       (simp_all add: world3_def scanned_def emit_def sample_search_def setLastChecked_def
          markAlerted_def stored_def sameKey_def)
  show ?thesis
    by (simp add: sample_search_fields s1 sample_scan_refused s3)
qed

theorem sweep_isolates_failures_witness:
  "\<not> dbFault (outside (Some ''g_key'') Delivered (showing [trek])) SearchFindMany
   \<and> filter s_isActive (searches world3)
       = [sample_search ''s1'', sample_search ''s2'', sample_search ''s3'']
   \<and> sweepOutcomes (outside (Some ''g_key'') Delivered (showing [trek]))
        [sample_search ''s1'', sample_search ''s2'', sample_search ''s3''] world3
       = [Inr \<lparr> newListings = 1, goodDeals = 1, alertsSent = 1 \<rparr>, Inl PersistenceError,
          Inr \<lparr> newListings = 1, goodDeals = 1, alertsSent = 1 \<rparr>]
   \<and> fst (processAllSearches (outside (Some ''g_key'') Delivered (showing [trek])) world3)
       = Inr \<lparr> searchesProcessed = 3, totalNewListings = 2, totalGoodDeals = 2,
               totalAlertsSent = 2 \<rparr>
   \<and> ErrorLogged ''s2'' PersistenceError
       \<in> set (trace (snd (processAllSearches (outside (Some ''g_key'') Delivered (showing [trek]))
                           world3)))"
proof -
  let ?env = "outside (Some ''g_key'') Delivered (showing [trek])"
  let ?ss = "[sample_search ''s1'', sample_search ''s2'', sample_search ''s3'']"
  have l: "\<not> dbFault ?env SearchFindMany" by (simp add: outside_fields)
  have a: "?ss = filter s_isActive (searches world3)"
    by (simp add: world3_def sample_search_fields)
  note iso = sweep_isolates_failures [OF l a world3_outcomes [symmetric]]
  from iso have t: "fst (processAllSearches ?env world3)
       = Inr \<lparr> searchesProcessed = 3, totalNewListings = 2, totalGoodDeals = 2,
               totalAlertsSent = 2 \<rparr>"
    by (simp add: zero_counts_def)
  from iso have "\<forall>i<3. \<forall>e. [Inr \<lparr> newListings = 1, goodDeals = 1, alertsSent = 1 \<rparr>,
                    Inl PersistenceError,
                    Inr \<lparr> newListings = 1, goodDeals = 1, alertsSent = 1 \<rparr>] ! i = Inl e
        \<longrightarrow> ErrorLogged (s_id (?ss ! i)) e \<in> set (trace (snd (processAllSearches ?env world3)))"
    by simp
  from this [rule_format, of 1 PersistenceError]
  have e: "ErrorLogged ''s2'' PersistenceError
             \<in> set (trace (snd (processAllSearches ?env world3)))"
    by (simp add: sample_search_fields)
  from l a [symmetric] world3_outcomes t e show ?thesis by (intro conjI)
qed

section \<open>Properties of the acquisition adapter\<close>

text \<open>
  C8. Once the browser, its context and its page exist, a navigation to the search page
  that times out, a results selector that never appears, or an extraction that throws makes
  \<open>fetchCraigslistListings\<close> return the empty list: nothing is raised to the caller.
\<close>

theorem fetchCraigslistListings_empty_on_page_failure:
  assumes "browserInstance w \<or> \<not> launchFails b"
    and "\<not> newContextFails b"
    and "gotoFails b (buildSearchUrl query zipcode options)
       \<or> selectorFails b (buildSearchUrl query zipcode options)
       \<or> resultRows b (buildSearchUrl query zipcode options) = None"
  shows "fst (fetchCraigslistListings b query zipcode options w) = Inr []
       \<and> listings (snd (fetchCraigslistListings b query zipcode options w)) = listings w
       \<and> searches (snd (fetchCraigslistListings b query zipcode options w)) = searches w"
  using assms
  by (auto simp: fetchCraigslistListings_def getBrowser_def searchPageRows_def Let_def emit_def)

theorem fetchCraigslistListings_empty_on_page_failure_witness:
  "(browserInstance world0 \<or> \<not> launchFails timing_out)
   \<and> \<not> newContextFails timing_out
   \<and> gotoFails timing_out (buildSearchUrl ''road bike'' ''94110'' None)
   \<and> fst (fetchCraigslistListings timing_out ''road bike'' ''94110'' None world0) = Inr []"
proof -
  have a: "browserInstance world0 \<or> \<not> launchFails timing_out" by (simp add: timing_out_def)
  have b: "\<not> newContextFails timing_out" by (simp add: timing_out_def)
  have c: "gotoFails timing_out (buildSearchUrl ''road bike'' ''94110'' None)"
    by (simp add: timing_out_def)
  from c have c': "gotoFails timing_out (buildSearchUrl ''road bike'' ''94110'' None)
       \<or> selectorFails timing_out (buildSearchUrl ''road bike'' ''94110'' None)
       \<or> resultRows timing_out (buildSearchUrl ''road bike'' ''94110'' None) = None" ..
  from fetchCraigslistListings_empty_on_page_failure [OF a b c']
  have d: "fst (fetchCraigslistListings timing_out ''road bike'' ''94110'' None world0) = Inr []"
    by (rule conjunct1)
  from a b c d show ?thesis by (intro conjI)
qed

lemma buildSearchUrl_min_price:
  "hasParam ''min_price'' (buildSearchUrl query zipcode options)
     = (\<exists>opts. options = Some opts \<and> given (o_minPrice opts))"
  by (cases options) (auto simp: buildSearchUrl_def hasParam_def Let_def given_def update_conv')

lemma buildSearchUrl_max_price:
  "hasParam ''max_price'' (buildSearchUrl query zipcode options)
     = (\<exists>opts. options = Some opts \<and> given (o_maxPrice opts))"
  by (cases options) (auto simp: buildSearchUrl_def hasParam_def Let_def given_def update_conv')

lemma given_iff: "given x = (x \<noteq> None \<and> x \<noteq> Some 0)"
  by (cases x) (simp_all add: given_def)

lemma fromCents_None: "(fromCents p = None) = (p = None \<or> p = Some 0)"
  by (cases p) (simp_all add: fromCents_def)

lemma given_fromCents: "given (fromCents p) = (p \<noteq> None \<and> p \<noteq> Some 0)"
  by (cases p) (simp_all add: fromCents_def given_def)

text \<open>The only page a scan navigates to is the search page built from the search.\<close>

lemma processSearch_navigated:
  assumes run: "processSearch env sid w = (r, w')"
    and nav: "Navigated u \<in> set (scanEvents env sid w)"
  shows "\<exists>s. find (\<lambda>s. s_id s = sid) (searches w) = Some s
           \<and> u = buildSearchUrl (s_query s) (s_zipcode s) (Some (searchOptions s))"
  using run
proof (cases rule: processSearch_cases)
  case early
  with run have "scanEvents env sid w = []" by (simp add: scanEvents_def)
  with nav show ?thesis by simp
next
  case (fetch_thrown search e)
  from fetch_segment [OF fetch_thrown(4)] obtain trf where f:
    "trace w' = trace w @ trf"
    "\<forall>ev \<in> set trf. ev = Navigated (buildSearchUrl (s_query search) (s_zipcode search)
                                   (Some (searchOptions search)))" by blast
  from run f(1) have "scanEvents env sid w = trf" by (rule scanEvents_eq)
  with nav f(2) fetch_thrown(2) show ?thesis by auto
next
  case (no_key search cands)
  from fetch_segment [OF no_key(4)] obtain trf where f:
    "trace w' = trace w @ trf"
    "\<forall>ev \<in> set trf. ev = Navigated (buildSearchUrl (s_query search) (s_zipcode search)
                                   (Some (searchOptions search)))" by blast
  from run f(1) have "scanEvents env sid w = trf" by (rule scanEvents_eq)
  with nav f(2) no_key(2) show ?thesis by auto
next
  case (loop_thrown search cands w1 e)
  from fetch_segment [OF loop_thrown(4)] obtain trf where f:
    "trace w1 = trace w @ trf"
    "\<forall>ev \<in> set trf. ev = Navigated (buildSearchUrl (s_query search) (s_zipcode search)
                                   (Some (searchOptions search)))" by blast
  from processListings_effect [OF loop_thrown(6)] obtain trl where
    "loopSummary (s_id search) cands \<lparr> n_newListings = 0, n_goodDeals = 0, dealsToAlert = [] \<rparr>
       w1 (Inl e) w' trl" ..
  then have l: "trace w' = trace w1 @ trl" "\<forall>ev \<in> set trl. isLoopEvent ev"
    unfolding loopSummary_def by blast+
  have "trace w' = trace w @ (trf @ trl)" using f(1) l(1) by simp
  with run have "scanEvents env sid w = trf @ trl" by (rule scanEvents_eq)
  with nav have "Navigated u \<in> set trf \<or> Navigated u \<in> set trl" by simp
  moreover have "Navigated u \<notin> set trl" using l(2) by (auto simp: isLoopEvent_def)
  ultimately show ?thesis using f(2) loop_thrown(2) by auto
next
  case (finished search cands w1 st w2)
  from fetch_segment [OF finished(4)] obtain trf where f:
    "trace w1 = trace w @ trf"
    "\<forall>ev \<in> set trf. ev = Navigated (buildSearchUrl (s_query search) (s_zipcode search)
                                   (Some (searchOptions search)))" by blast
  from processListings_effect [OF finished(6)] obtain trl where
    "loopSummary (s_id search) cands \<lparr> n_newListings = 0, n_goodDeals = 0, dealsToAlert = [] \<rparr>
       w1 (Inr st) w2 trl" ..
  then have l: "trace w2 = trace w1 @ trl" "\<forall>ev \<in> set trl. isLoopEvent ev"
    unfolding loopSummary_def by blast+
  from finish_segment [OF finished(7)] obtain trz where z:
    "trace w' = trace w2 @ trz" "\<forall>ev \<in> set trz. \<forall>u. ev \<noteq> Navigated u" by blast
  have "trace w' = trace w @ (trf @ trl @ trz)" using f(1) l(1) z(1) by simp
  with run have "scanEvents env sid w = trf @ trl @ trz" by (rule scanEvents_eq)
  with nav have "Navigated u \<in> set trf \<or> Navigated u \<in> set trl \<or> Navigated u \<in> set trz" by simp
  moreover have "Navigated u \<notin> set trl" using l(2) by (auto simp: isLoopEvent_def)
  moreover have "Navigated u \<notin> set trz" using z(2) by auto
  ultimately show ?thesis using f(2) finished(2) by auto
qed

text \<open>
  C10. A price bound of a search that is 0 is handed to the acquisition adapter as
  \<open>undefined\<close>, as a bound that is not set is; \<open>buildSearchUrl\<close> leaves \<open>min_price\<close> (and
  \<open>max_price\<close>) out of the URL when the bound it gets is \<open>undefined\<close> or 0; so the search page
  that a scan navigates to carries \<open>min_price\<close> (\<open>max_price\<close>) exactly when the stored bound is
  set and not 0.
\<close>

theorem zero_price_bound_is_absent:
  "(o_minPrice (searchOptions search) = None)
      = (s_minPrice search = None \<or> s_minPrice search = Some 0)
   \<and> (o_maxPrice (searchOptions search) = None)
      = (s_maxPrice search = None \<or> s_maxPrice search = Some 0)
   \<and> hasParam ''min_price'' (buildSearchUrl query zipcode options)
      = (\<exists>opts. options = Some opts \<and> o_minPrice opts \<noteq> None \<and> o_minPrice opts \<noteq> Some 0)
   \<and> hasParam ''max_price'' (buildSearchUrl query zipcode options)
      = (\<exists>opts. options = Some opts \<and> o_maxPrice opts \<noteq> None \<and> o_maxPrice opts \<noteq> Some 0)
   \<and> hasParam ''min_price''
        (buildSearchUrl (s_query search) (s_zipcode search) (Some (searchOptions search)))
      = (s_minPrice search \<noteq> None \<and> s_minPrice search \<noteq> Some 0)
   \<and> hasParam ''max_price''
        (buildSearchUrl (s_query search) (s_zipcode search) (Some (searchOptions search)))
      = (s_maxPrice search \<noteq> None \<and> s_maxPrice search \<noteq> Some 0)
   \<and> (\<forall>u. Navigated u \<in> set (scanEvents env sid w) \<longrightarrow>
         (\<exists>s. find (\<lambda>s. s_id s = sid) (searches w) = Some s
            \<and> u = buildSearchUrl (s_query s) (s_zipcode s) (Some (searchOptions s))
            \<and> hasParam ''min_price'' u = (s_minPrice s \<noteq> None \<and> s_minPrice s \<noteq> Some 0)
            \<and> hasParam ''max_price'' u = (s_maxPrice s \<noteq> None \<and> s_maxPrice s \<noteq> Some 0)))"
proof -
  have a: "(o_minPrice (searchOptions search) = None)
      = (s_minPrice search = None \<or> s_minPrice search = Some 0)"
    by (simp add: searchOptions_def fromCents_None)
  have b: "(o_maxPrice (searchOptions search) = None)
      = (s_maxPrice search = None \<or> s_maxPrice search = Some 0)"
    by (simp add: searchOptions_def fromCents_None)
  have c: "hasParam ''min_price'' (buildSearchUrl query zipcode options)
      = (\<exists>opts. options = Some opts \<and> o_minPrice opts \<noteq> None \<and> o_minPrice opts \<noteq> Some 0)"
    by (simp add: buildSearchUrl_min_price given_iff)
  have d: "hasParam ''max_price'' (buildSearchUrl query zipcode options)
      = (\<exists>opts. options = Some opts \<and> o_maxPrice opts \<noteq> None \<and> o_maxPrice opts \<noteq> Some 0)"
    by (simp add: buildSearchUrl_max_price given_iff)
  have e: "hasParam ''min_price''
        (buildSearchUrl (s_query s) (s_zipcode s) (Some (searchOptions s)))
      = (s_minPrice s \<noteq> None \<and> s_minPrice s \<noteq> Some 0)" for s
    by (simp add: buildSearchUrl_min_price searchOptions_def given_fromCents)
  have f: "hasParam ''max_price''
        (buildSearchUrl (s_query s) (s_zipcode s) (Some (searchOptions s)))
      = (s_maxPrice s \<noteq> None \<and> s_maxPrice s \<noteq> Some 0)" for s
    by (simp add: buildSearchUrl_max_price searchOptions_def given_fromCents)
  have g: "\<forall>u. Navigated u \<in> set (scanEvents env sid w) \<longrightarrow>
         (\<exists>s. find (\<lambda>s. s_id s = sid) (searches w) = Some s
            \<and> u = buildSearchUrl (s_query s) (s_zipcode s) (Some (searchOptions s))
            \<and> hasParam ''min_price'' u = (s_minPrice s \<noteq> None \<and> s_minPrice s \<noteq> Some 0)
            \<and> hasParam ''max_price'' u = (s_maxPrice s \<noteq> None \<and> s_maxPrice s \<noteq> Some 0))"
  proof (intro allI impI)
    fix u assume nav: "Navigated u \<in> set (scanEvents env sid w)"
    obtain r w' where run: "processSearch env sid w = (r, w')"
      by (cases "processSearch env sid w") auto
    from processSearch_navigated [OF run nav] obtain s where s:
      "find (\<lambda>s. s_id s = sid) (searches w) = Some s"
      "u = buildSearchUrl (s_query s) (s_zipcode s) (Some (searchOptions s))" by blast
    from s e [of s] f [of s]
    show "\<exists>s. find (\<lambda>s. s_id s = sid) (searches w) = Some s
            \<and> u = buildSearchUrl (s_query s) (s_zipcode s) (Some (searchOptions s))
            \<and> hasParam ''min_price'' u = (s_minPrice s \<noteq> None \<and> s_minPrice s \<noteq> Some 0)
            \<and> hasParam ''max_price'' u = (s_maxPrice s \<noteq> None \<and> s_maxPrice s \<noteq> Some 0)"
      by blast
  qed
  from a b c d e [of search] f [of search] g show ?thesis by (intro conjI)
qed

theorem zero_price_bound_is_absent_witness:
  "find (\<lambda>s. s_id s = ''s1'') (searches world0) = Some (sample_search ''s1'')
   \<and> s_minPrice (sample_search ''s1'') = Some 0
   \<and> s_maxPrice (sample_search ''s1'') = Some 80000
   \<and> Navigated sample_url
       \<in> set (scanEvents (outside (Some ''g_key'') ProviderError (showing [trek, trek])) ''s1'' world0)
   \<and> \<not> hasParam ''min_price'' sample_url
   \<and> hasParam ''max_price'' sample_url
   \<and> map_of (u_params sample_url) ''max_price'' = Some (Number 800)"
proof -
  let ?env = "outside (Some ''g_key'') ProviderError (showing [trek, trek])"
  have a: "s_minPrice (sample_search ''s1'') = Some 0" "s_maxPrice (sample_search ''s1'') = Some 80000"
    by (simp_all add: sample_search_def)
  have n: "Navigated sample_url \<in> set (scanEvents ?env ''s1'' world0)"
    by (simp add: run1_events) (simp add: world1_def)
  note z = zero_price_bound_is_absent
    [where search = "sample_search ''s1''" and env = ?env and sid = "''s1''" and w = world0
       and query = "''road bike''" and zipcode = "''94110''" and options = None]
  from z have "hasParam ''min_price''
        (buildSearchUrl (s_query (sample_search ''s1'')) (s_zipcode (sample_search ''s1''))
           (Some (searchOptions (sample_search ''s1''))))
      = (s_minPrice (sample_search ''s1'') \<noteq> None \<and> s_minPrice (sample_search ''s1'') \<noteq> Some 0)"
    by (rule conjunct2 [THEN conjunct2, THEN conjunct2, THEN conjunct2, THEN conjunct1])
  then have h1: "\<not> hasParam ''min_price'' sample_url"
    by (simp add: sample_search_fields sample_url_built a)
  from z have "hasParam ''max_price''
        (buildSearchUrl (s_query (sample_search ''s1'')) (s_zipcode (sample_search ''s1''))
           (Some (searchOptions (sample_search ''s1''))))
      = (s_maxPrice (sample_search ''s1'') \<noteq> None \<and> s_maxPrice (sample_search ''s1'') \<noteq> Some 0)"
    by (rule conjunct2 [THEN conjunct2, THEN conjunct2, THEN conjunct2, THEN conjunct2, THEN conjunct1])
  then have h2: "hasParam ''max_price'' sample_url"
    by (simp add: sample_search_fields sample_url_built a)
  note h = h1 h2
  have m: "map_of (u_params sample_url) ''max_price'' = Some (Number 800)"
    by (simp add: sample_url_def)
  from sample_search_found(1) a n h m show ?thesis by (intro conjI)
qed


end
